(* ===== verification/Prelude.thy ===== *)
theory Prelude
  imports Main "HOL-Library.Monad_Syntax"
begin

text \<open>
  What every component shares: Go's 64-bit and 32-bit integers as \<open>int\<close> with the wrap-around
  written out, decimal printing and \<open>strconv.ParseInt\<close>, the prefix tests of package
  \<open>strings\<close>, and generic lemmas on filtered and sorted lists.

  Strings are Go strings: a \<^typ>\<open>string\<close> is the list of the string's bytes.
\<close>

named_theorems wrap_simps \<open>facts that compute with wrapped integers\<close>
named_theorems codec_simps \<open>round trips of printers and parsers\<close>

section \<open>Machine integers\<close>

text \<open>
  Go's \<open>int64\<close> (and \<open>int\<close> on the 64-bit platforms the service is built for): a signed
  integer whose arithmetic wraps modulo \<open>2 ^ 64\<close>; the same for \<open>int32\<close>.
\<close>

type_synonym i64 = int

definition in_i64 :: "int \<Rightarrow> bool" where
  "in_i64 n \<longleftrightarrow> - 9223372036854775808 \<le> n \<and> n \<le> 9223372036854775807"

definition wrap64 :: "int \<Rightarrow> int" where
  "wrap64 n = (n + 9223372036854775808) mod 18446744073709551616 - 9223372036854775808"

definition wrap32 :: "int \<Rightarrow> int" where
  "wrap32 n = (n + 2147483648) mod 4294967296 - 2147483648"

lemma in_i64_wrap64 [simp, wrap_simps]: "in_i64 (wrap64 n)"
  by (simp add: in_i64_def wrap64_def)

lemma wrap64_id: "in_i64 n \<Longrightarrow> wrap64 n = n"
  by (simp add: in_i64_def wrap64_def)

lemma wrap64_idem [simp, wrap_simps]: "wrap64 (wrap64 n) = wrap64 n"
  by (rule wrap64_id) simp

lemma wrap64_plus_wrap64_left [wrap_simps]: "wrap64 (wrap64 a + b) = wrap64 (a + b)"
proof -
  have "wrap64 a + b + 9223372036854775808 = (a + 9223372036854775808) mod 18446744073709551616 + b"
    by (simp add: wrap64_def)
  then show ?thesis
    by (simp add: wrap64_def mod_simps algebra_simps)
qed

lemma wrap64_plus_wrap64_right [wrap_simps]: "wrap64 (a + wrap64 b) = wrap64 (a + b)"
  using wrap64_plus_wrap64_left [of b a] by (simp add: add.commute)

lemma wrap32_id: "- 2147483648 \<le> n \<Longrightarrow> n \<le> 2147483647 \<Longrightarrow> wrap32 n = n"
  by (simp add: wrap32_def)

lemma in_i64_small [simp]: "0 \<le> n \<Longrightarrow> n \<le> 9223372036854775807 \<Longrightarrow> in_i64 n"
  by (simp add: in_i64_def)

section \<open>Bytes and decimal digits\<close>

definition byte_val :: "char \<Rightarrow> int" where
  "byte_val c = of_char c"

definition is_digit :: "char \<Rightarrow> bool" where
  "is_digit c \<longleftrightarrow> 48 \<le> byte_val c \<and> byte_val c \<le> 57"

definition digit_val :: "char \<Rightarrow> int" where
  "digit_val c = byte_val c - 48"

definition digit_char :: "int \<Rightarrow> char" where
  "digit_char d = char_of (48 + d)"

lemma byte_val_digit_char [simp]: "0 \<le> d \<Longrightarrow> d < 10 \<Longrightarrow> byte_val (digit_char d) = 48 + d"
  by (simp add: byte_val_def digit_char_def)

lemma is_digit_digit_char [simp]: "0 \<le> d \<Longrightarrow> d < 10 \<Longrightarrow> is_digit (digit_char d)"
  by (simp add: is_digit_def)

lemma digit_val_digit_char [simp]: "0 \<le> d \<Longrightarrow> d < 10 \<Longrightarrow> digit_val (digit_char d) = d"
  by (simp add: digit_val_def)

lemma digit_val_bounds: "is_digit c \<Longrightarrow> 0 \<le> digit_val c \<and> digit_val c < 10"
  by (simp add: is_digit_def digit_val_def)

text \<open>The value of a string of digits, most significant first, on top of \<open>acc\<close>.\<close>

fun digits_val :: "int \<Rightarrow> string \<Rightarrow> int option" where
  "digits_val acc [] = Some acc"
| "digits_val acc (c # cs) =
     (if is_digit c then digits_val (10 * acc + digit_val c) cs else None)"

lemma digits_val_append:
  "digits_val acc (xs @ ys) = Option.bind (digits_val acc xs) (\<lambda>a. digits_val a ys)"
  by (induction xs arbitrary: acc) auto

lemma digits_val_nonneg: "digits_val acc cs = Some n \<Longrightarrow> 0 \<le> acc \<Longrightarrow> 0 \<le> n"
  by (induction cs arbitrary: acc) (auto split: if_splits dest: digit_val_bounds)

text \<open>The decimal digits of a number that is not negative.\<close>

function show_nat :: "int \<Rightarrow> string" where
  "show_nat n = (if n < 10 then [digit_char n]
     else show_nat (n div 10) @ [digit_char (n mod 10)])"
  by pat_completeness auto
termination
  by (relation "measure nat") auto

declare show_nat.simps [simp del]

lemma show_nat_nonempty [simp]: "show_nat n \<noteq> []"
  by (subst show_nat.simps) simp

lemma show_nat_digits: "0 \<le> n \<Longrightarrow> list_all is_digit (show_nat n)"
proof (induction n rule: show_nat.induct)
  case (1 n)
  then show ?case
    by (cases "n < 10") (simp_all add: show_nat.simps [of n])
qed

lemma digits_val_show_nat [codec_simps]: "0 \<le> n \<Longrightarrow> digits_val 0 (show_nat n) = Some n"
proof (induction n rule: show_nat.induct)
  case (1 n)
  then show ?case
    by (cases "n < 10") (simp_all add: show_nat.simps [of n] digits_val_append)
qed

text \<open>\<open>fmt.Sprintf("%d", n)\<close>.\<close>

definition show_int :: "int \<Rightarrow> string" where
  "show_int n = (if n < 0 then CHR ''-'' # show_nat (- n) else show_nat n)"

text \<open>
  \<open>strconv.ParseInt(s, 10, 64)\<close> and \<open>strconv.Atoi(s)\<close>: an optional sign, at least one digit,
  nothing else, and a value that fits; every other string is an error (\<open>None\<close>).
\<close>

definition parse_uint :: "string \<Rightarrow> int option" where
  "parse_uint s = (if s = [] then None else digits_val 0 s)"

definition parse_int64 :: "string \<Rightarrow> i64 option" where
  "parse_int64 s =
     (let neg = (case s of c # _ \<Rightarrow> c = CHR ''-'' | [] \<Rightarrow> False);
          rest = (case s of c # cs \<Rightarrow> if c = CHR ''-'' \<or> c = CHR ''+'' then cs else s | [] \<Rightarrow> [])
      in case parse_uint rest of
           None \<Rightarrow> None
         | Some u \<Rightarrow> (let n = (if neg then - u else u)
                      in if in_i64 n then Some n else None))"

lemma is_digit_not_sign: "is_digit c \<Longrightarrow> c \<noteq> CHR ''-'' \<and> c \<noteq> CHR ''+'' \<and> c \<noteq> CHR '':''"
  by (auto simp: is_digit_def byte_val_def)

lemma parse_uint_show_nat [codec_simps]: "0 \<le> n \<Longrightarrow> parse_uint (show_nat n) = Some n"
  by (simp add: parse_uint_def codec_simps)

lemma show_nat_Cons:
  assumes "0 \<le> n"
  obtains c cs where "show_nat n = c # cs" "is_digit c"
  using show_nat_digits [OF assms] by (cases "show_nat n") auto

lemma parse_int64_show_int [codec_simps]:
  assumes "in_i64 n"
  shows "parse_int64 (show_int n) = Some n"
proof -
  obtain c cs where c: "show_nat \<bar>n\<bar> = c # cs" "is_digit c"
    using show_nat_Cons [of "\<bar>n\<bar>"] by auto
  then have p: "parse_uint (c # cs) = Some \<bar>n\<bar>"
    using parse_uint_show_nat [of "\<bar>n\<bar>"] by simp
  show ?thesis
    using assms c p is_digit_not_sign [OF c(2)]
    by (cases "n < 0") (auto simp: parse_int64_def show_int_def)
qed

lemma parse_int64_in_i64: "parse_int64 s = Some n \<Longrightarrow> in_i64 n"
  by (auto simp: parse_int64_def Let_def split: option.splits if_splits)

lemma show_nat_inj: "0 \<le> m \<Longrightarrow> 0 \<le> n \<Longrightarrow> show_nat m = show_nat n \<Longrightarrow> m = n"
  by (metis digits_val_show_nat option.inject)

lemma show_int_inj [simp]: "show_int m = show_int n \<longleftrightarrow> m = n"
proof
  assume eq: "show_int m = show_int n"
  obtain c cs where c: "show_nat \<bar>m\<bar> = c # cs" "is_digit c" using show_nat_Cons [of "\<bar>m\<bar>"] by auto
  obtain d ds where d: "show_nat \<bar>n\<bar> = d # ds" "is_digit d" using show_nat_Cons [of "\<bar>n\<bar>"] by auto
  have s: "(m < 0) = (n < 0)"
    using eq c d is_digit_not_sign [OF c(2)] is_digit_not_sign [OF d(2)]
    by (cases "m < 0"; cases "n < 0") (auto simp: show_int_def)
  then have "show_nat \<bar>m\<bar> = show_nat \<bar>n\<bar>"
    using eq by (cases "m < 0") (auto simp: show_int_def)
  then have "\<bar>m\<bar> = \<bar>n\<bar>" by (intro show_nat_inj) auto
  with s show "m = n" by linarith
qed simp

lemma show_int_no_colon: "CHR '':'' \<notin> set (show_int n)"
proof -
  have "\<And>k. 0 \<le> k \<Longrightarrow> CHR '':'' \<notin> set (show_nat k)"
    using show_nat_digits is_digit_not_sign by (auto simp: list_all_iff)
  then show ?thesis by (auto simp: show_int_def)
qed

section \<open>Package \<open>strings\<close>\<close>

fun has_prefix :: "string \<Rightarrow> string \<Rightarrow> bool" where
  "has_prefix s [] = True"
| "has_prefix [] (p # ps) = False"
| "has_prefix (c # cs) (p # ps) = (c = p \<and> has_prefix cs ps)"

definition trim_prefix :: "string \<Rightarrow> string \<Rightarrow> string" where
  "trim_prefix s p = (if has_prefix s p then drop (length p) s else s)"

definition has_suffix :: "string \<Rightarrow> string \<Rightarrow> bool" where
  "has_suffix s p = has_prefix (rev s) (rev p)"

lemma has_prefix_append: "has_prefix s p \<longleftrightarrow> (\<exists>t. s = p @ t)"
  by (induction s p rule: has_prefix.induct) auto

lemma trim_prefix_append [simp]: "trim_prefix (p @ t) p = t"
  by (auto simp: trim_prefix_def has_prefix_append)

section \<open>Lists of rows\<close>

text \<open>
  A query of the form \<open>WHERE ... ORDER BY k ASC\<close> returns the filtered rows sorted by \<open>k\<close>.
  When the rows are already in increasing order of \<open>k\<close>, sorting leaves them as they are.
\<close>

lemma sort_key_sorted [simp]: "sorted (map k xs) \<Longrightarrow> sort_key k xs = xs"
  by (induction xs) (simp_all add: insort_is_Cons)

lemma filter_sort_key: "filter P (sort_key k xs) = sort_key k (filter P xs)"
  by (rule filter_sort)

lemma sorted_map_filter: "sorted (map k xs) \<Longrightarrow> sorted (map k (filter P xs))"
  by (rule sorted_filter)

end
