(* ===== verification/GoTime.thy ===== *)
theory GoTime
  imports Prelude
begin

text \<open>
  Package \<open>time\<close>, as far as the program uses it: instants with their location, comparison,
  truncation to the database's microseconds, and the RFC 3339 text that \<open>time.Parse\<close> reads
  and \<open>Time.MarshalJSON\<close> writes.
\<close>

section \<open>Instants\<close>

text \<open>
  A \<open>time.Time\<close> is an instant (nanoseconds since the Unix epoch, unbounded) and a location.
  The location does not change the instant, but \<open>reflect.DeepEqual\<close> sees it: a time scanned
  from the database is in \<open>time.Local\<close>, a time parsed from a text that ends in \<open>Z\<close> is in
  \<open>time.UTC\<close>, and any other parsed offset is a \<open>FixedZone\<close> of so many seconds. The service
  runs with \<open>Local\<close> at offset 0 (the image of \<open>deploy/Dockerfile\<close> has no zone data).
\<close>

datatype location = UTC | Local | FixedZone int

datatype gotime = GoTime (t_ns: int) (t_loc: location)

text \<open>The zero \<open>time.Time\<close>: 0001-01-01T00:00:00 UTC.\<close>

definition zero_time :: gotime where
  "zero_time = GoTime (- 62135596800 * 1000000000) UTC"

text \<open>\<open>Before\<close>, \<open>After\<close> and their negations compare instants only: a preorder, not an order.\<close>

instantiation gotime :: preorder
begin

definition less_eq_gotime :: "gotime \<Rightarrow> gotime \<Rightarrow> bool" where
  "less_eq_gotime s t \<longleftrightarrow> t_ns s \<le> t_ns t"

definition less_gotime :: "gotime \<Rightarrow> gotime \<Rightarrow> bool" where
  "less_gotime s t \<longleftrightarrow> t_ns s < t_ns t"

instance
  by standard (auto simp: less_eq_gotime_def less_gotime_def)

end

text \<open>The location forgotten: equal results are the same instant.\<close>

definition in_utc :: "gotime \<Rightarrow> gotime" where
  "in_utc t = GoTime (t_ns t) UTC"

lemma in_utc_idem [simp]: "in_utc (in_utc t) = in_utc t"
  by (simp add: in_utc_def)

lemma t_ns_in_utc [simp]: "t_ns (in_utc t) = t_ns t"
  by (simp add: in_utc_def)

definition unix_nano :: "gotime \<Rightarrow> i64" where
  "unix_nano t = wrap64 (t_ns t)"

text \<open>
  A \<open>TIMESTAMPTZ\<close> column holds microseconds; the driver truncates a parameter to microseconds
  and scans a column into the local zone.
\<close>

definition to_micros :: "gotime \<Rightarrow> int" where
  "to_micros t = t_ns t div 1000"

definition from_micros :: "int \<Rightarrow> gotime" where
  "from_micros us = GoTime (us * 1000) Local"

lemma to_from_micros [simp]: "to_micros (from_micros us) = us"
  by (simp add: to_micros_def from_micros_def)

lemma micros_le_iff: "us \<le> to_micros t \<longleftrightarrow> from_micros us \<le> t"
  by (simp add: to_micros_def from_micros_def less_eq_gotime_def) linarith

section \<open>The proleptic Gregorian calendar\<close>

definition leap_year :: "int \<Rightarrow> bool" where
  "leap_year y \<longleftrightarrow> y mod 4 = 0 \<and> (y mod 100 \<noteq> 0 \<or> y mod 400 = 0)"

definition days_in_month :: "int \<Rightarrow> nat \<Rightarrow> int" where
  "days_in_month y m =
     (if m = 2 then (if leap_year y then 29 else 28)
      else if m = 4 \<or> m = 6 \<or> m = 9 \<or> m = 11 then 30 else 31)"

text \<open>Days from 1 January of the year 1 to 1 January of the year \<open>y\<close>.\<close>

definition days_before_year :: "int \<Rightarrow> int" where
  "days_before_year y = 365 * (y - 1) + (y - 1) div 4 - (y - 1) div 100 + (y - 1) div 400"

fun days_before_month :: "int \<Rightarrow> nat \<Rightarrow> int" where
  "days_before_month y 0 = 0"
| "days_before_month y (Suc m) = (if m = 0 then 0 else days_before_month y m + days_in_month y m)"

text \<open>Days since 1970-01-01 of a date.\<close>

definition unix_days :: "int \<Rightarrow> nat \<Rightarrow> int \<Rightarrow> int" where
  "unix_days y m d = days_before_year y + days_before_month y m + (d - 1) - 719162"

lemma days_before_year_step:
  "days_before_year (y + 1) = days_before_year y + (if leap_year y then 366 else 365)"
proof -
  have q: "\<And>k::int. 0 < k \<Longrightarrow> y div k - (y - 1) div k = (if y mod k = 0 then 1 else 0)"
  proof -
    fix k :: int
    assume k: "0 < k"
    show "y div k - (y - 1) div k = (if y mod k = 0 then 1 else 0)"
    proof (cases "y mod k = 0")
      case True
      then obtain z where z: "y = k * z" by (auto simp: mod_eq_0_iff_dvd)
      have "(k * z - 1) div k = z - 1"
        by (rule int_div_pos_eq [where r = "k - 1"]) (use k in \<open>auto simp: algebra_simps\<close>)
      with z k True show ?thesis by simp
    next
      case False
      have "(y - 1) div k = y div k"
      proof (rule int_div_pos_eq [where r = "y mod k - 1"])
        show "y - 1 = k * (y div k) + (y mod k - 1)" by simp
        show "0 \<le> y mod k - 1" using False k pos_mod_sign [of k y] by linarith
        show "y mod k - 1 < k" using k pos_mod_bound [of k y] by linarith
      qed
      with False show ?thesis by simp
    qed
  qed
  have "days_before_year (y + 1) - days_before_year y
      = 365 + (y div 4 - (y - 1) div 4) - (y div 100 - (y - 1) div 100)
        + (y div 400 - (y - 1) div 400)"
    by (simp add: days_before_year_def)
  also have "\<dots> = (if leap_year y then 366 else 365)"
    unfolding leap_year_def q [of 4, simplified] q [of 100, simplified] q [of 400, simplified]
    by (auto; presburger)
  finally show ?thesis by simp
qed

lemma days_before_year_Suc: "days_before_year y < days_before_year (y + 1)"
  by (simp add: days_before_year_step)

text \<open>The year that holds a day, counted up from a lower bound.\<close>

function year_from :: "int \<Rightarrow> int \<Rightarrow> int" where
  "year_from y n = (if days_before_year (y + 1) \<le> n then year_from (y + 1) n else y)"
  by pat_completeness auto
termination
proof (relation "measure (\<lambda>(y, n). nat (n - days_before_year y))")
  fix y n
  assume "days_before_year (y + 1) \<le> n"
  with days_before_year_Suc [of y]
  show "((y + 1, n), (y, n)) \<in> measure (\<lambda>(y, n). nat (n - days_before_year y))"
    by simp
qed simp

declare year_from.simps [simp del]

text \<open>The month that holds the day \<open>r\<close> of the year (from 0), and the day of that month.\<close>

function month_from :: "int \<Rightarrow> nat \<Rightarrow> int \<Rightarrow> nat \<times> int" where
  "month_from y m r =
     (if m < 12 \<and> days_in_month y m \<le> r then month_from y (Suc m) (r - days_in_month y m)
      else (m, r))"
  by pat_completeness auto
termination
  by (relation "measure (\<lambda>(y, m, r). 12 - m)") auto

declare month_from.simps [simp del]

lemma year_from_bounds:
  "days_before_year y \<le> n \<Longrightarrow>
   days_before_year (year_from y n) \<le> n \<and> n < days_before_year (year_from y n + 1) \<and> y \<le> year_from y n"
proof (induction y n rule: year_from.induct)
  case (1 y n)
  then show ?case
    by (cases "days_before_year (y + 1) \<le> n") (auto simp: year_from.simps [of y n])
qed

lemma month_from_sum:
  "1 \<le> m \<Longrightarrow> month_from y m r = (m', r') \<Longrightarrow>
     days_before_month y m + r = days_before_month y m' + r' \<and> m \<le> m' \<and> (m \<le> 12 \<longrightarrow> m' \<le> 12) \<and>
     (0 \<le> r \<longrightarrow> 0 \<le> r')"
proof (induction y m r arbitrary: m' r' rule: month_from.induct)
  case (1 y m r)
  show ?case
  proof (cases "m < 12 \<and> days_in_month y m \<le> r")
    case True
    with "1.prems" have "month_from y (Suc m) (r - days_in_month y m) = (m', r')"
      by (simp add: month_from.simps [of y m r])
    with "1.IH" True "1.prems"(1) show ?thesis
      by auto
  next
    case False
    with "1.prems" show ?thesis
      by (auto simp: month_from.simps [of y m r])
  qed
qed

lemma month_from_day:
  "month_from y m r = (m', r') \<Longrightarrow> m \<le> 12 \<Longrightarrow> r' < days_in_month y m' \<or> m' = 12"
proof (induction y m r arbitrary: m' r' rule: month_from.induct)
  case (1 y m r)
  show ?case
  proof (cases "m < 12 \<and> days_in_month y m \<le> r")
    case True
    with "1.prems" "1.IH" show ?thesis
      by (simp add: month_from.simps [of y m r])
  next
    case False
    with "1.prems" show ?thesis
      by (auto simp: month_from.simps [of y m r])
  qed
qed

lemma days_before_month_12:
  "days_before_month y 12 + 31 = (if leap_year y then 366 else 365)"
  by (simp add: numeral_eq_Suc days_in_month_def)

definition year_start :: "int \<Rightarrow> int" where
  "year_start n = (if n < 0 then n div 365 else n div 366 + 1)"

lemma year_start_le: "days_before_year (year_start n) \<le> n"
proof (cases "n < 0")
  case True
  define k where "k = n div 365 - 1"
  have k: "k < 0" "365 * (k + 1) \<le> n" using True by (auto simp: k_def)
  have "k div 4 \<le> k div 100" by (rule zdiv_mono2_neg) (use k in auto)
  moreover have "k div 400 \<le> 0" using k by (simp add: div_nonpos_pos_le0)
  moreover have "365 * k + a - b + c \<le> n" if "a \<le> b" "c \<le> 0" for a b c :: int
    using k that by simp
  ultimately have "365 * k + k div 4 - k div 100 + k div 400 \<le> n" by blast
  then show ?thesis
    using True by (simp add: year_start_def days_before_year_def k_def)
next
  case False
  define k where "k = n div 366"
  have k: "0 \<le> k" "366 * k \<le> n" using False by (auto simp: k_def)
  have "k div 4 \<le> k" using k zdiv_mono2 [of k 1 4] by simp
  moreover have "k div 400 \<le> k div 100" by (rule zdiv_mono2) (use k in auto)
  ultimately have "365 * k + k div 4 - k div 100 + k div 400 \<le> n" using k by linarith
  then show ?thesis
    using False by (simp add: year_start_def days_before_year_def k_def)
qed

text \<open>\<open>Time.Date\<close>: year, month and day of a number of days since 1970-01-01.\<close>

definition civil :: "int \<Rightarrow> int \<times> nat \<times> int" where
  "civil n =
     (let a = n + 719162; y = year_from (year_start a) a;
          (m, r) = month_from y 1 (a - days_before_year y)
      in (y, m, r + 1))"

lemma civil_inverse:
  assumes "civil n = (y, m, d)"
  shows "unix_days y m d = n" "1 \<le> m" "m \<le> 12" "1 \<le> d" "d \<le> days_in_month y m"
proof -
  let ?a = "n + 719162"
  have y: "y = year_from (year_start ?a) ?a"
    and md: "month_from y 1 (?a - days_before_year y) = (m, d - 1)"
    using assms by (auto simp: civil_def Let_def split: prod.splits)
  have yb: "days_before_year y \<le> ?a" "?a < days_before_year (y + 1)"
    using year_from_bounds [OF year_start_le [of ?a]] y by auto
  have sum: "?a - days_before_year y = days_before_month y m + (d - 1)"
      "1 \<le> m" "m \<le> 12" "0 \<le> d - 1"
    using month_from_sum [OF _ md] yb by auto
  then show "unix_days y m d = n" "1 \<le> m" "m \<le> 12" "1 \<le> d"
    by (auto simp: unix_days_def)
  have "d - 1 < days_in_month y m \<or> m = 12"
    using month_from_day [OF md] by simp
  moreover have "m = 12 \<Longrightarrow> d - 1 < days_in_month y m"
  proof -
    assume m: "m = 12"
    have "?a - days_before_year y < (if leap_year y then 366 else 365)"
      using yb days_before_year_step [of y] by simp
    with sum m days_before_month_12 [of y] show "d - 1 < days_in_month y m"
      by (simp add: days_in_month_def)
  qed
  ultimately show "d \<le> days_in_month y m" by auto
qed

lemma year_of_unix_days_bounds:
  "civil n = (y, m, d) \<Longrightarrow> days_before_year y \<le> n + 719162 \<and> n + 719162 < days_before_year (y + 1)"
  using year_from_bounds [OF year_start_le [of "n + 719162"]]
  by (auto simp: civil_def Let_def split: prod.splits)

section \<open>RFC 3339\<close>

text \<open>\<open>w\<close> digits with leading zeros.\<close>

fun pad :: "nat \<Rightarrow> int \<Rightarrow> string" where
  "pad 0 n = []"
| "pad (Suc w) n = pad w (n div 10) @ [digit_char (n mod 10)]"

text \<open>The fraction of a second: nine digits without the trailing zeros, nothing for 0.\<close>

definition fmt_frac :: "int \<Rightarrow> string" where
  "fmt_frac n = (if n = 0 then []
     else CHR ''.'' # rev (dropWhile (\<lambda>c. c = CHR ''0'') (rev (pad 9 n))))"

definition zone_offset :: "location \<Rightarrow> int" where
  "zone_offset l = (case l of UTC \<Rightarrow> 0 | Local \<Rightarrow> 0 | FixedZone z \<Rightarrow> z)"

definition fmt_zone :: "int \<Rightarrow> string" where
  "fmt_zone z = (if z = 0 then ''Z''
     else (let mins = \<bar>z\<bar> div 60
           in (if z < 0 then CHR ''-'' else CHR ''+'') # pad 2 (mins div 60) @ CHR '':'' # pad 2 (mins mod 60)))"

text \<open>
  \<open>Time.MarshalJSON\<close> without the quotes (\<open>RFC3339Nano\<close>): an error outside the years 0 to 9999
  and for a zone offset of 24 hours or more.
\<close>

definition fmt_rfc3339 :: "gotime \<Rightarrow> string option" where
  "fmt_rfc3339 t =
     (let z = zone_offset (t_loc t); s = t_ns t div 1000000000 + z;
          nanos = t_ns t mod 1000000000; sod = s mod 86400;
          (y, m, d) = civil (s div 86400)
      in if y < 0 \<or> 9999 < y \<or> 24 * 3600 \<le> \<bar>z\<bar> then None
         else Some (pad 4 y @ CHR ''-'' # pad 2 (int m) @ CHR ''-'' # pad 2 d
                @ CHR ''T'' # pad 2 (sod div 3600) @ CHR '':'' # pad 2 (sod div 60 mod 60)
                @ CHR '':'' # pad 2 (sod mod 60) @ fmt_frac nanos @ fmt_zone z))"

text \<open>
  \<open>time.Parse(time.RFC3339, s)\<close>: each piece consumes its text and returns the rest. The hour
  may have one digit, a fraction may follow the seconds after a dot or a comma and is cut at nine
  digits, and the offset is checked against 24 hours and 60 minutes inclusive, as the library does.
\<close>

definition get_year :: "string \<Rightarrow> (int \<times> string) option" where
  "get_year s = (if length s < 4 then None
     else map_option (\<lambda>y. (y, drop 4 s)) (digits_val 0 (take 4 s)))"

definition getnum :: "bool \<Rightarrow> string \<Rightarrow> (int \<times> string) option" where
  "getnum fixed s = (case s of [] \<Rightarrow> None
     | a # r \<Rightarrow> if \<not> is_digit a then None
        else (case r of
                b # r' \<Rightarrow> if is_digit b then Some (10 * digit_val a + digit_val b, r')
                           else if fixed then None else Some (digit_val a, r)
              | [] \<Rightarrow> if fixed then None else Some (digit_val a, r)))"

definition skip :: "char \<Rightarrow> string \<Rightarrow> string option" where
  "skip c s = (case s of [] \<Rightarrow> None | d # r \<Rightarrow> if d = c then Some r else None)"

definition get_frac :: "string \<Rightarrow> int \<times> string" where
  "get_frac s = (case s of
       p # c # r \<Rightarrow>
         if (p = CHR ''.'' \<or> p = CHR '','') \<and> is_digit c then
           (let ds = take 9 (takeWhile is_digit (c # r))
            in (the (digits_val 0 ds) * 10 ^ (9 - length ds), dropWhile is_digit (c # r)))
         else (0, s)
     | _ \<Rightarrow> (0, s))"

definition get_zone :: "string \<Rightarrow> (location \<times> string) option" where
  "get_zone s = (case s of
       [] \<Rightarrow> None
     | c # r \<Rightarrow>
         if c = CHR ''Z'' then Some (UTC, r)
         else if length s < 6 \<or> s ! 3 \<noteq> CHR '':'' then None
         else do {
           (hr, _) \<leftarrow> getnum True (take 2 (drop 1 s));
           (mm, _) \<leftarrow> getnum True (take 2 (drop 4 s));
           if 24 < hr \<or> 60 < mm \<or> c \<noteq> CHR ''+'' \<and> c \<noteq> CHR ''-'' then None
           else (let z = (hr * 60 + mm) * 60; z = (if c = CHR ''-'' then - z else z)
                 in Some (if z = 0 then Local else FixedZone z, drop 6 s))
         })"

definition parse_rfc3339 :: "string \<Rightarrow> gotime option" where
  "parse_rfc3339 s = do {
     (y, s) \<leftarrow> get_year s; s \<leftarrow> skip CHR ''-'' s;
     (m, s) \<leftarrow> getnum True s; s \<leftarrow> (if m < 1 \<or> 12 < m then None else skip CHR ''-'' s);
     (d, s) \<leftarrow> getnum True s; s \<leftarrow> skip CHR ''T'' s;
     (hh, s) \<leftarrow> getnum False s; s \<leftarrow> (if 24 \<le> hh then None else skip CHR '':'' s);
     (mi, s) \<leftarrow> getnum True s; s \<leftarrow> (if 60 \<le> mi then None else skip CHR '':'' s);
     (ss, s) \<leftarrow> (case getnum True s of None \<Rightarrow> None
                 | Some (ss, s) \<Rightarrow> if 60 \<le> ss then None else Some (ss, s));
     let (nanos, s) = get_frac s;
     (l, s) \<leftarrow> get_zone s;
     if s \<noteq> [] \<or> d < 1 \<or> days_in_month y (nat m) < d then None
     else Some (GoTime
       ((unix_days y (nat m) d * 86400 + hh * 3600 + mi * 60 + ss
         - zone_offset l) * 1000000000 + nanos) l)
   }"

section \<open>Reading back what was written\<close>

lemma pad_length [simp]: "length (pad w n) = w"
  by (induction w arbitrary: n) auto

lemma pad_digits: "list_all is_digit (pad w n)"
  by (induction w arbitrary: n) auto

lemma digits_val_pad: "0 \<le> n \<Longrightarrow> digits_val acc (pad w n) = Some (acc * 10 ^ w + n mod 10 ^ w)"
proof (induction w arbitrary: n)
  case (Suc w)
  have "n mod (10 * 10 ^ w) = 10 * (n div 10 mod 10 ^ w) + n mod 10"
    using Suc.prems by (simp add: zmod_zmult2_eq)
  with Suc show ?case
    by (simp add: digits_val_append algebra_simps)
qed simp

lemma pad2: "pad 2 n = [digit_char (n div 10 mod 10), digit_char (n mod 10)]"
  by (simp add: numeral_2_eq_2)

lemma getnum_pad2 [codec_simps]:
  "0 \<le> n \<Longrightarrow> n < 100 \<Longrightarrow> getnum fixed (pad 2 n @ s) = Some (n, s)"
  by (simp add: getnum_def pad2 digit_val_digit_char)

lemma skip_Cons [codec_simps]: "skip c (c # s) = Some s"
  by (simp add: skip_def)

lemma get_year_pad4 [codec_simps]:
  "0 \<le> y \<Longrightarrow> y \<le> 9999 \<Longrightarrow> get_year (pad 4 y @ s) = Some (y, s)"
  by (simp add: get_year_def digits_val_pad)

text \<open>
  A digit string without its trailing zeros, scaled back to its old width, has the old value.
\<close>

lemma digits_val_drop_zeros:
  assumes "digits_val 0 ds = Some n"
  shows "\<exists>k. digits_val 0 (rev (dropWhile (\<lambda>c. c = CHR ''0'') (rev ds))) = Some k \<and>
           k * 10 ^ (length ds - length (dropWhile (\<lambda>c. c = CHR ''0'') (rev ds))) = n"
  using assms
proof (induction ds arbitrary: n rule: rev_induct)
  case (snoc d ds)
  show ?case
  proof (cases "d = CHR ''0''")
    case True
    then have v: "is_digit d" "digit_val d = 0"
      by (simp_all add: is_digit_def digit_val_def byte_val_def)
    with snoc.prems obtain m where m: "digits_val 0 ds = Some m" "n = 10 * m"
      by (auto simp: digits_val_append split: Option.bind_splits)
    have "length (dropWhile (\<lambda>c. c = CHR ''0'') (rev ds)) \<le> length ds"
      using length_dropWhile_le [of "\<lambda>c. c = CHR ''0''" "rev ds"] by simp
    with snoc.IH [OF m(1)] m(2) True show ?thesis
      by (auto simp: Suc_diff_le)
  next
    case False
    with snoc.prems show ?thesis by simp
  qed
qed simp

lemma span_append:
  "list_all P xs \<Longrightarrow> \<not> P c \<Longrightarrow> takeWhile P (xs @ c # ys) = xs \<and> dropWhile P (xs @ c # ys) = c # ys"
  by (induction xs) auto

lemma digits_val_pad9: "0 \<le> n \<Longrightarrow> n < 1000000000 \<Longrightarrow> digits_val 0 (pad 9 n) = Some n"
  by (subst digits_val_pad) auto

lemma frac_digits_nonempty:
  assumes "0 < n" "n < 1000000000"
  shows "dropWhile (\<lambda>c. c = CHR ''0'') (rev (pad 9 n)) \<noteq> []" (is "?z \<noteq> []")
proof
  assume e: "?z = []"
  have "digits_val 0 (pad 9 n) = Some n"
    using assms by (intro digits_val_pad9) auto
  then obtain k where "digits_val 0 (rev ?z) = Some k" "k * 10 ^ (length (pad 9 n) - length ?z) = n"
    using digits_val_drop_zeros by blast
  with e assms show False
    by (simp only: e rev.simps digits_val.simps) simp
qed

lemma get_frac_fmt_frac [codec_simps]:
  assumes n: "0 \<le> n" "n < 1000000000" and s: "s = c # r" "\<not> is_digit c" "c \<noteq> CHR ''.''" "c \<noteq> CHR '',''"
  shows "get_frac (fmt_frac n @ s) = (n, s)"
proof (cases "n = 0")
  case True
  with s show ?thesis
    by (simp add: fmt_frac_def get_frac_def split: list.splits)
next
  case False
  define z where "z = dropWhile (\<lambda>c. c = CHR ''0'') (rev (pad 9 n))"
  have z: "z \<noteq> []" using frac_digits_nonempty [of n] n False by (simp add: z_def)
  have len: "length z \<le> 9"
    using length_dropWhile_le [of "\<lambda>c. c = CHR ''0''" "rev (pad 9 n)"] by (simp add: z_def)
  have dig: "\<And>x. x \<in> set (rev z) \<Longrightarrow> is_digit x"
    using pad_digits [of 9 n] by (auto simp: z_def list_all_iff dest: set_dropWhileD)
  have "digits_val 0 (pad 9 n) = Some n"
    using n by (rule digits_val_pad9)
  then obtain k where k: "digits_val 0 (rev z) = Some k" "k * 10 ^ (9 - length z) = n"
    using digits_val_drop_zeros [of "pad 9 n" n] by (auto simp: z_def)
  obtain a b where ab: "rev z = a # b" using z by (cases "rev z") auto
  have tk: "takeWhile is_digit (rev z @ s) = rev z" "dropWhile is_digit (rev z @ s) = s"
    using dig s span_append [of is_digit "rev z" c r] by (auto simp: list_all_iff)
  have "is_digit a" using dig ab by simp
  moreover have "fmt_frac n = CHR ''.'' # a # b"
    using False ab by (simp add: fmt_frac_def z_def)
  ultimately show ?thesis
    using tk k len ab by (simp add: get_frac_def Let_def)
qed

lemma get_zone_Z [codec_simps]: "get_zone ''Z'' = Some (UTC, [])"
  by (simp add: get_zone_def)

lemma parse_rfc3339_text:
  assumes "0 \<le> y" "y \<le> 9999" "1 \<le> m" "m \<le> 12" "1 \<le> d" "d \<le> 31" "d \<le> days_in_month y m"
    and "0 \<le> hh" "hh < 24" "0 \<le> mi" "mi < 60" "0 \<le> ss" "ss < 60"
    and "get_frac f = (nanos, ''Z'')"
  shows "parse_rfc3339 (pad 4 y @ CHR ''-'' # pad 2 (int m) @ CHR ''-'' # pad 2 d
      @ CHR ''T'' # pad 2 hh @ CHR '':'' # pad 2 mi @ CHR '':'' # pad 2 ss @ f)
    = Some (GoTime ((unix_days y m d * 86400 + hh * 3600 + mi * 60 + ss) * 1000000000 + nanos) UTC)"
proof -
  have g: "get_year (pad 4 y @ s) = Some (y, s)" "getnum True (pad 2 (int m) @ s) = Some (int m, s)"
      "getnum True (pad 2 d @ s) = Some (d, s)" "getnum False (pad 2 hh @ s) = Some (hh, s)"
      "getnum True (pad 2 mi @ s) = Some (mi, s)" "getnum True (pad 2 ss @ s) = Some (ss, s)" for s
    using assms(1-13) by (auto intro: get_year_pad4 getnum_pad2)
  have r: "(int m < 1 \<or> 12 < int m) = False" "(24 \<le> hh) = False" "(60 \<le> mi) = False"
      "(60 \<le> ss) = False" "(([]::string) \<noteq> [] \<or> d < 1 \<or> days_in_month y m < d) = False"
    using assms by auto
  show ?thesis
    unfolding parse_rfc3339_def
    by (simp only: g r assms(14) bind.simps prod.case option.case skip_Cons if_False Let_def get_zone_Z
        nat_int zone_offset_def location.case diff_zero)
qed

text \<open>
  What \<open>MarshalJSON\<close> wrote for a time in a zone at offset 0, \<open>time.Parse\<close> reads back: the same
  instant, now in UTC.
\<close>

lemma unix_days_secs:
  "civil (s div 86400) = (y, m, d) \<Longrightarrow> sod = s mod 86400 \<Longrightarrow>
   unix_days y m d * 86400 + sod div 3600 * 3600 + sod div 60 mod 60 * 60 + sod mod 60 = s"
proof -
  assume c: "civil (s div 86400) = (y, m, d)" and sod: "sod = s mod 86400"
  have "sod div 60 div 60 = sod div 3600" using zdiv_zmult2_eq [of 60 sod 60] by simp
  then have "sod = sod div 3600 * 3600 + sod div 60 mod 60 * 60 + sod mod 60"
    using div_mult_mod_eq [of "sod div 60" 60] div_mult_mod_eq [of sod 60] by linarith
  moreover have "s = s div 86400 * 86400 + sod" using sod by simp
  ultimately show ?thesis
    using civil_inverse(1) [OF c] by linarith
qed

lemma parse_fmt_rfc3339 [codec_simps]:
  assumes f: "fmt_rfc3339 t = Some s" and z: "zone_offset (t_loc t) = 0"
  shows "parse_rfc3339 s = Some (in_utc t)"
proof -
  define sec nanos sod where "sec = t_ns t div 1000000000" and "nanos = t_ns t mod 1000000000"
    and "sod = (t_ns t div 1000000000) mod 86400"
  obtain y m d where c: "civil (sec div 86400) = (y, m, d)" by (metis prod_cases3)
  note ymd = civil_inverse [OF c]
  have y: "0 \<le> y" "y \<le> 9999" and s: "s = pad 4 y @ CHR ''-'' # pad 2 (int m) @ CHR ''-'' # pad 2 d
      @ CHR ''T'' # pad 2 (sod div 3600) @ CHR '':'' # pad 2 (sod div 60 mod 60)
      @ CHR '':'' # pad 2 (sod mod 60) @ fmt_frac nanos @ ''Z''"
    using f z c by (auto simp: fmt_rfc3339_def Let_def sec_def nanos_def sod_def fmt_zone_def
        split: if_splits)
  have b: "0 \<le> sod div 3600" "sod div 3600 < 24" "0 \<le> sod div 60 mod 60" "sod div 60 mod 60 < 60"
      "0 \<le> sod mod 60" "sod mod 60 < 60" "0 \<le> nanos" "nanos < 1000000000"
    by (auto simp: sod_def nanos_def)
  have d: "d \<le> 31" using ymd(5) by (auto simp: days_in_month_def split: if_splits)
  have fr: "get_frac (fmt_frac nanos @ ''Z'') = (nanos, ''Z'')"
    by (rule get_frac_fmt_frac [OF b(7,8)]) (auto simp: is_digit_def byte_val_def)
  have "parse_rfc3339 s = Some (GoTime ((unix_days y m d * 86400 + sod div 3600 * 3600
      + sod div 60 mod 60 * 60 + sod mod 60) * 1000000000 + nanos) UTC)"
    unfolding s by (rule parse_rfc3339_text [OF y ymd(2,3,4) d ymd(5) b(1-6) fr])
  also have "unix_days y m d * 86400 + sod div 3600 * 3600 + sod div 60 mod 60 * 60 + sod mod 60 = sec"
    by (rule unix_days_secs [OF c]) (simp add: sod_def sec_def)
  also have "sec * 1000000000 + nanos = t_ns t"
    by (simp add: sec_def nanos_def)
  finally show ?thesis by (simp add: in_utc_def)
qed

lemma fmt_rfc3339_in_utc: "zone_offset (t_loc t) = 0 \<Longrightarrow> fmt_rfc3339 (in_utc t) = fmt_rfc3339 t"
  by (simp add: fmt_rfc3339_def in_utc_def zone_offset_def)

lemma zone_offset_simps [simp]:
  "zone_offset UTC = 0" "zone_offset Local = 0" "zone_offset (FixedZone z) = z"
  by (simp_all add: zone_offset_def)

lemma zone_offset_known [simp]:
  "zone_offset (t_loc (from_micros us)) = 0" "zone_offset (t_loc zero_time) = 0"
  "zone_offset (t_loc (in_utc t)) = 0"
  by (simp_all add: from_micros_def zero_time_def in_utc_def)

end
