(* ===== verification/GoJson.thy ===== *)
theory GoJson
  imports GoTime
begin

text \<open>
  Package \<open>encoding/json\<close>, as far as the program uses it: documents as values, and the decoding
  of a document into a struct. A \<open>json.RawMessage\<close> and a \<open>JSONB\<close> column are modelled by the
  document they hold: every document the service stores is marshalled from a Go struct, whose
  keys are distinct, and \<open>JSONB\<close> changes the order of such keys and the spaces, nothing else.
\<close>

section \<open>Documents\<close>

text \<open>
  A number is an integer literal, or any other literal (a fraction or an exponent), kept as
  text: only an integer literal decodes into a Go integer.
\<close>

datatype json =
    JNull
  | JBool bool
  | JInt int
  | JFrac string
  | JStr string
  | JArr "json list"
  | JObj "(string \<times> json) list"

text \<open>\<open>json.Marshal\<close> of a field tagged \<open>omitempty\<close>: nothing for an empty value.\<close>

definition omit_if :: "bool \<Rightarrow> string \<Rightarrow> json \<Rightarrow> (string \<times> json) list" where
  "omit_if c k v = (if c then [] else [(k, v)])"

text \<open>A pointer tagged \<open>omitempty\<close> is left out when it is nil.\<close>

definition omit_nil :: "string \<Rightarrow> ('a \<Rightarrow> json) \<Rightarrow> 'a option \<Rightarrow> (string \<times> json) list" where
  "omit_nil k f p = (case p of None \<Rightarrow> [] | Some x \<Rightarrow> [(k, f x)])"

section \<open>Decoding\<close>

text \<open>
  A decoder takes a document and the Go value it writes into, and returns the new value with a
  status: no error, an error that is remembered while decoding goes on (a value of the wrong
  type, which leaves the target alone), or an error that stops the decoding (from a custom
  \<open>UnmarshalJSON\<close>, here that of \<open>time.Time\<close>).
\<close>

datatype dec_status = DecOk | DecSaved | DecAbort

type_synonym 'a fdec = "json \<Rightarrow> 'a \<Rightarrow> 'a \<times> dec_status"

definition dec_string :: "string fdec" where
  "dec_string v x = (case v of JStr s \<Rightarrow> (s, DecOk) | JNull \<Rightarrow> (x, DecOk) | _ \<Rightarrow> (x, DecSaved))"

definition dec_bool :: "bool fdec" where
  "dec_bool v x = (case v of JBool b \<Rightarrow> (b, DecOk) | JNull \<Rightarrow> (x, DecOk) | _ \<Rightarrow> (x, DecSaved))"

definition dec_int64 :: "i64 fdec" where
  "dec_int64 v x = (case v of
       JInt n \<Rightarrow> if in_i64 n then (n, DecOk) else (x, DecSaved)
     | JNull \<Rightarrow> (x, DecOk)
     | _ \<Rightarrow> (x, DecSaved))"

definition dec_time :: "gotime fdec" where
  "dec_time v x = (case v of
       JStr s \<Rightarrow> (case parse_rfc3339 s of Some t \<Rightarrow> (t, DecOk) | None \<Rightarrow> (zero_time, DecAbort))
     | JNull \<Rightarrow> (x, DecOk)
     | _ \<Rightarrow> (x, DecAbort))"

text \<open>
  A pointer: \<open>null\<close> makes it nil; anything else is decoded into what it points to, allocated
  first when it is nil, so that it is no longer nil even when the value has the wrong type.
\<close>

definition dec_ptr :: "'a \<Rightarrow> 'a fdec \<Rightarrow> 'a option fdec" where
  "dec_ptr zero d v x = (if v = JNull then (None, DecOk)
     else (let (y, st) = d v (case x of Some y \<Rightarrow> y | None \<Rightarrow> zero) in (Some y, st)))"

text \<open>A slice: nil is \<open>None\<close>; an element that is already there is decoded into.\<close>

fun dec_elems :: "'a fdec \<Rightarrow> 'a \<Rightarrow> json list \<Rightarrow> 'a list \<Rightarrow> dec_status \<Rightarrow> 'a list \<times> dec_status" where
  "dec_elems d zero [] cur st = ([], st)"
| "dec_elems d zero (v # vs) cur st =
     (let (y, s) = d v (case cur of c # _ \<Rightarrow> c | [] \<Rightarrow> zero)
      in if s = DecAbort then ([y], DecAbort)
         else (let (ys, st') = dec_elems d zero vs (case cur of _ # cs \<Rightarrow> cs | [] \<Rightarrow> [])
                                 (if s = DecSaved then DecSaved else st)
               in (y # ys, st')))"

definition dec_slice :: "'a \<Rightarrow> 'a fdec \<Rightarrow> 'a list option fdec" where
  "dec_slice zero d v x = (case v of
       JArr vs \<Rightarrow> (let (ys, st) = dec_elems d zero vs (case x of Some c \<Rightarrow> c | None \<Rightarrow> []) DecOk
                   in (Some ys, st))
     | JNull \<Rightarrow> (None, DecOk)
     | _ \<Rightarrow> (x, DecSaved))"

text \<open>
  A struct's fields are found by exact name, then by folded name: letters without their case,
  the long s and the Kelvin sign as \<open>S\<close> and \<open>K\<close>. Tags of the program are ASCII, so other bytes
  beyond ASCII fold to nothing a tag contains.
\<close>

definition upper_byte :: "char \<Rightarrow> char" where
  "upper_byte c = (if 97 \<le> byte_val c \<and> byte_val c \<le> 122 then char_of (byte_val c - 32) else c)"

fun fold_key :: "string \<Rightarrow> string" where
  "fold_key [] = []"
| "fold_key (c # cs) =
     (if byte_val c = 197 \<and> take 1 (map byte_val cs) = [191] then CHR ''S'' # fold_key (drop 1 cs)
      else if byte_val c = 226 \<and> take 2 (map byte_val cs) = [132, 170] then CHR ''K'' # fold_key (drop 2 cs)
      else upper_byte c # fold_key cs)"

definition find_field :: "(string \<times> 'a fdec) list \<Rightarrow> string \<Rightarrow> 'a fdec option" where
  "find_field fs k = (case map_of fs k of
       Some d \<Rightarrow> Some d
     | None \<Rightarrow> map_of (map (\<lambda>(n, d). (fold_key n, d)) fs) (fold_key k))"

definition dec_field :: "('r \<Rightarrow> 'a) \<Rightarrow> (('a \<Rightarrow> 'a) \<Rightarrow> 'r \<Rightarrow> 'r) \<Rightarrow> 'a fdec \<Rightarrow> 'r fdec" where
  "dec_field get upd d v r = (let (y, st) = d v (get r) in (upd (\<lambda>_. y) r, st))"

fun dec_entries :: "(string \<times> 'r fdec) list \<Rightarrow> (string \<times> json) list \<Rightarrow> dec_status \<Rightarrow> 'r \<Rightarrow> 'r \<times> dec_status" where
  "dec_entries fs [] st r = (r, st)"
| "dec_entries fs ((k, v) # es) st r =
     (case find_field fs k of
        None \<Rightarrow> dec_entries fs es st r
      | Some d \<Rightarrow> (let (r', s) = d v r
                   in if s = DecAbort then (r', DecAbort)
                      else dec_entries fs es (if s = DecSaved then DecSaved else st) r'))"

definition dec_struct :: "(string \<times> 'r fdec) list \<Rightarrow> 'r fdec" where
  "dec_struct fs v r = (case v of
       JObj es \<Rightarrow> dec_entries fs es DecOk r
     | JNull \<Rightarrow> (r, DecOk)
     | _ \<Rightarrow> (r, DecSaved))"

text \<open>\<open>json.Unmarshal\<close>: the value when no error was met.\<close>

definition unmarshal :: "'r fdec \<Rightarrow> json \<Rightarrow> 'r \<Rightarrow> 'r option" where
  "unmarshal d v r = (case d v r of (r', st) \<Rightarrow> if st = DecOk then Some r' else None)"

text \<open>\<open>if p != nil { x = *p }\<close>, for a field that was decoded through a pointer.\<close>

definition or_keep :: "'a option \<Rightarrow> 'a \<Rightarrow> 'a" where
  "or_keep p x = (case p of Some y \<Rightarrow> y | None \<Rightarrow> x)"

section \<open>Facts the round trips share\<close>

lemma dec_struct_JObj: "dec_struct fs (JObj es) r = dec_entries fs es DecOk r"
  by (simp add: dec_struct_def)

lemmas decode_simps = unmarshal_def dec_struct_JObj find_field_def dec_field_def

lemma or_keep_simps [simp]: "or_keep None x = x" "or_keep (Some y) x = y"
  by (simp_all add: or_keep_def)

text \<open>
  A document whose keys are field names exactly: the fields are decoded one after the other.
\<close>

lemma dec_entries_exact [codec_simps]:
  "map_of fs k = Some d \<Longrightarrow> d v r = (r', DecOk) \<Longrightarrow> dec_entries fs ((k, v) # es) st r = dec_entries fs es st r'"
  by (simp add: find_field_def)

lemma omit_if_True [simp]: "omit_if True k v = []"
  by (simp add: omit_if_def)

lemma omit_if_False [simp]: "omit_if False k v = [(k, v)]"
  by (simp add: omit_if_def)

lemma omit_nil_simps [simp]: "omit_nil k f None = []" "omit_nil k f (Some x) = [(k, f x)]"
  by (simp_all add: omit_nil_def)

lemma dec_string_JStr [simp]: "dec_string (JStr s) x = (s, DecOk)"
  by (simp add: dec_string_def)

lemma dec_bool_JBool [simp]: "dec_bool (JBool b) x = (b, DecOk)"
  by (simp add: dec_bool_def)

lemma dec_int64_JInt [simp]: "in_i64 n \<Longrightarrow> dec_int64 (JInt n) x = (n, DecOk)"
  by (simp add: dec_int64_def)

lemma dec_time_JStr [simp]:
  "fmt_rfc3339 t = Some s \<Longrightarrow> zone_offset (t_loc t) = 0 \<Longrightarrow> dec_time (JStr s) x = (in_utc t, DecOk)"
  by (simp add: dec_time_def codec_simps)

lemma dec_ptr_Some [simp]: "v \<noteq> JNull \<Longrightarrow> d v zero = (y, st) \<Longrightarrow> dec_ptr zero d v None = (Some y, st)"
  by (simp add: dec_ptr_def)

lemma dec_elems_map:
  assumes "\<And>x. x \<in> set xs \<Longrightarrow> d (enc x) zero = (x, DecOk)"
  shows "dec_elems d zero (map enc xs) [] st = (xs, st)"
  using assms by (induction xs) auto

text \<open>A property that every field's decoder keeps is kept by decoding the struct.\<close>

lemma find_field_in: "find_field fs k = Some d \<Longrightarrow> \<exists>n. (n, d) \<in> set fs"
  by (force simp: find_field_def split: option.splits dest: map_of_SomeD)

definition keeps :: "('r \<Rightarrow> bool) \<Rightarrow> 'r fdec \<Rightarrow> bool" where
  "keeps P d \<longleftrightarrow> (\<forall>v r. P r \<longrightarrow> P (fst (d v r)))"

lemma dec_entries_keeps:
  assumes "list_all (\<lambda>(n, d). keeps P d) fs" "P r"
  shows "P (fst (dec_entries fs es st r))"
  using assms(2)
proof (induction es arbitrary: st r)
  case (Cons kv es)
  obtain k v where kv: "kv = (k, v)" by force
  show ?case
  proof (cases "find_field fs k")
    case (Some d)
    then have "keeps P d" using assms(1) find_field_in by (fastforce simp: list_all_iff)
    then have "P (fst (d v r))" using Cons.prems by (simp add: keeps_def)
    with Cons.IH Some kv show ?thesis by (auto split: prod.splits)
  qed (use Cons kv in simp)
qed simp

lemma keeps_dec_struct: "list_all (\<lambda>(n, d). keeps P d) fs \<Longrightarrow> keeps P (dec_struct fs)"
  unfolding keeps_def [of P "dec_struct fs"]
  by (auto simp: dec_struct_def dec_entries_keeps split: json.splits)

lemma unmarshal_keeps: "keeps P d \<Longrightarrow> unmarshal d v r = Some r' \<Longrightarrow> P r \<Longrightarrow> P r'"
  by (auto simp: unmarshal_def keeps_def split: prod.splits if_splits) (metis fst_conv)

lemma keeps_in_i64: "keeps in_i64 dec_int64"
  by (auto simp: keeps_def dec_int64_def split: json.splits)

lemma keeps_ptr: "keeps P d \<Longrightarrow> P zero \<Longrightarrow> keeps (pred_option P) (dec_ptr zero d)"
  unfolding keeps_def dec_ptr_def by (auto simp: split_beta split: option.splits)

lemma keeps_elems:
  assumes d: "keeps P d" "P zero"
  shows "list_all P cur \<Longrightarrow> list_all P (fst (dec_elems d zero vs cur st))"
proof (induction vs arbitrary: cur st)
  case (Cons v vs)
  have "P (fst (d v (case cur of c # _ \<Rightarrow> c | [] \<Rightarrow> zero)))"
    using d Cons.prems by (auto simp: keeps_def split: list.splits)
  moreover have "list_all P (fst (dec_elems d zero vs (case cur of _ # cs \<Rightarrow> cs | [] \<Rightarrow> []) st'))" for st'
    using Cons by (cases cur) auto
  ultimately show ?case by (auto simp: split_beta Let_def)
qed simp

lemma keeps_slice: "keeps P d \<Longrightarrow> P zero \<Longrightarrow> keeps (pred_option (list_all P)) (dec_slice zero d)"
  unfolding keeps_def [of "pred_option (list_all P)"] dec_slice_def
  by (auto simp: split_beta keeps_elems split: json.splits option.splits)

end
