(* ===== verification/Domain.thy ===== *)
theory Domain
  imports GoJson
begin

text \<open>
  Package \<open>internal/domain\<close>: events, snapshots, replay queries, timeline entries, the result of a
  diff and the errors, with the JSON form of event metadata. The constants of
  \<open>internal/domain/aggregates.go\<close> are abbreviations.
\<close>

abbreviation AggregateUser :: string where "AggregateUser \<equiv> ''user''"
abbreviation AggregateProduct :: string where "AggregateProduct \<equiv> ''product''"
abbreviation AggregateOrder :: string where "AggregateOrder \<equiv> ''order''"

section \<open>Events and snapshots\<close>

record event_metadata =
  md_Actor :: string
  md_CorrelationID :: string
  md_TraceID :: string
  md_IdempotencyKey :: string

record stored_event =
  se_ID :: i64
  se_AggregateType :: string
  se_AggregateID :: string
  se_EventType :: string
  se_Version :: i64
  se_Payload :: json
  se_Metadata :: event_metadata
  se_CreatedAt :: gotime

record snapshot =
  sn_ID :: i64
  sn_AggregateType :: string
  sn_AggregateID :: string
  sn_Version :: i64
  sn_State :: json
  sn_CreatedAt :: gotime

text \<open>\<open>Payload\<close> is the document \<open>json.Marshal\<close> makes of the Go payload.\<close>

record append_event =
  ae_AggregateType :: string
  ae_AggregateID :: string
  ae_EventType :: string
  ae_Version :: i64
  ae_Payload :: json
  ae_Metadata :: event_metadata

definition empty_metadata :: event_metadata where
  "empty_metadata = \<lparr>md_Actor = [], md_CorrelationID = [], md_TraceID = [], md_IdempotencyKey = []\<rparr>"

definition metadata_json :: "event_metadata \<Rightarrow> json" where
  "metadata_json m = JObj
     (omit_if (md_Actor m = []) ''actor'' (JStr (md_Actor m))
      @ omit_if (md_CorrelationID m = []) ''correlation_id'' (JStr (md_CorrelationID m))
      @ omit_if (md_TraceID m = []) ''trace_id'' (JStr (md_TraceID m))
      @ omit_if (md_IdempotencyKey m = []) ''idempotency_key'' (JStr (md_IdempotencyKey m)) @ [])"

definition metadata_fields :: "(string \<times> event_metadata fdec) list" where
  "metadata_fields =
     [(''actor'', dec_field md_Actor md_Actor_update dec_string),
      (''correlation_id'', dec_field md_CorrelationID md_CorrelationID_update dec_string),
      (''trace_id'', dec_field md_TraceID md_TraceID_update dec_string),
      (''idempotency_key'', dec_field md_IdempotencyKey md_IdempotencyKey_update dec_string)]"

section \<open>Queries, timeline and diff\<close>

record replay_query =
  rq_At :: "gotime option"
  rq_Version :: "i64 option"
  rq_UntilID :: "i64 option"

definition empty_query :: replay_query where
  "empty_query = \<lparr>rq_At = None, rq_Version = None, rq_UntilID = None\<rparr>"

definition at_version :: "i64 \<Rightarrow> replay_query" where
  "at_version v = empty_query\<lparr>rq_Version := Some v\<rparr>"

definition at_time :: "gotime \<Rightarrow> replay_query" where
  "at_time t = empty_query\<lparr>rq_At := Some t\<rparr>"

definition IsTemporal :: "replay_query \<Rightarrow> bool" where
  "IsTemporal q \<longleftrightarrow> rq_At q \<noteq> None \<or> rq_Version q \<noteq> None \<or> rq_UntilID q \<noteq> None"

record timeline_entry =
  te_Version :: i64
  te_EventType :: string
  te_EventID :: i64
  te_Timestamp :: gotime
  te_Actor :: string
  te_Summary :: string

text \<open>
  The values an aggregate's \<open>ToMap\<close> puts into a \<open>map[string]any\<close>. \<open>reflect.DeepEqual\<close> on them
  is equality: same dynamic type, same value, times with the same location, and a nil slice
  (\<open>AItems None\<close>) different from an empty one.
\<close>

datatype anyval =
    AStr string
  | AInt i64
  | ABool bool
  | ATime gotime
  | AItems "(string \<times> i64 \<times> i64) list option"

text \<open>A nil \<open>any\<close> is \<open>None\<close>.\<close>

record field_change =
  fc_From :: "anyval option"
  fc_To :: "anyval option"

record diff_result =
  dr_Changed :: "string list"
  dr_From :: "string \<rightharpoonup> anyval"
  dr_To :: "string \<rightharpoonup> anyval"
  dr_Fields :: "string \<rightharpoonup> field_change"

section \<open>Errors\<close>

text \<open>
  The calls to PostgreSQL that can fail for reasons the program does not control (connection,
  serialisation, storage). A \<open>faults\<close> argument says which calls fail in one execution; the
  program's reaction to each is modelled.
\<close>

datatype db_call =
    CallBegin | CallLatestVersion | CallInsertEvent | CallInsertOutbox | CallProject | CallCommit
  | CallGetCurrent | CallLoadEvents | CallTimeline | CallSearch
  | CallLatestSnapshot | CallSaveSnapshot | CallIdempotencyGet | CallIdempotencyStore
  | CallOutboxQuery | CallOutboxMark | CallSnapshotQuery

type_synonym faults = "db_call \<Rightarrow> bool"

abbreviation no_faults :: faults where
  "no_faults \<equiv> (\<lambda>_. False)"

text \<open>
  \<open>fmt.Errorf\<close> with \<open>%w\<close> keeps the wrapped error visible to \<open>errors.Is\<close>, so a wrapped error is
  the error itself; what has no sentinel is a JSON error or the failing database call.
\<close>

datatype error = ErrConflict | ErrNotFound | ErrVersionMismatch | ErrJson | ErrDb db_call

type_synonym 'a result = "error + 'a"

section \<open>Metadata survives the database\<close>

lemma metadata_roundtrip [codec_simps]:
  "unmarshal (dec_struct metadata_fields) (metadata_json m) empty_metadata = Some m"
  by (cases "md_Actor m = []"; cases "md_CorrelationID m = []"; cases "md_TraceID m = []";
      cases "md_IdempotencyKey m = []")
    (simp_all add: decode_simps metadata_json_def metadata_fields_def empty_metadata_def)

end
