(* ===== verification/Database.thy ===== *)
theory Database
  imports Domain
begin

text \<open>
  The PostgreSQL tables of \<open>migrations/001_init.sql\<close> and \<open>migrations/002_products_orders.sql\<close>.
  The statements the program runs on them are modelled in the theories of the Go files that hold
  them. Timestamps are microseconds since the Unix epoch, \<open>NOW()\<close> is the start of the
  transaction, and the identity columns draw from sequences, which a rollback does not rewind.
\<close>

section \<open>Rows\<close>

record event_row =
  ev_id :: i64
  ev_aggregate_type :: string
  ev_aggregate_id :: string
  ev_event_type :: string
  ev_version :: i64
  ev_payload :: json
  ev_metadata :: json
  ev_created_at :: int

record snapshot_row =
  ss_id :: i64
  ss_aggregate_type :: string
  ss_aggregate_id :: string
  ss_version :: i64
  ss_state :: json
  ss_created_at :: int

record user_row =
  ur_name :: string
  ur_email :: string
  ur_version :: i64
  ur_deleted :: bool
  ur_created_at :: int
  ur_updated_at :: int

record product_row =
  pr_name :: string
  pr_description :: string
  pr_price_cents :: i64
  pr_currency :: string
  pr_version :: i64
  pr_deleted :: bool
  pr_created_at :: int
  pr_updated_at :: int

record order_row =
  or_user_id :: string
  or_status :: string
  or_total_cents :: i64
  or_currency :: string
  or_items :: json
  or_version :: i64
  or_cancelled :: bool
  or_created_at :: int
  or_updated_at :: int

record outbox_row =
  ob_id :: i64
  ob_aggregate_type :: string
  ob_aggregate_id :: string
  ob_event_id :: i64
  ob_payload :: json
  ob_published :: bool

record idempotency_row =
  ik_response_body :: json
  ik_status_code :: int
  ik_expires_at :: int

section \<open>The database\<close>

text \<open>
  Tables with a synthetic key are lists in insertion order; tables with a natural primary key
  (\<open>users\<close>, \<open>products\<close>, \<open>orders\<close>, \<open>idempotency_keys\<close>) are maps from the key. \<open>d_event_seq\<close>
  and its like are the last values drawn from the sequences.
\<close>

record db =
  d_events :: "event_row list"
  d_event_seq :: i64
  d_outbox :: "outbox_row list"
  d_outbox_seq :: i64
  d_snapshots :: "snapshot_row list"
  d_snapshot_seq :: i64
  d_users :: "string \<rightharpoonup> user_row"
  d_products :: "string \<rightharpoonup> product_row"
  d_orders :: "string \<rightharpoonup> order_row"
  d_idempotency :: "string \<rightharpoonup> idempotency_row"

definition empty_db :: db where
  "empty_db = \<lparr>d_events = [], d_event_seq = 0, d_outbox = [], d_outbox_seq = 0,
     d_snapshots = [], d_snapshot_seq = 0, d_users = Map.empty, d_products = Map.empty,
     d_orders = Map.empty, d_idempotency = Map.empty\<rparr>"

lemma empty_db_sel [simp]:
  "d_events empty_db = []" "d_event_seq empty_db = 0" "d_outbox empty_db = []"
  "d_outbox_seq empty_db = 0" "d_snapshots empty_db = []" "d_snapshot_seq empty_db = 0"
  "d_users empty_db = Map.empty" "d_products empty_db = Map.empty" "d_orders empty_db = Map.empty"
  "d_idempotency empty_db = Map.empty"
  by (simp_all add: empty_db_def)

text \<open>A \<open>BIGSERIAL\<close> sequence fails when it is exhausted.\<close>

definition nextval :: "i64 \<Rightarrow> i64 option" where
  "nextval n = (if n < 9223372036854775807 then Some (n + 1) else None)"

text \<open>A transaction that began in \<open>db0\<close> and reached \<open>db1\<close> is rolled back.\<close>

definition rollback :: "db \<Rightarrow> db \<Rightarrow> db" where
  "rollback db0 db1 = db0\<lparr>d_event_seq := d_event_seq db1, d_outbox_seq := d_outbox_seq db1,
     d_snapshot_seq := d_snapshot_seq db1\<rparr>"

text \<open>Everything a query can see: a database without the state of its sequences.\<close>

definition tables :: "db \<Rightarrow> db" where
  "tables d = d\<lparr>d_event_seq := 0, d_outbox_seq := 0, d_snapshot_seq := 0\<rparr>"

lemma tables_rollback [simp]: "tables (rollback db0 db1) = tables db0"
  by (simp add: tables_def rollback_def)

lemma rollback_sel [simp]:
  "d_events (rollback db0 db1) = d_events db0" "d_outbox (rollback db0 db1) = d_outbox db0"
  "d_snapshots (rollback db0 db1) = d_snapshots db0" "d_users (rollback db0 db1) = d_users db0"
  "d_products (rollback db0 db1) = d_products db0" "d_orders (rollback db0 db1) = d_orders db0"
  "d_idempotency (rollback db0 db1) = d_idempotency db0"
  "d_event_seq (rollback db0 db1) = d_event_seq db1"
  "d_outbox_seq (rollback db0 db1) = d_outbox_seq db1"
  "d_snapshot_seq (rollback db0 db1) = d_snapshot_seq db1"
  by (simp_all add: rollback_def)

text \<open>The events of one aggregate, in the order they were stored.\<close>

definition aggregate_rows :: "string \<Rightarrow> string \<Rightarrow> event_row list \<Rightarrow> event_row list" where
  "aggregate_rows ty i rows = filter (\<lambda>r. ev_aggregate_type r = ty \<and> ev_aggregate_id r = i) rows"

lemma aggregate_rows_Nil [simp]: "aggregate_rows ty i [] = []"
  by (simp add: aggregate_rows_def)

lemma aggregate_rows_append:
  "aggregate_rows ty i (rows @ rows') = aggregate_rows ty i rows @ aggregate_rows ty i rows'"
  by (simp add: aggregate_rows_def)

lemma aggregate_rows_single [simp]:
  "aggregate_rows ty i [r] = (if ev_aggregate_type r = ty \<and> ev_aggregate_id r = i then [r] else [])"
  by (simp add: aggregate_rows_def)

end
