(* ===== verification/Event_Store.thy ===== *)
theory Event_Store
  imports Database
begin

text \<open>
  \<open>internal/eventstore/store.go\<close>: appending an event with its outbox row, and the queries that
  load, list and search events.
\<close>

section \<open>Reading rows\<close>

text \<open>\<open>scanEvents\<close>: any row whose metadata does not decode fails the whole query.\<close>

definition scan_event :: "event_row \<Rightarrow> stored_event option" where
  "scan_event r = map_option
     (\<lambda>m. \<lparr>se_ID = ev_id r, se_AggregateType = ev_aggregate_type r,
       se_AggregateID = ev_aggregate_id r, se_EventType = ev_event_type r,
       se_Version = ev_version r, se_Payload = ev_payload r, se_Metadata = m,
       se_CreatedAt = from_micros (ev_created_at r)\<rparr>)
     (unmarshal (dec_struct metadata_fields) (ev_metadata r) empty_metadata)"

definition scanEvents :: "event_row list \<Rightarrow> stored_event list result" where
  "scanEvents rows = (case those (map scan_event rows) of None \<Rightarrow> Inl ErrJson | Some es \<Rightarrow> Inr es)"

definition LoadEvents :: "faults \<Rightarrow> db \<Rightarrow> string \<Rightarrow> string \<Rightarrow> i64 \<Rightarrow> stored_event list result" where
  "LoadEvents fl d aggregateType aggregateID afterVersion =
     (if fl CallLoadEvents then Inl (ErrDb CallLoadEvents)
      else scanEvents (sort_key ev_version
        (filter (\<lambda>r. afterVersion < ev_version r)
          (aggregate_rows aggregateType aggregateID (d_events d)))))"

text \<open>The \<open>WHERE\<close> clause \<open>LoadEventsUntil\<close> builds: every field of the query that is set.\<close>

definition until_clause :: "replay_query \<Rightarrow> event_row \<Rightarrow> bool" where
  "until_clause q r \<longleftrightarrow>
     (case rq_Version q of None \<Rightarrow> True | Some v \<Rightarrow> ev_version r \<le> v) \<and>
     (case rq_At q of None \<Rightarrow> True | Some t \<Rightarrow> ev_created_at r \<le> to_micros t) \<and>
     (case rq_UntilID q of None \<Rightarrow> True | Some n \<Rightarrow> ev_id r \<le> n)"

definition LoadEventsUntil :: "faults \<Rightarrow> db \<Rightarrow> string \<Rightarrow> string \<Rightarrow> replay_query \<Rightarrow> stored_event list result" where
  "LoadEventsUntil fl d aggregateType aggregateID query =
     (if fl CallLoadEvents then Inl (ErrDb CallLoadEvents)
      else scanEvents (sort_key ev_version
        (filter (until_clause query) (aggregate_rows aggregateType aggregateID (d_events d)))))"

text \<open>\<open>COALESCE(MAX(version), 0)\<close>.\<close>

definition max_version :: "event_row list \<Rightarrow> i64" where
  "max_version rows = (case rows of [] \<Rightarrow> 0
     | r # rs \<Rightarrow> fold (\<lambda>r v. max v (ev_version r)) rs (ev_version r))"

definition LatestVersion :: "faults \<Rightarrow> db \<Rightarrow> string \<Rightarrow> string \<Rightarrow> i64 result" where
  "LatestVersion fl d aggregateType aggregateID =
     (if fl CallLatestVersion then Inl (ErrDb CallLatestVersion)
      else Inr (max_version (aggregate_rows aggregateType aggregateID (d_events d))))"

text \<open>The timeline ignores an error in the metadata and keeps what was decoded before it.\<close>

definition timeline_row :: "event_row \<Rightarrow> timeline_entry" where
  "timeline_row r =
     (let m = fst (dec_struct metadata_fields (ev_metadata r) empty_metadata)
      in \<lparr>te_Version = ev_version r, te_EventType = ev_event_type r, te_EventID = ev_id r,
          te_Timestamp = from_micros (ev_created_at r), te_Actor = md_Actor m,
          te_Summary = ev_event_type r\<rparr>)"

definition Timeline :: "faults \<Rightarrow> db \<Rightarrow> string \<Rightarrow> string \<Rightarrow> timeline_entry list result" where
  "Timeline fl d aggregateType aggregateID =
     (if fl CallTimeline then Inl (ErrDb CallTimeline)
      else Inr (map timeline_row (sort_key ev_version
        (aggregate_rows aggregateType aggregateID (d_events d)))))"

definition History :: "faults \<Rightarrow> db \<Rightarrow> string \<Rightarrow> string \<Rightarrow> stored_event list result" where
  "History fl d aggregateType aggregateID =
     LoadEventsUntil fl d aggregateType aggregateID empty_query"

section \<open>Search\<close>

record search_filter =
  sf_AggregateType :: string
  sf_AggregateID :: string
  sf_EventType :: string
  sf_Actor :: string
  sf_CorrelationID :: string
  sf_From :: "gotime option"
  sf_To :: "gotime option"

text \<open>
  \<open>metadata->>'k'\<close>: the text of a member of an object, NULL when there is none. The members of
  stored metadata are strings.
\<close>

definition json_text :: "json \<Rightarrow> string \<Rightarrow> string option" where
  "json_text j k = (case j of
       JObj es \<Rightarrow> (case map_of es k of Some (JStr s) \<Rightarrow> Some s | _ \<Rightarrow> None)
     | _ \<Rightarrow> None)"

definition search_clause :: "search_filter \<Rightarrow> event_row \<Rightarrow> bool" where
  "search_clause f r \<longleftrightarrow>
     (sf_AggregateType f = [] \<or> ev_aggregate_type r = sf_AggregateType f) \<and>
     (sf_AggregateID f = [] \<or> ev_aggregate_id r = sf_AggregateID f) \<and>
     (sf_EventType f = [] \<or> ev_event_type r = sf_EventType f) \<and>
     (sf_Actor f = [] \<or> json_text (ev_metadata r) ''actor'' = Some (sf_Actor f)) \<and>
     (sf_CorrelationID f = [] \<or> json_text (ev_metadata r) ''correlation_id'' = Some (sf_CorrelationID f)) \<and>
     (case sf_From f of None \<Rightarrow> True | Some t \<Rightarrow> to_micros t \<le> ev_created_at r) \<and>
     (case sf_To f of None \<Rightarrow> True | Some t \<Rightarrow> ev_created_at r \<le> to_micros t)"

text \<open>
  \<open>ORDER BY created_at DESC LIMIT 500\<close>: rows of the same time come in an order SQL leaves open,
  that in which \<open>plan\<close> hands over the selected rows.
\<close>

definition Search :: "(event_row list \<Rightarrow> event_row list) \<Rightarrow> faults \<Rightarrow> db \<Rightarrow> search_filter
    \<Rightarrow> stored_event list result" where
  "Search plan fl d f =
     (if fl CallSearch then Inl (ErrDb CallSearch)
      else scanEvents (take 500 (sort_key (\<lambda>r. - ev_created_at r)
        (plan (filter (search_clause f) (d_events d))))))"

section \<open>Append\<close>

text \<open>
  The insertion into \<open>events\<close>, inside a transaction that began at \<open>now\<close>: the identity is drawn
  first, then the unique constraint on type, identifier and version is checked.
\<close>

definition version_taken :: "append_event \<Rightarrow> event_row list \<Rightarrow> bool" where
  "version_taken e rows \<longleftrightarrow>
     list_ex (\<lambda>r. ev_aggregate_type r = ae_AggregateType e \<and>
       ev_aggregate_id r = ae_AggregateID e \<and> ev_version r = ae_Version e) rows"

definition new_event_row :: "int \<Rightarrow> i64 \<Rightarrow> append_event \<Rightarrow> event_row" where
  "new_event_row now i e = \<lparr>ev_id = i, ev_aggregate_type = ae_AggregateType e,
     ev_aggregate_id = ae_AggregateID e, ev_event_type = ae_EventType e,
     ev_version = ae_Version e, ev_payload = ae_Payload e,
     ev_metadata = metadata_json (ae_Metadata e), ev_created_at = now\<rparr>"

definition outbox_payload :: "stored_event \<Rightarrow> json \<Rightarrow> json" where
  "outbox_payload stored payload = JObj
     [(''event_id'', JInt (se_ID stored)), (''aggregate_type'', JStr (se_AggregateType stored)),
      (''aggregate_id'', JStr (se_AggregateID stored)), (''event_type'', JStr (se_EventType stored)),
      (''version'', JInt (se_Version stored)), (''payload'', payload)]"

definition insert_outbox :: "stored_event \<Rightarrow> json \<Rightarrow> db \<Rightarrow> db option" where
  "insert_outbox stored payload d =
     map_option (\<lambda>i. d\<lparr>d_outbox_seq := i, d_outbox := d_outbox d @
           [\<lparr>ob_id = i, ob_aggregate_type = se_AggregateType stored,
             ob_aggregate_id = se_AggregateID stored, ob_event_id = se_ID stored,
             ob_payload = outbox_payload stored payload, ob_published = False\<rparr>]\<rparr>)
       (nextval (d_outbox_seq d))"

definition store_append :: "faults \<Rightarrow> int \<Rightarrow> append_event \<Rightarrow> db \<Rightarrow> stored_event result \<times> db" where
  "store_append fl now e d =
     (if fl CallInsertEvent then (Inl (ErrDb CallInsertEvent), d)
      else (case nextval (d_event_seq d) of
          None \<Rightarrow> (Inl (ErrDb CallInsertEvent), d)
        | Some i \<Rightarrow> (let d1 = d\<lparr>d_event_seq := i\<rparr>
            in if version_taken e (d_events d) then (Inl ErrConflict, d1)
               else (let row = new_event_row now i e; d2 = d1\<lparr>d_events := d_events d @ [row]\<rparr>
                     in case scan_event row of
                          None \<Rightarrow> (Inl ErrJson, d2)
                        | Some stored \<Rightarrow>
                            if fl CallInsertOutbox then (Inl (ErrDb CallInsertOutbox), d2)
                            else (case insert_outbox stored (ae_Payload e) d2 of
                                    None \<Rightarrow> (Inl (ErrDb CallInsertOutbox), d2)
                                  | Some d3 \<Rightarrow> (Inr stored, d3))))))"

section \<open>Lemmas\<close>

text \<open>A row the service stored reads back as the event it was.\<close>

definition event_of :: "int \<Rightarrow> i64 \<Rightarrow> append_event \<Rightarrow> stored_event" where
  "event_of now i e = \<lparr>se_ID = i, se_AggregateType = ae_AggregateType e,
     se_AggregateID = ae_AggregateID e, se_EventType = ae_EventType e, se_Version = ae_Version e,
     se_Payload = ae_Payload e, se_Metadata = ae_Metadata e, se_CreatedAt = from_micros now\<rparr>"

lemma scan_new_event_row [simp]: "scan_event (new_event_row now i e) = Some (event_of now i e)"
  by (simp add: scan_event_def new_event_row_def event_of_def codec_simps)

lemma scan_event_fields:
  "scan_event r = Some e \<Longrightarrow> se_ID e = ev_id r \<and> se_AggregateType e = ev_aggregate_type r \<and>
     se_AggregateID e = ev_aggregate_id r \<and> se_EventType e = ev_event_type r \<and>
     se_Version e = ev_version r \<and> se_Payload e = ev_payload r \<and>
     se_CreatedAt e = from_micros (ev_created_at r)"
  by (auto simp: scan_event_def)

lemma scanEvents_Nil [simp]: "scanEvents [] = Inr []"
  by (simp add: scanEvents_def)

lemma scanEvents_Cons:
  "scanEvents (r # rs) = (case scan_event r of None \<Rightarrow> Inl ErrJson
     | Some e \<Rightarrow> (case scanEvents rs of Inl x \<Rightarrow> Inl x | Inr es \<Rightarrow> Inr (e # es)))"
  by (auto simp: scanEvents_def split: option.splits)

lemma scanEvents_map:
  "list_all2 (\<lambda>r e. scan_event r = Some e) rows es \<Longrightarrow> scanEvents rows = Inr es"
  by (induction rows es rule: list_all2_induct) (simp_all add: scanEvents_Cons)

lemma max_version_Nil [simp]: "max_version [] = 0"
  by (simp add: max_version_def)

lemma max_version_snoc:
  "max_version (rows @ [r]) = (if rows = [] then ev_version r else max (max_version rows) (ev_version r))"
  by (auto simp: max_version_def split: list.splits)

text \<open>
  A log in good order: the versions of every aggregate are 1, 2, 3 and so on in the order of
  insertion, no two events have the same identity, identities increase along each aggregate (across
  aggregates they need not follow the order of commits), and every row can be read.
\<close>

definition versions_from_1 :: "event_row list \<Rightarrow> bool" where
  "versions_from_1 rows \<longleftrightarrow> map ev_version rows = map int [1..<Suc (length rows)]"

definition log_ok :: "event_row list \<Rightarrow> bool" where
  "log_ok rows \<longleftrightarrow>
     (\<forall>ty i. versions_from_1 (aggregate_rows ty i rows) \<and> sorted_wrt (<) (map ev_id (aggregate_rows ty i rows))) \<and>
     distinct (map ev_id rows) \<and> list_all (\<lambda>r. scan_event r \<noteq> None) rows"

lemma versions_from_1_snoc [simp]:
  "versions_from_1 (rows @ [r]) \<longleftrightarrow> versions_from_1 rows \<and> ev_version r = int (length rows) + 1"
  by (auto simp: versions_from_1_def)

lemma versions_from_1_Nil [simp]: "versions_from_1 []"
  by (simp add: versions_from_1_def)

lemma versions_from_1_nth:
  "versions_from_1 rows \<Longrightarrow> k < length rows \<Longrightarrow> ev_version (rows ! k) = int k + 1"
proof -
  assume v: "versions_from_1 rows" and k: "k < length rows"
  have "ev_version (rows ! k) = map ev_version rows ! k" using k by simp
  also have "\<dots> = map int [1..<Suc (length rows)] ! k" using v by (simp add: versions_from_1_def)
  also have "\<dots> = int k + 1" using k by (simp del: upt_Suc)
  finally show ?thesis .
qed

lemma versions_from_1_range:
  "versions_from_1 rows \<Longrightarrow> r \<in> set rows \<Longrightarrow> 1 \<le> ev_version r \<and> ev_version r \<le> int (length rows)"
  by (auto simp: in_set_conv_nth versions_from_1_nth)

lemma versions_from_1_sorted: "versions_from_1 rows \<Longrightarrow> sorted (map ev_version rows)"
  by (simp add: versions_from_1_def sorted_wrt_map del: upt_Suc)

lemma max_version_from_1: "versions_from_1 rows \<Longrightarrow> max_version rows = int (length rows)"
  by (induction rows rule: rev_induct) (auto simp: max_version_snoc)

lemma filter_versions_le:
  "versions_from_1 rows \<Longrightarrow> filter (\<lambda>r. ev_version r \<le> v) rows = take (nat v) rows"
proof (induction rows rule: rev_induct)
  case (snoc r rows)
  then show ?case
    by (cases "ev_version r \<le> v") (auto simp: nat_le_iff)
qed simp

lemma aggregate_rows_sorted:
  "log_ok rows \<Longrightarrow> sorted (map ev_version (aggregate_rows ty i rows))"
  by (simp add: log_ok_def versions_from_1_sorted)

lemma log_ok_Nil [simp]: "log_ok []"
  by (simp add: log_ok_def)

lemma LatestVersion_log_ok:
  "log_ok (d_events d) \<Longrightarrow> \<not> fl CallLatestVersion \<Longrightarrow>
     LatestVersion fl d ty i = Inr (int (length (aggregate_rows ty i (d_events d))))"
  by (simp add: LatestVersion_def log_ok_def max_version_from_1)

text \<open>The events of one aggregate that the log holds, as the program reads them.\<close>

definition aggregate_events :: "string \<Rightarrow> string \<Rightarrow> event_row list \<Rightarrow> stored_event list" where
  "aggregate_events ty i rows = List.map_filter scan_event (aggregate_rows ty i rows)"

lemma scanEvents_filter:
  "list_all (\<lambda>r. scan_event r \<noteq> None) rows \<Longrightarrow>
     scanEvents (filter P rows) = Inr (List.map_filter scan_event (filter P rows))"
  by (induction rows) (auto simp: scanEvents_Cons map_filter_simps split: option.splits)

lemma scanEvents_readable:
  "list_all (\<lambda>r. scan_event r \<noteq> None) rows \<Longrightarrow> scanEvents rows = Inr (List.map_filter scan_event rows)"
  using scanEvents_filter [of rows "\<lambda>_. True"] by simp

lemma aggregate_rows_readable:
  "log_ok rows \<Longrightarrow> list_all (\<lambda>r. scan_event r \<noteq> None) (aggregate_rows ty i rows)"
  by (auto simp: log_ok_def aggregate_rows_def list_all_iff)

lemma LoadEventsUntil_log_ok:
  assumes "log_ok (d_events d)" "\<not> fl CallLoadEvents"
  shows "LoadEventsUntil fl d ty i q = Inr (List.map_filter scan_event
    (filter (until_clause q) (aggregate_rows ty i (d_events d))))"
  using assms aggregate_rows_sorted [OF assms(1), of ty i] aggregate_rows_readable [OF assms(1), of ty i]
  by (simp add: LoadEventsUntil_def sorted_map_filter scanEvents_filter)

lemma until_clause_simps [simp]:
  "until_clause empty_query = (\<lambda>r. True)"
  "until_clause (at_version v) = (\<lambda>r. ev_version r \<le> v)"
  "until_clause (at_time t) = (\<lambda>r. ev_created_at r \<le> to_micros t)"
  by (simp_all add: until_clause_def empty_query_def at_version_def at_time_def fun_eq_iff)

text \<open>Events up to a version are a prefix of the aggregate's events.\<close>

lemma map_filter_scan_take:
  "list_all (\<lambda>r. scan_event r \<noteq> None) rows \<Longrightarrow>
     List.map_filter scan_event (take n rows) = take n (List.map_filter scan_event rows)"
  by (induction rows arbitrary: n) (auto simp: map_filter_simps take_Cons split: nat.splits)

lemma LoadEventsUntil_version:
  assumes "log_ok (d_events d)" "\<not> fl CallLoadEvents"
  shows "LoadEventsUntil fl d ty i (at_version v)
    = Inr (take (nat v) (aggregate_events ty i (d_events d)))"
  using assms aggregate_rows_readable [OF assms(1), of ty i]
  by (simp add: LoadEventsUntil_log_ok aggregate_events_def filter_versions_le map_filter_scan_take
      log_ok_def)

lemma aggregate_events_versions:
  assumes "log_ok rows"
  shows "map se_Version (aggregate_events ty i rows)
    = map int [1..<Suc (length (aggregate_events ty i rows))]"
proof -
  have "list_all (\<lambda>r. scan_event r \<noteq> None) rs \<Longrightarrow>
      map se_Version (List.map_filter scan_event rs) = map ev_version rs" for rs
    by (induction rs) (auto simp: map_filter_simps dest: scan_event_fields)
  then have eq: "map se_Version (aggregate_events ty i rows) = map ev_version (aggregate_rows ty i rows)"
    using aggregate_rows_readable [OF assms] by (simp add: aggregate_events_def)
  then have "length (aggregate_events ty i rows) = length (aggregate_rows ty i rows)"
    by (metis length_map)
  with eq assms show ?thesis
    by (simp add: log_ok_def versions_from_1_def del: upt_Suc)
qed

lemma length_aggregate_events:
  assumes "log_ok rows"
  shows "length (aggregate_events ty i rows) = length (aggregate_rows ty i rows)"
proof -
  have "list_all (\<lambda>r. scan_event r \<noteq> None) rs \<Longrightarrow> length (List.map_filter scan_event rs) = length rs" for rs
    by (induction rs) (auto simp: map_filter_simps)
  then show ?thesis using aggregate_rows_readable [OF assms] by (simp add: aggregate_events_def)
qed

text \<open>What a successful append did.\<close>

lemma store_append_Inr:
  assumes "store_append fl now e d = (Inr stored, d')"
  obtains i k where "nextval (d_event_seq d) = Some i" "\<not> version_taken e (d_events d)"
    "stored = event_of now i e" "nextval (d_outbox_seq d) = Some k"
    "d' = d\<lparr>d_event_seq := i, d_events := d_events d @ [new_event_row now i e], d_outbox_seq := k,
       d_outbox := d_outbox d @ [\<lparr>ob_id = k, ob_aggregate_type = ae_AggregateType e,
         ob_aggregate_id = ae_AggregateID e, ob_event_id = i,
         ob_payload = outbox_payload stored (ae_Payload e), ob_published = False\<rparr>]\<rparr>"
  using assms
  by (auto simp: store_append_def insert_outbox_def event_of_def Let_def
      split: if_splits option.splits)

lemma store_append_seq:
  "store_append fl now e d = (Inr stored, d') \<Longrightarrow> nextval (d_event_seq d) = Some (d_event_seq d')"
  by (elim store_append_Inr) simp

lemma store_append_Inl:
  assumes "store_append fl now e d = (Inl x, d')"
  shows "d_event_seq d' = d_event_seq d \<or> nextval (d_event_seq d) = Some (d_event_seq d')"
    "d_outbox_seq d' = d_outbox_seq d" "d_snapshot_seq d' = d_snapshot_seq d"
  using assms
  by (auto simp: store_append_def insert_outbox_def Let_def split: if_splits option.splits)

lemma store_append_taken:
  "\<not> fl CallInsertEvent \<Longrightarrow> nextval (d_event_seq d) = Some i \<Longrightarrow> version_taken e (d_events d) \<Longrightarrow>
     store_append fl now e d = (Inl ErrConflict, d\<lparr>d_event_seq := i\<rparr>)"
  by (simp add: store_append_def Let_def)

text \<open>In a good log a version is taken exactly when it is at most the latest one.\<close>

lemma version_taken_iff:
  assumes "versions_from_1 (aggregate_rows (ae_AggregateType e) (ae_AggregateID e) rows)"
  shows "version_taken e rows \<longleftrightarrow> 1 \<le> ae_Version e \<and>
    ae_Version e \<le> int (length (aggregate_rows (ae_AggregateType e) (ae_AggregateID e) rows))"
proof -
  let ?rs = "aggregate_rows (ae_AggregateType e) (ae_AggregateID e) rows"
  have "version_taken e rows \<longleftrightarrow> ae_Version e \<in> ev_version ` set ?rs"
    by (force simp: version_taken_def list_ex_iff aggregate_rows_def image_iff)
  also have "ev_version ` set ?rs = int ` {1..<Suc (length ?rs)}"
    using assms by (metis versions_from_1_def set_map set_upt)
  also have "ae_Version e \<in> int ` {1..<Suc (length ?rs)} \<longleftrightarrow>
      1 \<le> ae_Version e \<and> ae_Version e \<le> int (length ?rs)"
    by (auto simp: image_iff intro!: bexI [of _ "nat (ae_Version e)"])
  finally show ?thesis .
qed

section \<open>The invariant of the write side\<close>

definition db_ok :: "db \<Rightarrow> bool" where
  "db_ok d \<longleftrightarrow> log_ok (d_events d) \<and> (\<forall>r \<in> set (d_events d). ev_id r \<le> d_event_seq d) \<and>
     int (length (d_events d)) \<le> d_event_seq d \<and> d_event_seq d \<le> 9223372036854775807"

text \<open>One outbox row for each event, in the same order.\<close>

definition outbox_ok :: "db \<Rightarrow> bool" where
  "outbox_ok d \<longleftrightarrow> map (\<lambda>b. (ob_aggregate_type b, ob_aggregate_id b, ob_event_id b)) (d_outbox d)
     = map (\<lambda>r. (ev_aggregate_type r, ev_aggregate_id r, ev_id r)) (d_events d)"

lemma db_ok_empty [simp]: "db_ok empty_db" "outbox_ok empty_db"
  by (simp_all add: db_ok_def outbox_ok_def empty_db_def)

lemma length_aggregate_rows: "length (aggregate_rows ty i rows) \<le> length rows"
  by (simp add: aggregate_rows_def)

lemma nextval_Some [simp]:
  "nextval n = Some m \<longleftrightarrow> m = n + 1 \<and> n < 9223372036854775807"
  by (auto simp: nextval_def)

text \<open>Appending the event that comes next keeps a good log good.\<close>

lemma log_ok_snoc:
  assumes "log_ok rows" "\<forall>r \<in> set rows. ev_id r \<le> n"
    "ae_Version e = int (length (aggregate_rows (ae_AggregateType e) (ae_AggregateID e) rows)) + 1"
  shows "log_ok (rows @ [new_event_row now (n + 1) e])"
proof -
  have "distinct (map ev_id (rows @ [new_event_row now (n + 1) e]))"
    using assms(1,2) by (force simp: log_ok_def new_event_row_def)
  moreover have "sorted_wrt (<) (map ev_id (aggregate_rows ty i (rows @ [new_event_row now (n + 1) e])))" for ty i
    using assms(1,2) by (force simp: log_ok_def aggregate_rows_def sorted_wrt_append new_event_row_def)
  moreover have "versions_from_1 (aggregate_rows ty i (rows @ [new_event_row now (n + 1) e]))" for ty i
    using assms(1,3) by (auto simp: log_ok_def aggregate_rows_append new_event_row_def)
  ultimately show ?thesis
    using assms(1) by (simp add: log_ok_def)
qed

lemma db_ok_rollback:
  assumes "db_ok d" "d_event_seq d1 = d_event_seq d \<or> nextval (d_event_seq d) = Some (d_event_seq d1)"
  shows "db_ok (rollback d d1)"
  using assms by (auto simp: db_ok_def)

end
