(* ===== verification/User_Aggregate.thy ===== *)
theory User_Aggregate
  imports Event_Store
begin

text \<open>
  \<open>internal/user/aggregate.go\<close>: the user aggregate, its event payloads, how an event changes it,
  its snapshot and the map a diff compares.
\<close>

abbreviation UserCreated :: string where "UserCreated \<equiv> ''UserCreated''"
abbreviation UserUpdated :: string where "UserUpdated \<equiv> ''UserUpdated''"
abbreviation UserDeleted :: string where "UserDeleted \<equiv> ''UserDeleted''"
abbreviation PasswordChanged :: string where "PasswordChanged \<equiv> ''PasswordChanged''"
abbreviation EmailChanged :: string where "EmailChanged \<equiv> ''EmailChanged''"
abbreviation AddressChanged :: string where "AddressChanged \<equiv> ''AddressChanged''"
abbreviation AvatarChanged :: string where "AvatarChanged \<equiv> ''AvatarChanged''"

section \<open>Data\<close>

record user =
  u_ID :: string
  u_Name :: string
  u_Email :: string
  u_Address :: string
  u_Avatar :: string
  u_Deleted :: bool
  u_Version :: i64
  u_CreatedAt :: gotime
  u_UpdatedAt :: gotime

record user_created_payload =
  uc_Name :: string
  uc_Email :: string

record user_updated_payload =
  uu_Name :: "string option"
  uu_Email :: "string option"
  uu_Address :: "string option"
  uu_Avatar :: "string option"

text \<open>A payload with one string field; \<open>EmailChangedPayload\<close> and its like differ in the tag only.\<close>

record user_field_payload =
  uf_Value :: string

definition user_created_json :: "user_created_payload \<Rightarrow> json" where
  "user_created_json p = JObj [(''name'', JStr (uc_Name p)), (''email'', JStr (uc_Email p))]"

definition user_created_fields :: "(string \<times> user_created_payload fdec) list" where
  "user_created_fields =
     [(''name'', dec_field uc_Name uc_Name_update dec_string),
      (''email'', dec_field uc_Email uc_Email_update dec_string)]"

definition user_updated_json :: "user_updated_payload \<Rightarrow> json" where
  "user_updated_json p = JObj
     (omit_nil ''name'' JStr (uu_Name p) @ omit_nil ''email'' JStr (uu_Email p)
      @ omit_nil ''address'' JStr (uu_Address p) @ omit_nil ''avatar'' JStr (uu_Avatar p))"

definition user_updated_fields :: "(string \<times> user_updated_payload fdec) list" where
  "user_updated_fields =
     [(''name'', dec_field uu_Name uu_Name_update (dec_ptr [] dec_string)),
      (''email'', dec_field uu_Email uu_Email_update (dec_ptr [] dec_string)),
      (''address'', dec_field uu_Address uu_Address_update (dec_ptr [] dec_string)),
      (''avatar'', dec_field uu_Avatar uu_Avatar_update (dec_ptr [] dec_string))]"

definition user_field_fields :: "string \<Rightarrow> (string \<times> user_field_payload fdec) list" where
  "user_field_fields tag = [(tag, dec_field uf_Value uf_Value_update dec_string)]"

abbreviation zero_user_created :: user_created_payload where
  "zero_user_created \<equiv> \<lparr>uc_Name = [], uc_Email = []\<rparr>"

abbreviation zero_user_updated :: user_updated_payload where
  "zero_user_updated \<equiv> \<lparr>uu_Name = None, uu_Email = None, uu_Address = None, uu_Avatar = None\<rparr>"

abbreviation zero_user_field :: user_field_payload where
  "zero_user_field \<equiv> \<lparr>uf_Value = []\<rparr>"

section \<open>Operations\<close>

definition user_New :: "string \<Rightarrow> user" where
  "user_New i = \<lparr>u_ID = i, u_Name = [], u_Email = [], u_Address = [], u_Avatar = [],
     u_Deleted = False, u_Version = 0, u_CreatedAt = zero_time, u_UpdatedAt = zero_time\<rparr>"

text \<open>\<open>Apply\<close>; what it wrote before an error is lost with the aggregate in every caller.\<close>

definition user_Apply :: "stored_event \<Rightarrow> user \<Rightarrow> user result" where
  "user_Apply e u0 =
     (let u = u0\<lparr>u_Version := se_Version e, u_UpdatedAt := se_CreatedAt e\<rparr>;
          ty = se_EventType e; payload = se_Payload e
      in if ty = UserCreated then
           (case unmarshal (dec_struct user_created_fields) payload zero_user_created of
              None \<Rightarrow> Inl ErrJson
            | Some p \<Rightarrow> Inr (u\<lparr>u_Name := uc_Name p, u_Email := uc_Email p,
                               u_CreatedAt := se_CreatedAt e, u_Deleted := False\<rparr>))
         else if ty = UserUpdated then
           (case unmarshal (dec_struct user_updated_fields) payload zero_user_updated of
              None \<Rightarrow> Inl ErrJson
            | Some p \<Rightarrow> Inr (u\<lparr>u_Name := or_keep (uu_Name p) (u_Name u),
                               u_Email := or_keep (uu_Email p) (u_Email u),
                               u_Address := or_keep (uu_Address p) (u_Address u),
                               u_Avatar := or_keep (uu_Avatar p) (u_Avatar u)\<rparr>))
         else if ty = EmailChanged then
           (case unmarshal (dec_struct (user_field_fields ''email'')) payload zero_user_field of
              None \<Rightarrow> Inl ErrJson
            | Some p \<Rightarrow> Inr (u\<lparr>u_Email := uf_Value p\<rparr>))
         else if ty = AddressChanged then
           (case unmarshal (dec_struct (user_field_fields ''address'')) payload zero_user_field of
              None \<Rightarrow> Inl ErrJson
            | Some p \<Rightarrow> Inr (u\<lparr>u_Address := uf_Value p\<rparr>))
         else if ty = AvatarChanged then
           (case unmarshal (dec_struct (user_field_fields ''avatar'')) payload zero_user_field of
              None \<Rightarrow> Inl ErrJson
            | Some p \<Rightarrow> Inr (u\<lparr>u_Avatar := uf_Value p\<rparr>))
         else if ty = UserDeleted then Inr (u\<lparr>u_Deleted := True\<rparr>)
         else Inr u)"

text \<open>\<open>MarshalSnapshot\<close>: an error when a timestamp has no RFC 3339 form.\<close>

definition user_MarshalSnapshot :: "user \<Rightarrow> json option" where
  "user_MarshalSnapshot u =
     (case (fmt_rfc3339 (u_CreatedAt u), fmt_rfc3339 (u_UpdatedAt u)) of
        (Some c, Some m) \<Rightarrow> Some (JObj
          ([(''id'', JStr (u_ID u)), (''name'', JStr (u_Name u)), (''email'', JStr (u_Email u))]
           @ omit_if (u_Address u = []) ''address'' (JStr (u_Address u))
           @ omit_if (u_Avatar u = []) ''avatar'' (JStr (u_Avatar u))
           @ omit_if (\<not> u_Deleted u) ''deleted'' (JBool (u_Deleted u))
           @ [(''version'', JInt (u_Version u)), (''created_at'', JStr c), (''updated_at'', JStr m)]))
      | _ \<Rightarrow> None)"

definition user_fields :: "(string \<times> user fdec) list" where
  "user_fields =
     [(''id'', dec_field u_ID u_ID_update dec_string),
      (''name'', dec_field u_Name u_Name_update dec_string),
      (''email'', dec_field u_Email u_Email_update dec_string),
      (''address'', dec_field u_Address u_Address_update dec_string),
      (''avatar'', dec_field u_Avatar u_Avatar_update dec_string),
      (''deleted'', dec_field u_Deleted u_Deleted_update dec_bool),
      (''version'', dec_field u_Version u_Version_update dec_int64),
      (''created_at'', dec_field u_CreatedAt u_CreatedAt_update dec_time),
      (''updated_at'', dec_field u_UpdatedAt u_UpdatedAt_update dec_time)]"

definition user_UnmarshalSnapshot :: "json \<Rightarrow> user \<Rightarrow> user option" where
  "user_UnmarshalSnapshot data u = unmarshal (dec_struct user_fields) data u"

definition user_ToMap :: "user \<Rightarrow> string \<rightharpoonup> anyval" where
  "user_ToMap u = [''id'' \<mapsto> AStr (u_ID u), ''name'' \<mapsto> AStr (u_Name u),
     ''email'' \<mapsto> AStr (u_Email u), ''address'' \<mapsto> AStr (u_Address u),
     ''avatar'' \<mapsto> AStr (u_Avatar u), ''deleted'' \<mapsto> ABool (u_Deleted u),
     ''version'' \<mapsto> AInt (u_Version u), ''created_at'' \<mapsto> ATime (u_CreatedAt u),
     ''updated_at'' \<mapsto> ATime (u_UpdatedAt u)]"

section \<open>Lemmas\<close>

lemma user_created_roundtrip [codec_simps]:
  "unmarshal (dec_struct user_created_fields) (user_created_json p) zero_user_created = Some p"
  by (simp add: decode_simps user_created_fields_def user_created_json_def)

lemma user_updated_roundtrip [codec_simps]:
  "unmarshal (dec_struct user_updated_fields) (user_updated_json p) zero_user_updated = Some p"
  by (cases p; cases "uu_Name p"; cases "uu_Email p"; cases "uu_Address p"; cases "uu_Avatar p")
    (simp_all add: decode_simps user_updated_fields_def user_updated_json_def)

text \<open>The user with its timestamps in UTC: what a snapshot keeps of it.\<close>

definition user_utc :: "user \<Rightarrow> user" where
  "user_utc u = u\<lparr>u_CreatedAt := in_utc (u_CreatedAt u), u_UpdatedAt := in_utc (u_UpdatedAt u)\<rparr>"

definition user_local :: "user \<Rightarrow> bool" where
  "user_local u \<longleftrightarrow> in_i64 (u_Version u) \<and> zone_offset (t_loc (u_CreatedAt u)) = 0 \<and>
     zone_offset (t_loc (u_UpdatedAt u)) = 0"

lemma user_Apply_version:
  "user_Apply e u = Inr u' \<Longrightarrow> u_Version u' = se_Version e \<and> u_ID u' = u_ID u"
  by (auto simp: user_Apply_def Let_def split: if_splits option.splits)

lemma user_snapshot_roundtrip:
  assumes "user_MarshalSnapshot u = Some j" "user_local u"
  shows "user_UnmarshalSnapshot j (user_New i) = Some (user_utc u)"
proof -
  obtain c m where cm: "fmt_rfc3339 (u_CreatedAt u) = Some c" "fmt_rfc3339 (u_UpdatedAt u) = Some m"
    using assms(1) by (auto simp: user_MarshalSnapshot_def split: option.splits)
  with assms show ?thesis
    by (cases u; cases "u_Address u = []"; cases "u_Avatar u = []"; cases "u_Deleted u")
      (auto simp: user_MarshalSnapshot_def user_UnmarshalSnapshot_def decode_simps user_fields_def
        user_utc_def user_New_def user_local_def)
qed

text \<open>Applying an event does not look at the locations of the timestamps.\<close>

lemma user_Apply_utc:
  "map_sum id user_utc (user_Apply e (user_utc u)) = map_sum id user_utc (user_Apply e u)"
  by (auto simp: user_Apply_def user_utc_def Let_def split: option.splits)

lemma user_Apply_local:
  assumes "user_Apply e u = Inr u'" "user_local u" "in_i64 (se_Version e)"
    "zone_offset (t_loc (se_CreatedAt e)) = 0"
  shows "user_local u'"
  using assms by (auto simp: user_Apply_def user_local_def Let_def split: if_splits option.splits)

lemma user_MarshalSnapshot_utc:
  "user_local u \<Longrightarrow> user_MarshalSnapshot (user_utc u) = user_MarshalSnapshot u"
  by (simp add: user_MarshalSnapshot_def user_utc_def user_local_def fmt_rfc3339_in_utc split: option.split)

end
