(* ===== verification/Product_Aggregate.thy ===== *)
theory Product_Aggregate
  imports Event_Store
begin

text \<open>
  \<open>internal/product/aggregate.go\<close>: the product aggregate, its event payloads, how an event
  changes it, its snapshot and the map a diff compares.
\<close>

abbreviation ProductCreated :: string where "ProductCreated \<equiv> ''ProductCreated''"
abbreviation ProductUpdated :: string where "ProductUpdated \<equiv> ''ProductUpdated''"
abbreviation ProductDeleted :: string where "ProductDeleted \<equiv> ''ProductDeleted''"
abbreviation PriceChanged :: string where "PriceChanged \<equiv> ''PriceChanged''"

section \<open>Data\<close>

record product =
  p_ID :: string
  p_Name :: string
  p_Description :: string
  p_PriceCents :: i64
  p_Currency :: string
  p_Deleted :: bool
  p_Version :: i64
  p_CreatedAt :: gotime
  p_UpdatedAt :: gotime

record product_created_payload =
  pc_Name :: string
  pc_Description :: string
  pc_PriceCents :: i64
  pc_Currency :: string

record product_updated_payload =
  pu_Name :: "string option"
  pu_Description :: "string option"
  pu_PriceCents :: "i64 option"
  pu_Currency :: "string option"

record price_changed_payload =
  pp_PriceCents :: i64
  pp_Currency :: string

definition product_created_json :: "product_created_payload \<Rightarrow> json" where
  "product_created_json p = JObj
     [(''name'', JStr (pc_Name p)), (''description'', JStr (pc_Description p)),
      (''price_cents'', JInt (pc_PriceCents p)), (''currency'', JStr (pc_Currency p))]"

definition product_created_fields :: "(string \<times> product_created_payload fdec) list" where
  "product_created_fields =
     [(''name'', dec_field pc_Name pc_Name_update dec_string),
      (''description'', dec_field pc_Description pc_Description_update dec_string),
      (''price_cents'', dec_field pc_PriceCents pc_PriceCents_update dec_int64),
      (''currency'', dec_field pc_Currency pc_Currency_update dec_string)]"

definition product_updated_json :: "product_updated_payload \<Rightarrow> json" where
  "product_updated_json p = JObj
     (omit_nil ''name'' JStr (pu_Name p) @ omit_nil ''description'' JStr (pu_Description p)
      @ omit_nil ''price_cents'' JInt (pu_PriceCents p) @ omit_nil ''currency'' JStr (pu_Currency p))"

definition product_updated_fields :: "(string \<times> product_updated_payload fdec) list" where
  "product_updated_fields =
     [(''name'', dec_field pu_Name pu_Name_update (dec_ptr [] dec_string)),
      (''description'', dec_field pu_Description pu_Description_update (dec_ptr [] dec_string)),
      (''price_cents'', dec_field pu_PriceCents pu_PriceCents_update (dec_ptr 0 dec_int64)),
      (''currency'', dec_field pu_Currency pu_Currency_update (dec_ptr [] dec_string))]"

definition price_changed_json :: "price_changed_payload \<Rightarrow> json" where
  "price_changed_json p = JObj
     ((''price_cents'', JInt (pp_PriceCents p))
      # omit_if (pp_Currency p = []) ''currency'' (JStr (pp_Currency p)))"

definition price_changed_fields :: "(string \<times> price_changed_payload fdec) list" where
  "price_changed_fields =
     [(''price_cents'', dec_field pp_PriceCents pp_PriceCents_update dec_int64),
      (''currency'', dec_field pp_Currency pp_Currency_update dec_string)]"

abbreviation zero_product_created :: product_created_payload where
  "zero_product_created \<equiv> \<lparr>pc_Name = [], pc_Description = [], pc_PriceCents = 0, pc_Currency = []\<rparr>"

abbreviation zero_product_updated :: product_updated_payload where
  "zero_product_updated \<equiv>
     \<lparr>pu_Name = None, pu_Description = None, pu_PriceCents = None, pu_Currency = None\<rparr>"

abbreviation zero_price_changed :: price_changed_payload where
  "zero_price_changed \<equiv> \<lparr>pp_PriceCents = 0, pp_Currency = []\<rparr>"

section \<open>Operations\<close>

definition product_New :: "string \<Rightarrow> product" where
  "product_New i = \<lparr>p_ID = i, p_Name = [], p_Description = [], p_PriceCents = 0,
     p_Currency = ''USD'', p_Deleted = False, p_Version = 0, p_CreatedAt = zero_time,
     p_UpdatedAt = zero_time\<rparr>"

definition product_Apply :: "stored_event \<Rightarrow> product \<Rightarrow> product result" where
  "product_Apply e p0 =
     (let p = p0\<lparr>p_Version := se_Version e, p_UpdatedAt := se_CreatedAt e\<rparr>;
          ty = se_EventType e; data = se_Payload e
      in if ty = ProductCreated then
           (case unmarshal (dec_struct product_created_fields) data zero_product_created of
              None \<Rightarrow> Inl ErrJson
            | Some payload \<Rightarrow> Inr (p\<lparr>p_Name := pc_Name payload,
                p_Description := pc_Description payload, p_PriceCents := pc_PriceCents payload,
                p_Currency := (if pc_Currency payload \<noteq> [] then pc_Currency payload else p_Currency p),
                p_CreatedAt := se_CreatedAt e, p_Deleted := False\<rparr>))
         else if ty = ProductUpdated then
           (case unmarshal (dec_struct product_updated_fields) data zero_product_updated of
              None \<Rightarrow> Inl ErrJson
            | Some payload \<Rightarrow> Inr (p\<lparr>p_Name := or_keep (pu_Name payload) (p_Name p),
                p_Description := or_keep (pu_Description payload) (p_Description p),
                p_PriceCents := or_keep (pu_PriceCents payload) (p_PriceCents p),
                p_Currency := or_keep (pu_Currency payload) (p_Currency p)\<rparr>))
         else if ty = PriceChanged then
           (case unmarshal (dec_struct price_changed_fields) data zero_price_changed of
              None \<Rightarrow> Inl ErrJson
            | Some payload \<Rightarrow> Inr (p\<lparr>p_PriceCents := pp_PriceCents payload,
                p_Currency := (if pp_Currency payload \<noteq> [] then pp_Currency payload else p_Currency p)\<rparr>))
         else if ty = ProductDeleted then Inr (p\<lparr>p_Deleted := True\<rparr>)
         else Inr p)"

definition product_MarshalSnapshot :: "product \<Rightarrow> json option" where
  "product_MarshalSnapshot p =
     (case (fmt_rfc3339 (p_CreatedAt p), fmt_rfc3339 (p_UpdatedAt p)) of
        (Some c, Some m) \<Rightarrow> Some (JObj
          ([(''id'', JStr (p_ID p)), (''name'', JStr (p_Name p)),
            (''description'', JStr (p_Description p)), (''price_cents'', JInt (p_PriceCents p)),
            (''currency'', JStr (p_Currency p))]
           @ omit_if (\<not> p_Deleted p) ''deleted'' (JBool (p_Deleted p))
           @ [(''version'', JInt (p_Version p)), (''created_at'', JStr c), (''updated_at'', JStr m)]))
      | _ \<Rightarrow> None)"

definition product_fields :: "(string \<times> product fdec) list" where
  "product_fields =
     [(''id'', dec_field p_ID p_ID_update dec_string),
      (''name'', dec_field p_Name p_Name_update dec_string),
      (''description'', dec_field p_Description p_Description_update dec_string),
      (''price_cents'', dec_field p_PriceCents p_PriceCents_update dec_int64),
      (''currency'', dec_field p_Currency p_Currency_update dec_string),
      (''deleted'', dec_field p_Deleted p_Deleted_update dec_bool),
      (''version'', dec_field p_Version p_Version_update dec_int64),
      (''created_at'', dec_field p_CreatedAt p_CreatedAt_update dec_time),
      (''updated_at'', dec_field p_UpdatedAt p_UpdatedAt_update dec_time)]"

definition product_UnmarshalSnapshot :: "json \<Rightarrow> product \<Rightarrow> product option" where
  "product_UnmarshalSnapshot data p = unmarshal (dec_struct product_fields) data p"

definition product_ToMap :: "product \<Rightarrow> string \<rightharpoonup> anyval" where
  "product_ToMap p = [''id'' \<mapsto> AStr (p_ID p), ''name'' \<mapsto> AStr (p_Name p),
     ''description'' \<mapsto> AStr (p_Description p), ''price_cents'' \<mapsto> AInt (p_PriceCents p),
     ''currency'' \<mapsto> AStr (p_Currency p), ''deleted'' \<mapsto> ABool (p_Deleted p),
     ''version'' \<mapsto> AInt (p_Version p), ''created_at'' \<mapsto> ATime (p_CreatedAt p),
     ''updated_at'' \<mapsto> ATime (p_UpdatedAt p)]"

section \<open>Lemmas\<close>

lemma product_created_roundtrip [codec_simps]:
  "in_i64 (pc_PriceCents p) \<Longrightarrow>
   unmarshal (dec_struct product_created_fields) (product_created_json p) zero_product_created = Some p"
  by (simp add: decode_simps product_created_fields_def product_created_json_def)

lemma product_updated_roundtrip [codec_simps]:
  "pred_option in_i64 (pu_PriceCents p) \<Longrightarrow>
   unmarshal (dec_struct product_updated_fields) (product_updated_json p) zero_product_updated = Some p"
  by (cases p; cases "pu_Name p"; cases "pu_Description p"; cases "pu_PriceCents p"; cases "pu_Currency p")
    (simp_all add: decode_simps product_updated_fields_def product_updated_json_def)

lemma price_changed_roundtrip [codec_simps]:
  "in_i64 (pp_PriceCents p) \<Longrightarrow>
   unmarshal (dec_struct price_changed_fields) (price_changed_json p) zero_price_changed = Some p"
  by (cases p; cases "pp_Currency p = []")
    (simp_all add: decode_simps price_changed_fields_def price_changed_json_def)

definition product_utc :: "product \<Rightarrow> product" where
  "product_utc p = p\<lparr>p_CreatedAt := in_utc (p_CreatedAt p), p_UpdatedAt := in_utc (p_UpdatedAt p)\<rparr>"

definition product_local :: "product \<Rightarrow> bool" where
  "product_local p \<longleftrightarrow> in_i64 (p_Version p) \<and> in_i64 (p_PriceCents p) \<and>
     zone_offset (t_loc (p_CreatedAt p)) = 0 \<and> zone_offset (t_loc (p_UpdatedAt p)) = 0"

lemma product_Apply_version:
  "product_Apply e p = Inr p' \<Longrightarrow> p_Version p' = se_Version e \<and> p_ID p' = p_ID p"
  by (auto simp: product_Apply_def Let_def split: if_splits option.splits)

lemma product_snapshot_roundtrip:
  assumes "product_MarshalSnapshot p = Some j" "product_local p"
  shows "product_UnmarshalSnapshot j (product_New i) = Some (product_utc p)"
proof -
  obtain c m where cm: "fmt_rfc3339 (p_CreatedAt p) = Some c" "fmt_rfc3339 (p_UpdatedAt p) = Some m"
    using assms(1) by (auto simp: product_MarshalSnapshot_def split: option.splits)
  with assms show ?thesis
    by (cases p; cases "p_Deleted p")
      (auto simp: product_MarshalSnapshot_def product_UnmarshalSnapshot_def decode_simps
        product_fields_def product_utc_def product_New_def product_local_def)
qed

lemma product_Apply_utc:
  "map_sum id product_utc (product_Apply e (product_utc p)) = map_sum id product_utc (product_Apply e p)"
  by (auto simp: product_Apply_def product_utc_def Let_def split: option.splits)

lemma product_payloads_in_range:
  "unmarshal (dec_struct product_created_fields) v zero_product_created = Some p1 \<Longrightarrow> in_i64 (pc_PriceCents p1)"
  "unmarshal (dec_struct product_updated_fields) v zero_product_updated = Some p2 \<Longrightarrow>
     pred_option in_i64 (pu_PriceCents p2)"
  "unmarshal (dec_struct price_changed_fields) v zero_price_changed = Some p3 \<Longrightarrow> in_i64 (pp_PriceCents p3)"
proof -
  have k: "keeps (\<lambda>r. in_i64 (pc_PriceCents r)) (dec_struct product_created_fields)"
      "keeps (\<lambda>r. pred_option in_i64 (pu_PriceCents r)) (dec_struct product_updated_fields)"
      "keeps (\<lambda>r. in_i64 (pp_PriceCents r)) (dec_struct price_changed_fields)"
    by (rule keeps_dec_struct,
        use keeps_in_i64 keeps_ptr [OF keeps_in_i64, of 0] in
        \<open>simp add: keeps_def dec_field_def split_beta product_created_fields_def
          product_updated_fields_def price_changed_fields_def\<close>)+
  show "unmarshal (dec_struct product_created_fields) v zero_product_created = Some p1 \<Longrightarrow> in_i64 (pc_PriceCents p1)"
    by (erule unmarshal_keeps [OF k(1)]) simp
  show "unmarshal (dec_struct product_updated_fields) v zero_product_updated = Some p2 \<Longrightarrow>
     pred_option in_i64 (pu_PriceCents p2)"
    by (erule unmarshal_keeps [OF k(2)]) simp
  show "unmarshal (dec_struct price_changed_fields) v zero_price_changed = Some p3 \<Longrightarrow> in_i64 (pp_PriceCents p3)"
    by (erule unmarshal_keeps [OF k(3)]) simp
qed

lemma in_i64_or_keep: "pred_option in_i64 p \<Longrightarrow> in_i64 x \<Longrightarrow> in_i64 (or_keep p x)"
  by (cases p) auto

lemma product_Apply_local:
  assumes "product_Apply e p = Inr p'" "product_local p" "in_i64 (se_Version e)"
    "zone_offset (t_loc (se_CreatedAt e)) = 0"
  shows "product_local p'"
  using assms
  by (auto simp: product_Apply_def product_local_def Let_def in_i64_or_keep
      dest: product_payloads_in_range split: if_splits option.splits)

lemma product_MarshalSnapshot_utc:
  "product_local p \<Longrightarrow> product_MarshalSnapshot (product_utc p) = product_MarshalSnapshot p"
  by (simp add: product_MarshalSnapshot_def product_utc_def product_local_def fmt_rfc3339_in_utc split: option.split)

end
