(* ===== verification/Order_Aggregate.thy ===== *)
theory Order_Aggregate
  imports Event_Store
begin

text \<open>
  \<open>internal/order/aggregate.go\<close>: the order aggregate with its items and its total, its event
  payloads, how an event changes it, its snapshot and the map a diff compares. A nil slice of
  items is \<open>None\<close>.
\<close>

abbreviation OrderCreated :: string where "OrderCreated \<equiv> ''OrderCreated''"
abbreviation OrderUpdated :: string where "OrderUpdated \<equiv> ''OrderUpdated''"
abbreviation OrderCancelled :: string where "OrderCancelled \<equiv> ''OrderCancelled''"
abbreviation OrderItemAdded :: string where "OrderItemAdded \<equiv> ''OrderItemAdded''"
abbreviation OrderItemRemoved :: string where "OrderItemRemoved \<equiv> ''OrderItemRemoved''"

section \<open>Data\<close>

record item =
  i_ProductID :: string
  i_Quantity :: i64
  i_PriceCents :: i64

record order =
  o_ID :: string
  o_UserID :: string
  o_Status :: string
  o_TotalCents :: i64
  o_Currency :: string
  o_Items :: "item list option"
  o_Cancelled :: bool
  o_Version :: i64
  o_CreatedAt :: gotime
  o_UpdatedAt :: gotime

record order_created_payload =
  oc_UserID :: string
  oc_Currency :: string
  oc_TotalCents :: i64
  oc_Items :: "item list option"

record order_updated_payload =
  ou_Status :: "string option"

record item_added_payload =
  oa_Item :: item

record item_removed_payload =
  om_ProductID :: string

definition item_json :: "item \<Rightarrow> json" where
  "item_json i = JObj [(''product_id'', JStr (i_ProductID i)), (''quantity'', JInt (i_Quantity i)),
     (''price_cents'', JInt (i_PriceCents i))]"

definition item_fields :: "(string \<times> item fdec) list" where
  "item_fields =
     [(''product_id'', dec_field i_ProductID i_ProductID_update dec_string),
      (''quantity'', dec_field i_Quantity i_Quantity_update dec_int64),
      (''price_cents'', dec_field i_PriceCents i_PriceCents_update dec_int64)]"

abbreviation zero_item :: item where
  "zero_item \<equiv> \<lparr>i_ProductID = [], i_Quantity = 0, i_PriceCents = 0\<rparr>"

text \<open>A nil slice is marshalled as \<open>null\<close>.\<close>

definition items_json :: "item list option \<Rightarrow> json" where
  "items_json items = (case items of None \<Rightarrow> JNull | Some is \<Rightarrow> JArr (map item_json is))"

definition dec_items :: "item list option fdec" where
  "dec_items = dec_slice zero_item (dec_struct item_fields)"

definition order_created_json :: "order_created_payload \<Rightarrow> json" where
  "order_created_json p = JObj
     [(''user_id'', JStr (oc_UserID p)), (''currency'', JStr (oc_Currency p)),
      (''total_cents'', JInt (oc_TotalCents p)), (''items'', items_json (oc_Items p))]"

definition order_created_fields :: "(string \<times> order_created_payload fdec) list" where
  "order_created_fields =
     [(''user_id'', dec_field oc_UserID oc_UserID_update dec_string),
      (''currency'', dec_field oc_Currency oc_Currency_update dec_string),
      (''total_cents'', dec_field oc_TotalCents oc_TotalCents_update dec_int64),
      (''items'', dec_field oc_Items oc_Items_update dec_items)]"

definition order_updated_json :: "order_updated_payload \<Rightarrow> json" where
  "order_updated_json p = JObj (omit_nil ''status'' JStr (ou_Status p))"

definition order_updated_fields :: "(string \<times> order_updated_payload fdec) list" where
  "order_updated_fields =
     [(''status'', dec_field ou_Status ou_Status_update (dec_ptr [] dec_string))]"

definition item_added_json :: "item_added_payload \<Rightarrow> json" where
  "item_added_json p = JObj [(''item'', item_json (oa_Item p))]"

definition item_added_fields :: "(string \<times> item_added_payload fdec) list" where
  "item_added_fields = [(''item'', dec_field oa_Item oa_Item_update (dec_struct item_fields))]"

definition item_removed_json :: "item_removed_payload \<Rightarrow> json" where
  "item_removed_json p = JObj [(''product_id'', JStr (om_ProductID p))]"

definition item_removed_fields :: "(string \<times> item_removed_payload fdec) list" where
  "item_removed_fields = [(''product_id'', dec_field om_ProductID om_ProductID_update dec_string)]"

abbreviation zero_order_created :: order_created_payload where
  "zero_order_created \<equiv> \<lparr>oc_UserID = [], oc_Currency = [], oc_TotalCents = 0, oc_Items = None\<rparr>"

abbreviation zero_order_updated :: order_updated_payload where
  "zero_order_updated \<equiv> \<lparr>ou_Status = None\<rparr>"

abbreviation zero_item_added :: item_added_payload where
  "zero_item_added \<equiv> \<lparr>oa_Item = zero_item\<rparr>"

abbreviation zero_item_removed :: item_removed_payload where
  "zero_item_removed \<equiv> \<lparr>om_ProductID = []\<rparr>"

section \<open>Operations\<close>

definition order_New :: "string \<Rightarrow> order" where
  "order_New i = \<lparr>o_ID = i, o_UserID = [], o_Status = ''pending'', o_TotalCents = 0,
     o_Currency = ''USD'', o_Items = Some [], o_Cancelled = False, o_Version = 0,
     o_CreatedAt = zero_time, o_UpdatedAt = zero_time\<rparr>"

text \<open>Ranging over a nil slice does nothing.\<close>

definition item_list :: "item list option \<Rightarrow> item list" where
  "item_list items = (case items of None \<Rightarrow> [] | Some is \<Rightarrow> is)"

text \<open>\<open>total += item.PriceCents * int64(item.Quantity)\<close>, in 64-bit arithmetic.\<close>

definition add_item_cents :: "i64 \<Rightarrow> item \<Rightarrow> i64" where
  "add_item_cents acc i = wrap64 (acc + wrap64 (i_PriceCents i * i_Quantity i))"

definition items_total :: "item list option \<Rightarrow> i64" where
  "items_total items = foldl add_item_cents 0 (item_list items)"

definition recalcTotal :: "order \<Rightarrow> order" where
  "recalcTotal ord = ord\<lparr>o_TotalCents := items_total (o_Items ord)\<rparr>"

text \<open>
  \<open>OrderItemRemoved\<close> filters in place; \<open>o.Items[:0]\<close> of a nil slice is nil, and it stays nil
  because nothing is appended to it.
\<close>

definition order_Apply :: "stored_event \<Rightarrow> order \<Rightarrow> order result" where
  "order_Apply e o0 =
     (let ord = o0\<lparr>o_Version := se_Version e, o_UpdatedAt := se_CreatedAt e\<rparr>;
          ty = se_EventType e; data = se_Payload e
      in if ty = OrderCreated then
           (case unmarshal (dec_struct order_created_fields) data zero_order_created of
              None \<Rightarrow> Inl ErrJson
            | Some p \<Rightarrow> Inr (ord\<lparr>o_UserID := oc_UserID p, o_TotalCents := oc_TotalCents p,
                o_Currency := (if oc_Currency p \<noteq> [] then oc_Currency p else o_Currency ord),
                o_Items := oc_Items p, o_Status := ''pending'', o_CreatedAt := se_CreatedAt e\<rparr>))
         else if ty = OrderUpdated then
           (case unmarshal (dec_struct order_updated_fields) data zero_order_updated of
              None \<Rightarrow> Inl ErrJson
            | Some p \<Rightarrow> Inr (ord\<lparr>o_Status := or_keep (ou_Status p) (o_Status ord)\<rparr>))
         else if ty = OrderItemAdded then
           (case unmarshal (dec_struct item_added_fields) data zero_item_added of
              None \<Rightarrow> Inl ErrJson
            | Some p \<Rightarrow> Inr (recalcTotal
                (ord\<lparr>o_Items := Some (item_list (o_Items ord) @ [oa_Item p])\<rparr>)))
         else if ty = OrderItemRemoved then
           (case unmarshal (dec_struct item_removed_fields) data zero_item_removed of
              None \<Rightarrow> Inl ErrJson
            | Some p \<Rightarrow> Inr (recalcTotal
                (ord\<lparr>o_Items := map_option (filter (\<lambda>i. i_ProductID i \<noteq> om_ProductID p)) (o_Items ord)\<rparr>)))
         else if ty = OrderCancelled then
           Inr (ord\<lparr>o_Cancelled := True, o_Status := ''cancelled''\<rparr>)
         else Inr ord)"

definition order_MarshalSnapshot :: "order \<Rightarrow> json option" where
  "order_MarshalSnapshot ord =
     (case (fmt_rfc3339 (o_CreatedAt ord), fmt_rfc3339 (o_UpdatedAt ord)) of
        (Some c, Some m) \<Rightarrow> Some (JObj
          ([(''id'', JStr (o_ID ord)), (''user_id'', JStr (o_UserID ord)),
            (''status'', JStr (o_Status ord)), (''total_cents'', JInt (o_TotalCents ord)),
            (''currency'', JStr (o_Currency ord)), (''items'', items_json (o_Items ord))]
           @ omit_if (\<not> o_Cancelled ord) ''cancelled'' (JBool (o_Cancelled ord))
           @ [(''version'', JInt (o_Version ord)), (''created_at'', JStr c), (''updated_at'', JStr m)]))
      | _ \<Rightarrow> None)"

definition order_fields :: "(string \<times> order fdec) list" where
  "order_fields =
     [(''id'', dec_field o_ID o_ID_update dec_string),
      (''user_id'', dec_field o_UserID o_UserID_update dec_string),
      (''status'', dec_field o_Status o_Status_update dec_string),
      (''total_cents'', dec_field o_TotalCents o_TotalCents_update dec_int64),
      (''currency'', dec_field o_Currency o_Currency_update dec_string),
      (''items'', dec_field o_Items o_Items_update dec_items),
      (''cancelled'', dec_field o_Cancelled o_Cancelled_update dec_bool),
      (''version'', dec_field o_Version o_Version_update dec_int64),
      (''created_at'', dec_field o_CreatedAt o_CreatedAt_update dec_time),
      (''updated_at'', dec_field o_UpdatedAt o_UpdatedAt_update dec_time)]"

definition order_UnmarshalSnapshot :: "json \<Rightarrow> order \<Rightarrow> order option" where
  "order_UnmarshalSnapshot data ord = unmarshal (dec_struct order_fields) data ord"

definition order_ToMap :: "order \<Rightarrow> string \<rightharpoonup> anyval" where
  "order_ToMap ord = [''id'' \<mapsto> AStr (o_ID ord), ''user_id'' \<mapsto> AStr (o_UserID ord),
     ''status'' \<mapsto> AStr (o_Status ord), ''total_cents'' \<mapsto> AInt (o_TotalCents ord),
     ''currency'' \<mapsto> AStr (o_Currency ord),
     ''items'' \<mapsto> AItems (map_option (map (\<lambda>i. (i_ProductID i, i_Quantity i, i_PriceCents i))) (o_Items ord)),
     ''cancelled'' \<mapsto> ABool (o_Cancelled ord), ''version'' \<mapsto> AInt (o_Version ord),
     ''created_at'' \<mapsto> ATime (o_CreatedAt ord), ''updated_at'' \<mapsto> ATime (o_UpdatedAt ord)]"

section \<open>Lemmas\<close>

definition item_ok :: "item \<Rightarrow> bool" where
  "item_ok i \<longleftrightarrow> in_i64 (i_Quantity i) \<and> in_i64 (i_PriceCents i)"

lemma item_roundtrip [simp]:
  "item_ok i \<Longrightarrow> dec_struct item_fields (item_json i) zero_item = (i, DecOk)"
  by (simp add: decode_simps item_fields_def item_json_def item_ok_def)

lemma items_roundtrip [simp]:
  "pred_option (list_all item_ok) items \<Longrightarrow> x = None \<or> x = Some [] \<Longrightarrow>
     dec_items (items_json items) x = (items, DecOk)"
  by (cases items) (auto simp: dec_items_def items_json_def dec_slice_def list_all_iff dec_elems_map)

lemma order_created_roundtrip [codec_simps]:
  "in_i64 (oc_TotalCents p) \<Longrightarrow> pred_option (list_all item_ok) (oc_Items p) \<Longrightarrow>
   unmarshal (dec_struct order_created_fields) (order_created_json p) zero_order_created = Some p"
  by (simp add: decode_simps order_created_fields_def order_created_json_def)

lemma order_updated_roundtrip [codec_simps]:
  "unmarshal (dec_struct order_updated_fields) (order_updated_json p) zero_order_updated = Some p"
  by (cases p; cases "ou_Status p")
    (simp_all add: decode_simps order_updated_fields_def order_updated_json_def)

lemma item_added_roundtrip [codec_simps]:
  "item_ok (oa_Item p) \<Longrightarrow>
   unmarshal (dec_struct item_added_fields) (item_added_json p) zero_item_added = Some p"
  by (simp add: decode_simps item_added_fields_def item_added_json_def)

lemma item_removed_roundtrip [codec_simps]:
  "unmarshal (dec_struct item_removed_fields) (item_removed_json p) zero_item_removed = Some p"
  by (simp add: decode_simps item_removed_fields_def item_removed_json_def)

text \<open>The wrapped sum is the exact sum, wrapped once.\<close>

definition exact_total :: "item list \<Rightarrow> int" where
  "exact_total is = sum_list (map (\<lambda>i. i_PriceCents i * i_Quantity i) is)"

lemma foldl_add_item_cents:
  "in_i64 t \<Longrightarrow> foldl add_item_cents t is = wrap64 (t + exact_total is)"
proof (induction "is" arbitrary: t)
  case Nil
  then show ?case by (simp add: exact_total_def wrap64_id)
next
  case (Cons i "is")
  have "foldl add_item_cents (add_item_cents t i) is = wrap64 (add_item_cents t i + exact_total is)"
    by (rule Cons.IH) (simp add: add_item_cents_def)
  moreover have "wrap64 (add_item_cents t i + exact_total is) = wrap64 (t + exact_total (i # is))"
    by (simp add: exact_total_def add_item_cents_def wrap_simps add.assoc)
  ultimately show ?case by simp
qed

lemma items_total_exact: "items_total items = wrap64 (exact_total (item_list items))"
  by (simp add: items_total_def foldl_add_item_cents)

definition order_utc :: "order \<Rightarrow> order" where
  "order_utc ord = ord\<lparr>o_CreatedAt := in_utc (o_CreatedAt ord), o_UpdatedAt := in_utc (o_UpdatedAt ord)\<rparr>"

definition order_local :: "order \<Rightarrow> bool" where
  "order_local ord \<longleftrightarrow> in_i64 (o_Version ord) \<and> in_i64 (o_TotalCents ord) \<and>
     pred_option (list_all item_ok) (o_Items ord) \<and>
     zone_offset (t_loc (o_CreatedAt ord)) = 0 \<and> zone_offset (t_loc (o_UpdatedAt ord)) = 0"

lemma order_Apply_version:
  "order_Apply e ord = Inr ord' \<Longrightarrow> o_Version ord' = se_Version e \<and> o_ID ord' = o_ID ord"
  by (auto simp: order_Apply_def recalcTotal_def Let_def split: if_splits option.splits)

lemma order_snapshot_roundtrip:
  assumes "order_MarshalSnapshot ord = Some j" "order_local ord"
  shows "order_UnmarshalSnapshot j (order_New i) = Some (order_utc ord)"
proof -
  obtain c m where cm: "fmt_rfc3339 (o_CreatedAt ord) = Some c" "fmt_rfc3339 (o_UpdatedAt ord) = Some m"
    using assms(1) by (auto simp: order_MarshalSnapshot_def split: option.splits)
  with assms show ?thesis
    by (cases ord; cases "o_Cancelled ord")
      (auto simp: order_MarshalSnapshot_def order_UnmarshalSnapshot_def decode_simps
        order_fields_def order_utc_def order_New_def order_local_def)
qed

lemma order_Apply_utc:
  "map_sum id order_utc (order_Apply e (order_utc ord)) = map_sum id order_utc (order_Apply e ord)"
  by (auto simp: order_Apply_def order_utc_def recalcTotal_def Let_def split: option.splits)

lemma keeps_item: "keeps item_ok (dec_struct item_fields)"
  by (rule keeps_dec_struct, use keeps_in_i64 in
      \<open>simp add: keeps_def dec_field_def split_beta item_fields_def item_ok_def\<close>)

lemma zero_item_ok [simp]: "item_ok zero_item"
  by (simp add: item_ok_def)

lemma order_payloads_in_range:
  "unmarshal (dec_struct order_created_fields) v zero_order_created = Some p1 \<Longrightarrow>
     in_i64 (oc_TotalCents p1) \<and> pred_option (list_all item_ok) (oc_Items p1)"
  "unmarshal (dec_struct item_added_fields) v zero_item_added = Some p2 \<Longrightarrow> item_ok (oa_Item p2)"
proof -
  have k: "keeps (\<lambda>r. in_i64 (oc_TotalCents r) \<and> pred_option (list_all item_ok) (oc_Items r))
        (dec_struct order_created_fields)"
      "keeps (\<lambda>r. item_ok (oa_Item r)) (dec_struct item_added_fields)"
    by (rule keeps_dec_struct,
        use keeps_in_i64 keeps_item keeps_slice [OF keeps_item zero_item_ok] in
        \<open>simp add: keeps_def dec_field_def split_beta dec_items_def order_created_fields_def
          item_added_fields_def\<close>)+
  show "unmarshal (dec_struct order_created_fields) v zero_order_created = Some p1 \<Longrightarrow>
     in_i64 (oc_TotalCents p1) \<and> pred_option (list_all item_ok) (oc_Items p1)"
    by (erule unmarshal_keeps [OF k(1)]) simp
  show "unmarshal (dec_struct item_added_fields) v zero_item_added = Some p2 \<Longrightarrow> item_ok (oa_Item p2)"
    by (erule unmarshal_keeps [OF k(2)]) simp
qed

lemma order_Apply_local:
  assumes "order_Apply e ord = Inr ord'" "order_local ord" "in_i64 (se_Version e)"
    "zone_offset (t_loc (se_CreatedAt e)) = 0"
  shows "order_local ord'"
  using assms
  by (auto simp: order_Apply_def order_local_def recalcTotal_def Let_def item_list_def items_total_exact
      list_all_iff option.pred_set
      dest: order_payloads_in_range(1) intro: order_payloads_in_range(2)
      split: if_splits option.splits)
    (rule order_payloads_in_range(2), assumption)+

lemma order_MarshalSnapshot_utc:
  "order_local ord \<Longrightarrow> order_MarshalSnapshot (order_utc ord) = order_MarshalSnapshot ord"
  by (simp add: order_MarshalSnapshot_def order_utc_def order_local_def fmt_rfc3339_in_utc split: option.split)

end
