(* ===== verification/Projection.thy ===== *)
theory Projection
  imports User_Aggregate Product_Aggregate Order_Aggregate
begin

text \<open>
  \<open>internal/projection/user.go\<close> and \<open>catalog.go\<close>: the read models that hold the current state of
  the aggregates. The locale \<open>projector\<close> is what the command side needs of a projector.
\<close>

section \<open>Users\<close>

text \<open>
  \<open>INSERT ... ON CONFLICT (id) DO UPDATE\<close>: every column but \<open>created_at\<close> takes the value of
  the aggregate, which is a new one with this one event applied.
\<close>

definition upsert_user :: "user \<Rightarrow> db \<Rightarrow> db" where
  "upsert_user u d = d\<lparr>d_users := (d_users d)(u_ID u \<mapsto>
     \<lparr>ur_name = u_Name u, ur_email = u_Email u, ur_version = u_Version u, ur_deleted = u_Deleted u,
       ur_created_at = (case d_users d (u_ID u) of
           None \<Rightarrow> to_micros (u_CreatedAt u) | Some r \<Rightarrow> ur_created_at r),
       ur_updated_at = to_micros (u_UpdatedAt u)\<rparr>)\<rparr>"

definition UserProjector_Apply :: "faults \<Rightarrow> stored_event \<Rightarrow> db \<Rightarrow> unit result \<times> db" where
  "UserProjector_Apply fl event d =
     (case user_Apply event (user_New (se_AggregateID event)) of
        Inl e \<Rightarrow> (Inl e, d)
      | Inr u \<Rightarrow> if fl CallProject then (Inl (ErrDb CallProject), d) else (Inr (), upsert_user u d))"

definition UserProjector_GetCurrent :: "faults \<Rightarrow> db \<Rightarrow> string \<Rightarrow> user result" where
  "UserProjector_GetCurrent fl d i =
     (if fl CallGetCurrent then Inl (ErrDb CallGetCurrent)
      else (case d_users d i of
              None \<Rightarrow> Inl ErrNotFound
            | Some r \<Rightarrow> Inr \<lparr>u_ID = i, u_Name = ur_name r, u_Email = ur_email r, u_Address = [],
                u_Avatar = [], u_Deleted = ur_deleted r, u_Version = ur_version r,
                u_CreatedAt = from_micros (ur_created_at r), u_UpdatedAt = from_micros (ur_updated_at r)\<rparr>))"

section \<open>Products\<close>

definition upsert_product :: "product \<Rightarrow> db \<Rightarrow> db" where
  "upsert_product p d = d\<lparr>d_products := (d_products d)(p_ID p \<mapsto>
     \<lparr>pr_name = p_Name p, pr_description = p_Description p, pr_price_cents = p_PriceCents p,
       pr_currency = p_Currency p, pr_version = p_Version p, pr_deleted = p_Deleted p,
       pr_created_at = (case d_products d (p_ID p) of
           None \<Rightarrow> to_micros (p_CreatedAt p) | Some r \<Rightarrow> pr_created_at r),
       pr_updated_at = to_micros (p_UpdatedAt p)\<rparr>)\<rparr>"

definition ProductProjector_Apply :: "faults \<Rightarrow> stored_event \<Rightarrow> db \<Rightarrow> unit result \<times> db" where
  "ProductProjector_Apply fl event d =
     (case product_Apply event (product_New (se_AggregateID event)) of
        Inl e \<Rightarrow> (Inl e, d)
      | Inr p \<Rightarrow> if fl CallProject then (Inl (ErrDb CallProject), d) else (Inr (), upsert_product p d))"

definition ProductProjector_GetCurrent :: "faults \<Rightarrow> db \<Rightarrow> string \<Rightarrow> product result" where
  "ProductProjector_GetCurrent fl d i =
     (if fl CallGetCurrent then Inl (ErrDb CallGetCurrent)
      else (case d_products d i of
              None \<Rightarrow> Inl ErrNotFound
            | Some r \<Rightarrow> Inr \<lparr>p_ID = i, p_Name = pr_name r, p_Description = pr_description r,
                p_PriceCents = pr_price_cents r, p_Currency = pr_currency r,
                p_Deleted = pr_deleted r, p_Version = pr_version r,
                p_CreatedAt = from_micros (pr_created_at r), p_UpdatedAt = from_micros (pr_updated_at r)\<rparr>))"

section \<open>Orders\<close>

definition upsert_order :: "order \<Rightarrow> db \<Rightarrow> db" where
  "upsert_order ord d = d\<lparr>d_orders := (d_orders d)(o_ID ord \<mapsto>
     \<lparr>or_user_id = o_UserID ord, or_status = o_Status ord, or_total_cents = o_TotalCents ord,
       or_currency = o_Currency ord, or_items = items_json (o_Items ord),
       or_version = o_Version ord, or_cancelled = o_Cancelled ord,
       or_created_at = (case d_orders d (o_ID ord) of
           None \<Rightarrow> to_micros (o_CreatedAt ord) | Some r \<Rightarrow> or_created_at r),
       or_updated_at = to_micros (o_UpdatedAt ord)\<rparr>)\<rparr>"

definition OrderProjector_Apply :: "faults \<Rightarrow> stored_event \<Rightarrow> db \<Rightarrow> unit result \<times> db" where
  "OrderProjector_Apply fl event d =
     (case order_Apply event (order_New (se_AggregateID event)) of
        Inl e \<Rightarrow> (Inl e, d)
      | Inr ord \<Rightarrow> if fl CallProject then (Inl (ErrDb CallProject), d) else (Inr (), upsert_order ord d))"

definition OrderProjector_GetCurrent :: "faults \<Rightarrow> db \<Rightarrow> string \<Rightarrow> order result" where
  "OrderProjector_GetCurrent fl d i =
     (if fl CallGetCurrent then Inl (ErrDb CallGetCurrent)
      else (case d_orders d i of
              None \<Rightarrow> Inl ErrNotFound
            | Some r \<Rightarrow> (case unmarshal dec_items (or_items r) None of
                  None \<Rightarrow> Inl ErrJson
                | Some items \<Rightarrow> Inr \<lparr>o_ID = i, o_UserID = or_user_id r, o_Status = or_status r,
                    o_TotalCents = or_total_cents r, o_Currency = or_currency r, o_Items = items,
                    o_Cancelled = or_cancelled r, o_Version = or_version r,
                    o_CreatedAt = from_micros (or_created_at r), o_UpdatedAt = from_micros (or_updated_at r)\<rparr>)))"

section \<open>What the command side needs of a projector\<close>

text \<open>The version the read model shows for an aggregate.\<close>

definition read_version :: "string \<Rightarrow> string \<Rightarrow> db \<Rightarrow> i64 option" where
  "read_version ty i d =
     (if ty = AggregateUser then map_option ur_version (d_users d i)
      else if ty = AggregateProduct then map_option pr_version (d_products d i)
      else if ty = AggregateOrder then map_option or_version (d_orders d i)
      else None)"

text \<open>Everything but the read models.\<close>

definition write_side :: "db \<Rightarrow> db" where
  "write_side d = d\<lparr>d_users := Map.empty, d_products := Map.empty, d_orders := Map.empty\<rparr>"

lemma write_side_eqD:
  "write_side d = write_side d' \<Longrightarrow> d_events d = d_events d' \<and> d_event_seq d = d_event_seq d' \<and>
     d_outbox d = d_outbox d' \<and> d_outbox_seq d = d_outbox_seq d' \<and> d_snapshots d = d_snapshots d' \<and>
     d_snapshot_seq d = d_snapshot_seq d' \<and> d_idempotency d = d_idempotency d'"
  by (cases d; cases d') (simp add: write_side_def)

locale projector =
  fixes apply_event :: "faults \<Rightarrow> stored_event \<Rightarrow> db \<Rightarrow> unit result \<times> db" and ty :: string
  assumes frame: "apply_event fl e d = (r, d') \<Longrightarrow> write_side d' = write_side d"
    and shows_version: "apply_event fl e d = (Inr (), d') \<Longrightarrow>
      read_version ty (se_AggregateID e) d' = Some (se_Version e)"
    and others: "apply_event fl e d = (r, d') \<Longrightarrow> (ty', i) \<noteq> (ty, se_AggregateID e) \<Longrightarrow>
      read_version ty' i d' = read_version ty' i d"
begin

lemma events_unchanged: "apply_event fl e d = (r, d') \<Longrightarrow> d_events d' = d_events d"
  using frame write_side_eqD by blast

lemma outbox_unchanged: "apply_event fl e d = (r, d') \<Longrightarrow> d_outbox d' = d_outbox d"
  using frame write_side_eqD by blast

lemma seqs_unchanged:
  "apply_event fl e d = (r, d') \<Longrightarrow> d_event_seq d' = d_event_seq d \<and> d_outbox_seq d' = d_outbox_seq d \<and>
     d_snapshots d' = d_snapshots d \<and> d_idempotency d' = d_idempotency d"
  using frame write_side_eqD by blast

end

lemma New_ID [simp]:
  "u_ID (user_New i) = i" "p_ID (product_New i) = i" "o_ID (order_New i) = i"
  by (simp_all add: user_New_def product_New_def order_New_def)

lemmas projector_defs = UserProjector_Apply_def ProductProjector_Apply_def OrderProjector_Apply_def
  upsert_user_def upsert_product_def upsert_order_def read_version_def write_side_def

interpretation user_projector: projector UserProjector_Apply AggregateUser
  by unfold_locales (auto simp: projector_defs dest!: user_Apply_version split: sum.splits if_splits)

interpretation product_projector: projector ProductProjector_Apply AggregateProduct
  by unfold_locales (auto simp: projector_defs dest!: product_Apply_version split: sum.splits if_splits)

interpretation order_projector: projector OrderProjector_Apply AggregateOrder
  by unfold_locales (auto simp: projector_defs dest!: order_Apply_version split: sum.splits if_splits)

text \<open>The read model knows exactly the aggregates of the log, at their latest version.\<close>

definition aggregate_type :: "string \<Rightarrow> bool" where
  "aggregate_type ty \<longleftrightarrow> ty = AggregateUser \<or> ty = AggregateProduct \<or> ty = AggregateOrder"

definition read_model_ok :: "db \<Rightarrow> bool" where
  "read_model_ok d \<longleftrightarrow> (\<forall>ty i. aggregate_type ty \<longrightarrow>
     read_version ty i d = (let n = length (aggregate_rows ty i (d_events d))
                            in if n = 0 then None else Some (int n)))"

lemma read_version_cong:
  "d_users d = d_users d' \<Longrightarrow> d_products d = d_products d' \<Longrightarrow> d_orders d = d_orders d' \<Longrightarrow>
     read_version ty i d = read_version ty i d'"
  by (simp add: read_version_def)

section \<open>Reading back what was projected\<close>

text \<open>
  After an event is projected, the read model shows a new aggregate with this one event applied,
  except for the columns it does not have and the time of creation.
\<close>

lemma UserProjector_GetCurrent_Apply:
  assumes "UserProjector_Apply fl e d = (Inr (), d')"
    "UserProjector_GetCurrent fl d' (se_AggregateID e) = Inr u"
  obtains u1 c where "user_Apply e (user_New (se_AggregateID e)) = Inr u1"
    "u = u1\<lparr>u_Address := [], u_Avatar := [], u_CreatedAt := from_micros c,
       u_UpdatedAt := from_micros (to_micros (u_UpdatedAt u1))\<rparr>"
    "d_users d (se_AggregateID e) = None \<Longrightarrow> c = to_micros (u_CreatedAt u1)"
proof -
  obtain u1 where u1: "user_Apply e (user_New (se_AggregateID e)) = Inr u1" "d' = upsert_user u1 d"
    using assms(1) by (auto simp: UserProjector_Apply_def split: sum.splits if_splits)
  have v: "u_ID u1 = se_AggregateID e" using user_Apply_version [OF u1(1)] by simp
  show ?thesis
    by (rule that [OF u1(1), of "case d_users d (se_AggregateID e) of
          None \<Rightarrow> to_micros (u_CreatedAt u1) | Some r \<Rightarrow> ur_created_at r"],
      use assms(2) u1(2) v in \<open>cases u1; auto simp: UserProjector_GetCurrent_def upsert_user_def
         split: if_splits option.splits\<close>, simp)
qed

lemma ProductProjector_GetCurrent_Apply:
  assumes "ProductProjector_Apply fl e d = (Inr (), d')"
    "ProductProjector_GetCurrent fl d' (se_AggregateID e) = Inr u"
  obtains u1 c where "product_Apply e (product_New (se_AggregateID e)) = Inr u1"
    "u = u1\<lparr>p_CreatedAt := from_micros c, p_UpdatedAt := from_micros (to_micros (p_UpdatedAt u1))\<rparr>"
    "d_products d (se_AggregateID e) = None \<Longrightarrow> c = to_micros (p_CreatedAt u1)"
proof -
  obtain u1 where u1: "product_Apply e (product_New (se_AggregateID e)) = Inr u1" "d' = upsert_product u1 d"
    using assms(1) by (auto simp: ProductProjector_Apply_def split: sum.splits if_splits)
  have v: "p_ID u1 = se_AggregateID e" using product_Apply_version [OF u1(1)] by simp
  show ?thesis
    by (rule that [OF u1(1), of "case d_products d (se_AggregateID e) of
          None \<Rightarrow> to_micros (p_CreatedAt u1) | Some r \<Rightarrow> pr_created_at r"],
      use assms(2) u1(2) v in \<open>cases u1; auto simp: ProductProjector_GetCurrent_def upsert_product_def
         split: if_splits option.splits\<close>, simp)
qed

lemma dec_items_json:
  "pred_option (list_all item_ok) items \<Longrightarrow> unmarshal dec_items (items_json items) None = Some items"
  by (simp add: unmarshal_def)

lemma OrderProjector_GetCurrent_Apply:
  assumes "OrderProjector_Apply fl e d = (Inr (), d')"
    "OrderProjector_GetCurrent fl d' (se_AggregateID e) = Inr u"
    "in_i64 (se_Version e)" "t_loc (se_CreatedAt e) = Local"
  obtains u1 c where "order_Apply e (order_New (se_AggregateID e)) = Inr u1"
    "u = u1\<lparr>o_CreatedAt := from_micros c, o_UpdatedAt := from_micros (to_micros (o_UpdatedAt u1))\<rparr>"
    "d_orders d (se_AggregateID e) = None \<Longrightarrow> c = to_micros (o_CreatedAt u1)"
proof -
  obtain u1 where u1: "order_Apply e (order_New (se_AggregateID e)) = Inr u1" "d' = upsert_order u1 d"
    using assms(1) by (auto simp: OrderProjector_Apply_def split: sum.splits if_splits)
  have "order_local (order_New (se_AggregateID e))"
    by (simp add: order_local_def order_New_def zero_time_def)
  then have "order_local u1" using order_Apply_local [OF u1(1)] assms(3,4) by simp
  then have "unmarshal dec_items (items_json (o_Items u1)) None = Some (o_Items u1)"
    by (intro dec_items_json) (simp add: order_local_def)
  moreover have v: "o_ID u1 = se_AggregateID e" using order_Apply_version [OF u1(1)] by simp
  ultimately show ?thesis
    by (intro that [OF u1(1), of "case d_orders d (se_AggregateID e) of
          None \<Rightarrow> to_micros (o_CreatedAt u1) | Some r \<Rightarrow> or_created_at r"],
      use assms(2) u1(2) in \<open>cases u1; auto simp: OrderProjector_GetCurrent_def upsert_order_def
         split: if_splits option.splits\<close>, simp)
qed

end
