(* ===== verification/Command_Service.thy ===== *)
theory Command_Service
  imports Projection
begin

text \<open>
  \<open>internal/platform/commands.go\<close>: appending an event under optimistic concurrency control, and the
  idempotency keys.
\<close>

section \<open>Appending\<close>

record command_service =
  cs_projector :: "faults \<Rightarrow> stored_event \<Rightarrow> db \<Rightarrow> unit result \<times> db"
  cs_aggregateType :: string
  cs_snapshotEvery :: i64

record append_request =
  aq_ID :: string
  aq_ExpectedVersion :: "i64 option"
  aq_EventType :: string
  aq_Payload :: json
  aq_Metadata :: event_metadata
  aq_IsCreate :: bool

text \<open>The checks between reading the current version and writing.\<close>

definition append_guard :: "append_request \<Rightarrow> i64 \<Rightarrow> error option" where
  "append_guard req current =
     (if (case aq_ExpectedVersion req of None \<Rightarrow> False | Some v \<Rightarrow> v \<noteq> current) then Some ErrVersionMismatch
      else if aq_IsCreate req \<and> 0 < current then Some ErrConflict
      else if \<not> aq_IsCreate req \<and> current = 0 then Some ErrNotFound
      else None)"

definition next_event :: "command_service \<Rightarrow> append_request \<Rightarrow> i64 \<Rightarrow> append_event" where
  "next_event s req current = \<lparr>ae_AggregateType = cs_aggregateType s, ae_AggregateID = aq_ID req,
     ae_EventType = aq_EventType req, ae_Version = wrap64 (current + 1),
     ae_Payload = aq_Payload req, ae_Metadata = aq_Metadata req\<rparr>"

text \<open>
  The writes of the transaction that began at \<open>now\<close>, up to its commit; the deferred rollback
  undoes them on every error. A commit that fails is one the server did not carry out.
\<close>

definition write_event :: "command_service \<Rightarrow> faults \<Rightarrow> int \<Rightarrow> append_request \<Rightarrow> i64 \<Rightarrow> db \<Rightarrow> stored_event result \<times> db" where
  "write_event s fl now req current d =
     (case store_append fl now (next_event s req current) d of
        (Inl e, d1) \<Rightarrow> (Inl e, rollback d d1)
      | (Inr stored, d1) \<Rightarrow> (case cs_projector s fl stored d1 of
            (Inl e, d2) \<Rightarrow> (Inl e, rollback d d2)
          | (Inr _, d2) \<Rightarrow> if fl CallCommit then (Inl (ErrDb CallCommit), rollback d d2)
                         else (Inr stored, d2)))"

text \<open>
  \<open>LatestVersion\<close> reads on another connection than the transaction, so it sees committed rows
  only. The goroutine \<open>maybeSnapshot\<close> that \<open>Append\<close> may start does nothing.
\<close>

definition Append :: "command_service \<Rightarrow> faults \<Rightarrow> int \<Rightarrow> append_request \<Rightarrow> db \<Rightarrow> stored_event result \<times> db" where
  "Append s fl now req d =
     (if fl CallBegin then (Inl (ErrDb CallBegin), d)
      else (case LatestVersion fl d (cs_aggregateType s) (aq_ID req) of
              Inl e \<Rightarrow> (Inl e, d)
            | Inr current \<Rightarrow> (case append_guard req current of
                  Some e \<Rightarrow> (Inl e, d)
                | None \<Rightarrow> write_event s fl now req current d)))"

definition cmd_maybeSnapshot :: "command_service \<Rightarrow> stored_event \<Rightarrow> db \<Rightarrow> db" where
  "cmd_maybeSnapshot s event d = d"

section \<open>Idempotency keys\<close>

text \<open>\<open>ON CONFLICT (key) DO NOTHING\<close>: the first answer stored under a key stays.\<close>

definition Idempotency_Store :: "faults \<Rightarrow> int \<Rightarrow> string \<Rightarrow> json \<Rightarrow> int \<Rightarrow> int \<Rightarrow> db \<Rightarrow> unit result \<times> db" where
  "Idempotency_Store fl now key body status ttl d =
     (if fl CallIdempotencyStore then (Inl (ErrDb CallIdempotencyStore), d)
      else (case d_idempotency d key of
              Some r \<Rightarrow> (Inr (), d)
            | None \<Rightarrow> (Inr (), d\<lparr>d_idempotency := (d_idempotency d)(key \<mapsto>
                \<lparr>ik_response_body = body, ik_status_code = status, ik_expires_at = now + ttl\<rparr>)\<rparr>)))"

definition Idempotency_Get :: "faults \<Rightarrow> int \<Rightarrow> db \<Rightarrow> string \<Rightarrow> (json \<times> int) option result" where
  "Idempotency_Get fl now d key =
     (if fl CallIdempotencyGet then Inl (ErrDb CallIdempotencyGet)
      else Inr (case d_idempotency d key of
                  None \<Rightarrow> None
                | Some r \<Rightarrow> if now < ik_expires_at r then Some (ik_response_body r, ik_status_code r)
                           else None))"

section \<open>Lemmas\<close>

text \<open>A command that fails leaves every table as it was.\<close>

lemma write_event_Inl:
  "write_event s fl now req current d = (Inl e, d') \<Longrightarrow> tables d' = tables d"
  by (auto simp: write_event_def split: prod.splits sum.splits if_splits)

lemma Append_Inl: "Append s fl now req d = (Inl e, d') \<Longrightarrow> tables d' = tables d"
  by (auto simp: Append_def dest: write_event_Inl split: if_splits sum.splits option.splits)

lemma tables_eqD:
  "tables d' = tables d \<Longrightarrow> d_events d' = d_events d \<and> d_outbox d' = d_outbox d \<and>
     d_snapshots d' = d_snapshots d \<and> d_users d' = d_users d \<and> d_products d' = d_products d \<and>
     d_orders d' = d_orders d \<and> d_idempotency d' = d_idempotency d"
  by (cases d; cases d') (simp add: tables_def)

text \<open>The current version a command read is at most the one at the time it writes.\<close>

definition version_read :: "command_service \<Rightarrow> append_request \<Rightarrow> i64 \<Rightarrow> db \<Rightarrow> bool" where
  "version_read s req current d \<longleftrightarrow> 0 \<le> current \<and>
     current \<le> int (length (aggregate_rows (cs_aggregateType s) (aq_ID req) (d_events d)))"

lemma next_event_version:
  assumes "db_ok d" "version_read s req current d" "d_event_seq d < 9223372036854775807"
  shows "ae_Version (next_event s req current) = current + 1"
proof -
  have "current < 9223372036854775807"
    using assms length_aggregate_rows [of "cs_aggregateType s" "aq_ID req" "d_events d"]
    by (simp add: db_ok_def version_read_def)
  then show ?thesis
    using assms(2) by (simp add: next_event_def version_read_def wrap64_id in_i64_def)
qed

lemma version_taken_next:
  assumes "db_ok d" "version_read s req current d" "d_event_seq d < 9223372036854775807"
  shows "version_taken (next_event s req current) (d_events d) \<longleftrightarrow>
    current < int (length (aggregate_rows (cs_aggregateType s) (aq_ID req) (d_events d)))"
proof -
  have "versions_from_1 (aggregate_rows (cs_aggregateType s) (aq_ID req) (d_events d))"
    using assms(1) by (simp add: db_ok_def log_ok_def)
  then show ?thesis
    using version_taken_iff [of "next_event s req current" "d_events d"] next_event_version [OF assms] assms(2)
    by (simp add: next_event_def version_read_def add1_zle_eq)
qed

text \<open>A command whose version was overtaken is refused.\<close>

lemma write_event_overtaken:
  assumes "db_ok d" "version_read s req current d" "d_event_seq d < 9223372036854775807"
    "current < int (length (aggregate_rows (cs_aggregateType s) (aq_ID req) (d_events d)))"
    "\<not> fl CallInsertEvent"
  shows "fst (write_event s fl now req current d) = Inl ErrConflict"
  using assms(4,5) version_taken_next [OF assms(1-3)] nextval_Some [of "d_event_seq d"] assms(3)
  by (simp add: write_event_def store_append_taken [where i = "d_event_seq d + 1"])

context projector
begin

lemma write_event_Inr:
  assumes "cs_projector s = apply_event" "write_event s fl now req current d = (Inr stored, d')"
  obtains d1 where "store_append fl now (next_event s req current) d = (Inr stored, d1)"
    "apply_event fl stored d1 = (Inr (), d')" "d_events d' = d_events d1" "d_outbox d' = d_outbox d1"
    "d_event_seq d' = d_event_seq d1" "d_snapshots d' = d_snapshots d1"
  using assms events_unchanged outbox_unchanged seqs_unchanged
  by (force simp: write_event_def split: prod.splits sum.splits if_splits)

text \<open>A write that succeeds appends the next version of the aggregate, and nothing else.\<close>

lemma write_event_appends:
  assumes s: "cs_projector s = apply_event"
    and w: "write_event s fl now req current d = (Inr stored, d')"
    and d: "db_ok d" "version_read s req current d"
  shows "current = int (length (aggregate_rows (cs_aggregateType s) (aq_ID req) (d_events d)))"
    "stored = event_of now (d_event_seq d + 1) (next_event s req current)"
    "se_Version stored = current + 1"
    "d_events d' = d_events d @ [new_event_row now (d_event_seq d + 1) (next_event s req current)]"
    "d_snapshots d' = d_snapshots d"
    "d_event_seq d' = d_event_seq d + 1"
proof -
  from write_event_Inr [OF s w] obtain d1 where d1:
    "store_append fl now (next_event s req current) d = (Inr stored, d1)"
    "d_events d' = d_events d1" "d_event_seq d' = d_event_seq d1" "d_snapshots d' = d_snapshots d1"
    by metis
  from store_append_Inr [OF d1(1)] obtain i n where
    "nextval (d_event_seq d) = Some i" "\<not> version_taken (next_event s req current) (d_events d)"
    "stored = event_of now i (next_event s req current)"
    "d1 = d\<lparr>d_event_seq := i, d_events := d_events d @ [new_event_row now i (next_event s req current)],
       d_outbox_seq := n, d_outbox := d_outbox d @ [\<lparr>ob_id = n,
         ob_aggregate_type = ae_AggregateType (next_event s req current),
         ob_aggregate_id = ae_AggregateID (next_event s req current), ob_event_id = i,
         ob_payload = outbox_payload stored (ae_Payload (next_event s req current)), ob_published = False\<rparr>]\<rparr>"
    by metis
  then have k:
    "nextval (d_event_seq d) = Some (d_event_seq d + 1)" "\<not> version_taken (next_event s req current) (d_events d)"
    "stored = event_of now (d_event_seq d + 1) (next_event s req current)"
    "d_events d1 = d_events d @ [new_event_row now (d_event_seq d + 1) (next_event s req current)]"
    "d_event_seq d1 = d_event_seq d + 1" "d_snapshots d1 = d_snapshots d"
    by simp_all
  have seq: "d_event_seq d < 9223372036854775807" using k(1) by simp
  show "current = int (length (aggregate_rows (cs_aggregateType s) (aq_ID req) (d_events d)))"
    using k(2) version_taken_next [OF d seq] d(2) by (simp add: version_read_def)
  show "se_Version stored = current + 1"
    using k(3) next_event_version [OF d seq] by (simp add: event_of_def)
  show "stored = event_of now (d_event_seq d + 1) (next_event s req current)" by (rule k(3))
  show "d_events d' = d_events d @ [new_event_row now (d_event_seq d + 1) (next_event s req current)]"
    "d_snapshots d' = d_snapshots d" "d_event_seq d' = d_event_seq d + 1"
    using d1 k by simp_all
qed

text \<open>Every write, successful or not, keeps the invariants.\<close>

lemma write_event_rollback:
  assumes "cs_projector s = apply_event" "write_event s fl now req current d = (Inl x, d')"
  obtains d1 where "d' = rollback d d1"
    "d_event_seq d1 = d_event_seq d \<or> nextval (d_event_seq d) = Some (d_event_seq d1)"
proof (cases "store_append fl now (next_event s req current) d")
  case (Pair r d1)
  show ?thesis
  proof (cases r)
    case (Inl y)
    with Pair have "d' = rollback d d1" using assms(2) by (simp add: write_event_def)
    then show ?thesis using that store_append_Inl(1) [of fl now _ d y d1] Pair Inl by blast
  next
    case (Inr stored)
    then have "nextval (d_event_seq d) = Some (d_event_seq d1)"
      using store_append_seq Pair by blast
    moreover obtain r2 d2 where p: "apply_event fl stored d1 = (r2, d2)" by force
    moreover have "d' = rollback d d2"
      using assms Pair Inr p by (auto simp: write_event_def split: sum.splits if_splits)
    ultimately show ?thesis using that seqs_unchanged [OF p] by metis
  qed
qed

lemma write_event_outbox:
  assumes "cs_projector s = apply_event" "write_event s fl now req current d = (Inr stored, d')"
  shows "\<exists>k. d_outbox d' = d_outbox d @ [\<lparr>ob_id = k, ob_aggregate_type = cs_aggregateType s,
     ob_aggregate_id = aq_ID req, ob_event_id = se_ID stored,
     ob_payload = outbox_payload stored (aq_Payload req), ob_published = False\<rparr>]"
proof -
  from write_event_Inr [OF assms] obtain d1 where d1:
    "store_append fl now (next_event s req current) d = (Inr stored, d1)" "d_outbox d' = d_outbox d1"
    by metis
  then show ?thesis
    by (auto elim!: store_append_Inr simp: next_event_def event_of_def)
qed

lemma write_event_read_model:
  assumes s: "cs_projector s = apply_event" "cs_aggregateType s = ty"
    and w: "write_event s fl now req current d = (Inr stored, d')"
  shows "read_version ty (aq_ID req) d' = Some (se_Version stored)"
    "(ty', i) \<noteq> (ty, aq_ID req) \<Longrightarrow> read_version ty' i d' = read_version ty' i d"
proof -
  from write_event_Inr [OF s(1) w] obtain d1 where d1:
    "store_append fl now (next_event s req current) d = (Inr stored, d1)"
    "apply_event fl stored d1 = (Inr (), d')"
    by metis
  from d1(1) have st: "se_AggregateID stored = aq_ID req" "read_version ty' i d1 = read_version ty' i d"
    by (auto elim!: store_append_Inr simp: event_of_def next_event_def intro: read_version_cong)
  show "read_version ty (aq_ID req) d' = Some (se_Version stored)"
    using shows_version [OF d1(2)] st by simp
  show "(ty', i) \<noteq> (ty, aq_ID req) \<Longrightarrow> read_version ty' i d' = read_version ty' i d"
    using others [OF d1(2), of ty' i] st by simp
qed

lemma read_model_ok_tables: "tables d' = tables d \<Longrightarrow> read_model_ok d \<Longrightarrow> read_model_ok d'"
  using tables_eqD [of d' d] read_version_cong [of d' d] by (simp add: read_model_ok_def)

lemma write_event_keeps:
  assumes s: "cs_projector s = apply_event" "cs_aggregateType s = ty"
    and w: "write_event s fl now req current d = (res, d')"
    and d: "db_ok d" "version_read s req current d"
  shows "db_ok d'" "outbox_ok d \<Longrightarrow> outbox_ok d'" "read_model_ok d \<Longrightarrow> read_model_ok d'"
proof -
  show "db_ok d'"
  proof (cases res)
    case (Inl x)
    with w obtain d1 where "d' = rollback d d1"
      "d_event_seq d1 = d_event_seq d \<or> nextval (d_event_seq d) = Some (d_event_seq d1)"
      using write_event_rollback [OF s(1)] by metis
    then show ?thesis using d(1) db_ok_rollback by blast
  next
    case (Inr stored)
    note a = write_event_appends [OF s(1) w [unfolded Inr] d]
    have "d_event_seq d < 9223372036854775807"
      using write_event_Inr [OF s(1) w [unfolded Inr]] by (metis nextval_Some store_append_seq)
    moreover have "log_ok (d_events d')"
      unfolding a(4) using d(1) a(1) a(2) a(3)
      by (intro log_ok_snoc) (auto simp: db_ok_def event_of_def next_event_def)
    ultimately show ?thesis using d(1) a(4,6) by (auto simp: db_ok_def new_event_row_def)
  qed
  show "outbox_ok d \<Longrightarrow> outbox_ok d'"
  proof (cases res)
    case (Inl x)
    then show "outbox_ok d \<Longrightarrow> outbox_ok d'"
      using tables_eqD [OF write_event_Inl [OF w [unfolded Inl]]] by (simp add: outbox_ok_def)
  next
    case (Inr stored)
    from write_event_appends(2,4) [OF s(1) w [unfolded Inr] d] write_event_outbox [OF s(1) w [unfolded Inr]]
    show "outbox_ok d \<Longrightarrow> outbox_ok d'"
      by (auto simp: outbox_ok_def new_event_row_def event_of_def next_event_def)
  qed
  show "read_model_ok d \<Longrightarrow> read_model_ok d'"
  proof (cases res)
    case (Inl x)
    then show "read_model_ok d \<Longrightarrow> read_model_ok d'"
      using read_model_ok_tables [OF write_event_Inl [OF w [unfolded Inl]]] by simp
  next
    case (Inr stored)
    note a = write_event_appends [OF s(1) w [unfolded Inr] d]
    show "read_model_ok d \<Longrightarrow> read_model_ok d'"
      using write_event_read_model [OF s w [unfolded Inr]] a(1,3) s(2)
      by (auto simp: read_model_ok_def a(4) aggregate_rows_append new_event_row_def next_event_def Let_def)
  qed
qed

end

text \<open>An append that succeeds read the current version and wrote the next one.\<close>

lemma Append_Inr:
  assumes "db_ok d" "Append s fl now req d = (Inr stored, d')"
  obtains n where "n = int (length (aggregate_rows (cs_aggregateType s) (aq_ID req) (d_events d)))"
    "version_read s req n d" "append_guard req n = None" "write_event s fl now req n d = (Inr stored, d')"
proof -
  let ?n = "int (length (aggregate_rows (cs_aggregateType s) (aq_ID req) (d_events d)))"
  have f: "\<not> fl CallLatestVersion" "\<not> fl CallBegin"
    using assms(2) by (auto simp: Append_def LatestVersion_def split: if_splits)
  have "log_ok (d_events d)" using assms(1) by (simp add: db_ok_def)
  then have "LatestVersion fl d (cs_aggregateType s) (aq_ID req) = Inr ?n"
    by (rule LatestVersion_log_ok) (rule f)
  then have "append_guard req ?n = None" "write_event s fl now req ?n d = (Inr stored, d')"
    using assms(2) f by (simp_all add: Append_def split: option.splits)
  then show ?thesis using that by (simp add: version_read_def)
qed

lemma Append_keeps:
  assumes "projector (cs_projector s) (cs_aggregateType s)" "db_ok d" "Append s fl now req d = (res, d')"
  shows "db_ok d'" "outbox_ok d \<Longrightarrow> outbox_ok d'" "read_model_ok d \<Longrightarrow> read_model_ok d'"
proof -
  let ?n = "int (length (aggregate_rows (cs_aggregateType s) (aq_ID req) (d_events d)))"
  consider "d' = d" | "write_event s fl now req ?n d = (res, d')"
    using assms(3) LatestVersion_log_ok [of d fl "cs_aggregateType s" "aq_ID req"] assms(2)
    by (auto simp: Append_def db_ok_def LatestVersion_def split: if_splits sum.splits option.splits)
  then have "db_ok d' \<and> (outbox_ok d \<longrightarrow> outbox_ok d') \<and> (read_model_ok d \<longrightarrow> read_model_ok d')"
  proof cases
    case 2
    then show ?thesis
      using projector.write_event_keeps [OF assms(1) refl refl 2 assms(2)] by (simp add: version_read_def)
  qed (simp add: assms(2))
  then show "db_ok d'" "outbox_ok d \<Longrightarrow> outbox_ok d'" "read_model_ok d \<Longrightarrow> read_model_ok d'" by auto
qed

end
