(* ===== verification/Snapshot_Store.thy ===== *)
theory Snapshot_Store
  imports Database
begin

text \<open>
  \<open>internal/snapshot/store.go\<close>: the latest snapshot of an aggregate, and saving one.
\<close>

section \<open>Operations\<close>

definition scan_snapshot :: "snapshot_row \<Rightarrow> snapshot" where
  "scan_snapshot r = \<lparr>sn_ID = ss_id r, sn_AggregateType = ss_aggregate_type r,
     sn_AggregateID = ss_aggregate_id r, sn_Version = ss_version r, sn_State = ss_state r,
     sn_CreatedAt = from_micros (ss_created_at r)\<rparr>"

definition snapshot_rows :: "string \<Rightarrow> string \<Rightarrow> snapshot_row list \<Rightarrow> snapshot_row list" where
  "snapshot_rows ty i rows = filter (\<lambda>r. ss_aggregate_type r = ty \<and> ss_aggregate_id r = i) rows"

text \<open>\<open>ORDER BY version DESC LIMIT 1\<close>; no row is not an error.\<close>

definition Latest :: "faults \<Rightarrow> db \<Rightarrow> string \<Rightarrow> string \<Rightarrow> snapshot option result" where
  "Latest fl d aggregateType aggregateID =
     (if fl CallLatestSnapshot then Inl (ErrDb CallLatestSnapshot)
      else (case sort_key (\<lambda>r. - ss_version r) (snapshot_rows aggregateType aggregateID (d_snapshots d)) of
              [] \<Rightarrow> Inr None
            | r # _ \<Rightarrow> Inr (Some (scan_snapshot r))))"

text \<open>
  The insertion draws an identity before it meets the unique constraint on type, identifier and
  version; on a conflict only the state of the row that is there is replaced. A nil state is
  \<open>NULL\<close>, which the column refuses.
\<close>

definition same_snapshot :: "string \<Rightarrow> string \<Rightarrow> i64 \<Rightarrow> snapshot_row \<Rightarrow> bool" where
  "same_snapshot ty i v r \<longleftrightarrow>
     ss_aggregate_type r = ty \<and> ss_aggregate_id r = i \<and> ss_version r = v"

definition Save :: "faults \<Rightarrow> int \<Rightarrow> string \<Rightarrow> string \<Rightarrow> i64 \<Rightarrow> json option \<Rightarrow> db \<Rightarrow> unit result \<times> db" where
  "Save fl now aggregateType aggregateID version state d =
     (if fl CallSaveSnapshot then (Inl (ErrDb CallSaveSnapshot), d)
      else (case nextval (d_snapshot_seq d) of
          None \<Rightarrow> (Inl (ErrDb CallSaveSnapshot), d)
        | Some n \<Rightarrow> (let d1 = d\<lparr>d_snapshot_seq := n\<rparr>
            in case state of
                 None \<Rightarrow> (Inl (ErrDb CallSaveSnapshot), d1)
               | Some st \<Rightarrow>
                   if list_ex (same_snapshot aggregateType aggregateID version) (d_snapshots d)
                   then (Inr (), d1\<lparr>d_snapshots := map (\<lambda>r.
                           if same_snapshot aggregateType aggregateID version r
                           then r\<lparr>ss_state := st\<rparr> else r) (d_snapshots d)\<rparr>)
                   else (Inr (), d1\<lparr>d_snapshots := d_snapshots d @
                           [\<lparr>ss_id = n, ss_aggregate_type = aggregateType,
                             ss_aggregate_id = aggregateID, ss_version = version,
                             ss_state = st, ss_created_at = now\<rparr>]\<rparr>))))"

section \<open>Lemmas\<close>

lemma snapshot_rows_iff:
  "r \<in> set (snapshot_rows ty i rows) \<longleftrightarrow> r \<in> set rows \<and> ss_aggregate_type r = ty \<and> ss_aggregate_id r = i"
  by (auto simp: snapshot_rows_def)

lemma Latest_None:
  "Latest fl d ty i = Inr None \<longleftrightarrow> \<not> fl CallLatestSnapshot \<and> snapshot_rows ty i (d_snapshots d) = []"
  by (auto simp: Latest_def split: list.splits)
    (metis length_sort length_0_conv list.distinct(1))+

lemma Latest_SomeD:
  assumes "Latest fl d ty i = Inr (Some s)"
  obtains r where "r \<in> set (snapshot_rows ty i (d_snapshots d))" "s = scan_snapshot r"
    "\<And>r'. r' \<in> set (snapshot_rows ty i (d_snapshots d)) \<Longrightarrow> ss_version r' \<le> ss_version r"
proof -
  let ?rows = "snapshot_rows ty i (d_snapshots d)"
  obtain r rs where s: "sort_key (\<lambda>r. - ss_version r) ?rows = r # rs" "s = scan_snapshot r"
    using assms by (auto simp: Latest_def split: if_splits list.splits)
  have set: "set (r # rs) = set ?rows" using s(1) by (metis set_sort)
  have "sorted (map (\<lambda>r. - ss_version r) (r # rs))" using s(1) by (metis sorted_sort_key)
  then have "\<And>r'. r' \<in> set (r # rs) \<Longrightarrow> ss_version r' \<le> ss_version r" by auto
  with s(2) set that show ?thesis by auto
qed

lemma Latest_cases:
  assumes "\<not> fl CallLatestSnapshot"
  obtains "Latest fl d ty i = Inr None" | s where "Latest fl d ty i = Inr (Some s)"
  using assms
  by (cases "sort_key (\<lambda>r. - ss_version r) (snapshot_rows ty i (d_snapshots d))") (auto simp: Latest_def)

lemma Save_others:
  "Save fl now ty i v st d = (res, d') \<Longrightarrow>
     d_events d' = d_events d \<and> d_outbox d' = d_outbox d \<and> d_users d' = d_users d \<and>
     d_products d' = d_products d \<and> d_orders d' = d_orders d \<and> d_idempotency d' = d_idempotency d \<and>
     d_event_seq d' = d_event_seq d \<and> d_outbox_seq d' = d_outbox_seq d"
  by (auto simp: Save_def Let_def split: if_splits option.splits)

text \<open>Every snapshot after a save was there before, or is the one that was saved.\<close>

lemma Save_rows:
  assumes "Save fl now ty i v st d = (res, d')" "r \<in> set (d_snapshots d')"
  shows "r \<in> set (d_snapshots d) \<or>
    ss_aggregate_type r = ty \<and> ss_aggregate_id r = i \<and> ss_version r = v \<and> st = Some (ss_state r)"
  using assms
  by (auto simp: Save_def Let_def same_snapshot_def split: if_splits option.splits)

lemma Save_stored:
  assumes "Save fl now ty i v (Some st) d = (Inr (), d')"
  shows "\<exists>r \<in> set (d_snapshots d'). same_snapshot ty i v r \<and> ss_state r = st"
proof (cases "list_ex (same_snapshot ty i v) (d_snapshots d)")
  case True
  then obtain r where r: "r \<in> set (d_snapshots d)" "same_snapshot ty i v r"
    by (auto simp: list_ex_iff)
  then have "r\<lparr>ss_state := st\<rparr> \<in> set (d_snapshots d')"
    using assms True by (force simp: Save_def Let_def split: if_splits option.splits)
  with r show ?thesis by (intro bexI [of _ "r\<lparr>ss_state := st\<rparr>"]) (auto simp: same_snapshot_def)
next
  case False
  then show ?thesis
    using assms by (auto simp: Save_def Let_def same_snapshot_def split: if_splits option.splits)
qed

end
