(* ===== verification/User_Service.thy ===== *)
theory User_Service
  imports Command_Service Snapshot_Store
begin

text \<open>
  \<open>internal/user/service.go\<close>: the commands on users. The service has its own copy of the append
  of \<open>internal/platform/commands.go\<close>, followed by a read of the read model and, every so many
  versions, a goroutine that saves a snapshot.
\<close>

section \<open>Commands\<close>

record user_create_command =
  ucc_ID :: string
  ucc_Name :: string
  ucc_Email :: string
  ucc_ExpectedVersion :: "i64 option"
  ucc_Metadata :: event_metadata

record user_update_command =
  uuc_ID :: string
  uuc_Name :: "string option"
  uuc_Email :: "string option"
  uuc_Address :: "string option"
  uuc_Avatar :: "string option"
  uuc_ExpectedVersion :: "i64 option"
  uuc_Metadata :: event_metadata

record user_delete_command =
  udc_ID :: string
  udc_ExpectedVersion :: "i64 option"
  udc_Metadata :: event_metadata

section \<open>Operations\<close>

text \<open>
  The second component of the result is the user a snapshot goroutine is started with, when one is
  started; \<open>user_maybeSnapshot\<close> is that goroutine, which runs at some later time.
\<close>

definition user_append :: "i64 \<Rightarrow> faults \<Rightarrow> int \<Rightarrow> string \<Rightarrow> i64 option \<Rightarrow> string \<Rightarrow> json \<Rightarrow> event_metadata
    \<Rightarrow> db \<Rightarrow> (user result \<times> user option) \<times> db" where
  "user_append snapshotN fl now i expected eventType payload meta d =
     (if fl CallBegin then ((Inl (ErrDb CallBegin), None), d)
      else (case LatestVersion fl d AggregateUser i of
          Inl e \<Rightarrow> ((Inl e, None), d)
        | Inr current \<Rightarrow>
            if (case expected of None \<Rightarrow> False | Some v \<Rightarrow> v \<noteq> current) then ((Inl ErrVersionMismatch, None), d)
            else if eventType = UserCreated \<and> 0 < current then ((Inl ErrConflict, None), d)
            else if eventType \<noteq> UserCreated \<and> current = 0 then ((Inl ErrNotFound, None), d)
            else (let nextVersion = wrap64 (current + 1)
              in case store_append fl now \<lparr>ae_AggregateType = AggregateUser, ae_AggregateID = i,
                     ae_EventType = eventType, ae_Version = nextVersion, ae_Payload = payload,
                     ae_Metadata = meta\<rparr> d of
                   (Inl e, d1) \<Rightarrow> ((Inl e, None), rollback d d1)
                 | (Inr stored, d1) \<Rightarrow> (case UserProjector_Apply fl stored d1 of
                       (Inl e, d2) \<Rightarrow> ((Inl e, None), rollback d d2)
                     | (Inr _, d2) \<Rightarrow>
                         if fl CallCommit then ((Inl (ErrDb CallCommit), None), rollback d d2)
                         else (case UserProjector_GetCurrent fl d2 i of
                                 Inl e \<Rightarrow> ((Inl e, None), d2)
                               | Inr u \<Rightarrow> ((Inr u, if 0 < snapshotN \<and> nextVersion mod snapshotN = 0
                                                 then Some u else None), d2))))))"

definition user_maybeSnapshot :: "faults \<Rightarrow> int \<Rightarrow> user \<Rightarrow> db \<Rightarrow> db" where
  "user_maybeSnapshot fl now u d =
     (case user_MarshalSnapshot u of
        None \<Rightarrow> d
      | Some state \<Rightarrow> snd (Save fl now AggregateUser (u_ID u) (u_Version u) (Some state) d))"

definition user_Create :: "i64 \<Rightarrow> faults \<Rightarrow> int \<Rightarrow> user_create_command \<Rightarrow> db \<Rightarrow> (user result \<times> user option) \<times> db" where
  "user_Create snapshotN fl now cmd d =
     user_append snapshotN fl now (ucc_ID cmd) (ucc_ExpectedVersion cmd) UserCreated
       (user_created_json \<lparr>uc_Name = ucc_Name cmd, uc_Email = ucc_Email cmd\<rparr>) (ucc_Metadata cmd) d"

definition user_Update :: "i64 \<Rightarrow> faults \<Rightarrow> int \<Rightarrow> user_update_command \<Rightarrow> db \<Rightarrow> (user result \<times> user option) \<times> db" where
  "user_Update snapshotN fl now cmd d =
     user_append snapshotN fl now (uuc_ID cmd) (uuc_ExpectedVersion cmd) UserUpdated
       (user_updated_json \<lparr>uu_Name = uuc_Name cmd, uu_Email = uuc_Email cmd,
          uu_Address = uuc_Address cmd, uu_Avatar = uuc_Avatar cmd\<rparr>) (uuc_Metadata cmd) d"

definition user_Delete :: "i64 \<Rightarrow> faults \<Rightarrow> int \<Rightarrow> user_delete_command \<Rightarrow> db \<Rightarrow> (user result \<times> user option) \<times> db" where
  "user_Delete snapshotN fl now cmd d =
     user_append snapshotN fl now (udc_ID cmd) (udc_ExpectedVersion cmd) UserDeleted
       (JObj []) (udc_Metadata cmd) d"

text \<open>The service's own copies of the idempotency statements are those of the platform.\<close>

definition user_StoreIdempotency :: "faults \<Rightarrow> int \<Rightarrow> string \<Rightarrow> json \<Rightarrow> int \<Rightarrow> int \<Rightarrow> db \<Rightarrow> unit result \<times> db" where
  "user_StoreIdempotency fl now key body status ttl d = Idempotency_Store fl now key body status ttl d"

definition user_GetIdempotency :: "faults \<Rightarrow> int \<Rightarrow> db \<Rightarrow> string \<Rightarrow> (json \<times> int) option result" where
  "user_GetIdempotency fl now d key = Idempotency_Get fl now d key"

section \<open>Lemmas\<close>

text \<open>The same append as a platform command service, whose event makes a create command.\<close>

definition userCmds :: "i64 \<Rightarrow> command_service" where
  "userCmds snapshotN = \<lparr>cs_projector = UserProjector_Apply, cs_aggregateType = AggregateUser,
     cs_snapshotEvery = snapshotN\<rparr>"

definition user_request :: "string \<Rightarrow> i64 option \<Rightarrow> string \<Rightarrow> json \<Rightarrow> event_metadata \<Rightarrow> append_request" where
  "user_request i expected eventType payload meta = \<lparr>aq_ID = i, aq_ExpectedVersion = expected,
     aq_EventType = eventType, aq_Payload = payload, aq_Metadata = meta,
     aq_IsCreate = (eventType = UserCreated)\<rparr>"

lemma user_append_Append:
  "(case user_append n fl now i expected eventType payload meta d of ((r, _), d') \<Rightarrow> (r, d')) =
   (case Append (userCmds n) fl now (user_request i expected eventType payload meta) d of
      (Inl e, d') \<Rightarrow> (Inl e, d')
    | (Inr _, d') \<Rightarrow> (UserProjector_GetCurrent fl d' i, d'))"
  by (auto simp: user_append_def Append_def write_event_def append_guard_def next_event_def
      userCmds_def user_request_def Let_def split: sum.split prod.split option.split)

text \<open>What a command on users stored, seen from the result.\<close>

lemma user_append_Inr:
  assumes "user_append n fl now i expected eventType payload meta d = ((Inr u, job), d')"
  obtains stored where
    "Append (userCmds n) fl now (user_request i expected eventType payload meta) d = (Inr stored, d')"
    "UserProjector_GetCurrent fl d' i = Inr u" "job = None \<or> job = Some u"
proof -
  have "(Inr u, d') = (case Append (userCmds n) fl now (user_request i expected eventType payload meta) d of
      (Inl e, d') \<Rightarrow> (Inl e, d')
    | (Inr _, d') \<Rightarrow> (UserProjector_GetCurrent fl d' i, d'))"
    using user_append_Append [of n fl now i expected eventType payload meta d] assms by simp
  then obtain stored where
    "Append (userCmds n) fl now (user_request i expected eventType payload meta) d = (Inr stored, d')"
    "UserProjector_GetCurrent fl d' i = Inr u"
    by (auto split: prod.splits sum.splits)
  moreover have "job = None \<or> job = Some u"
    using assms by (auto simp: user_append_def Let_def split: sum.splits prod.splits option.splits if_splits)
  ultimately show ?thesis using that by blast
qed

end
