(* ===== verification/Product_Service.thy ===== *)
theory Product_Service
  imports Command_Service
begin

text \<open>\<open>internal/product/service.go\<close>: the commands on products.\<close>

section \<open>Commands\<close>

record product_create_command =
  pcc_ID :: string
  pcc_Name :: string
  pcc_Description :: string
  pcc_PriceCents :: i64
  pcc_Currency :: string
  pcc_Metadata :: event_metadata

record product_update_command =
  puc_ID :: string
  puc_Name :: "string option"
  puc_Description :: "string option"
  puc_PriceCents :: "i64 option"
  puc_Currency :: "string option"
  puc_ExpectedVersion :: "i64 option"
  puc_Metadata :: event_metadata

record product_delete_command =
  pdc_ID :: string
  pdc_ExpectedVersion :: "i64 option"
  pdc_Metadata :: event_metadata

section \<open>Operations\<close>

definition productCmds :: "i64 \<Rightarrow> command_service" where
  "productCmds snapshotEvery = \<lparr>cs_projector = ProductProjector_Apply,
     cs_aggregateType = AggregateProduct, cs_snapshotEvery = snapshotEvery\<rparr>"

definition product_Create :: "i64 \<Rightarrow> faults \<Rightarrow> int \<Rightarrow> product_create_command \<Rightarrow> db \<Rightarrow> product result \<times> db" where
  "product_Create n fl now cmd d =
     (let currency = (if pcc_Currency cmd = [] then ''USD'' else pcc_Currency cmd)
      in case Append (productCmds n) fl now
           \<lparr>aq_ID = pcc_ID cmd, aq_ExpectedVersion = None, aq_EventType = ProductCreated,
            aq_Payload = product_created_json \<lparr>pc_Name = pcc_Name cmd,
              pc_Description = pcc_Description cmd, pc_PriceCents = pcc_PriceCents cmd,
              pc_Currency = currency\<rparr>,
            aq_Metadata = pcc_Metadata cmd, aq_IsCreate = True\<rparr> d of
           (Inl e, d') \<Rightarrow> (Inl e, d')
         | (Inr _, d') \<Rightarrow> (ProductProjector_GetCurrent fl d' (pcc_ID cmd), d'))"

definition product_Update :: "i64 \<Rightarrow> faults \<Rightarrow> int \<Rightarrow> product_update_command \<Rightarrow> db \<Rightarrow> product result \<times> db" where
  "product_Update n fl now cmd d =
     (case Append (productCmds n) fl now
        \<lparr>aq_ID = puc_ID cmd, aq_ExpectedVersion = puc_ExpectedVersion cmd,
         aq_EventType = ProductUpdated,
         aq_Payload = product_updated_json \<lparr>pu_Name = puc_Name cmd,
           pu_Description = puc_Description cmd, pu_PriceCents = puc_PriceCents cmd,
           pu_Currency = puc_Currency cmd\<rparr>,
         aq_Metadata = puc_Metadata cmd, aq_IsCreate = False\<rparr> d of
        (Inl e, d') \<Rightarrow> (Inl e, d')
      | (Inr _, d') \<Rightarrow> (ProductProjector_GetCurrent fl d' (puc_ID cmd), d'))"

definition product_Delete :: "i64 \<Rightarrow> faults \<Rightarrow> int \<Rightarrow> product_delete_command \<Rightarrow> db \<Rightarrow> product result \<times> db" where
  "product_Delete n fl now cmd d =
     (case Append (productCmds n) fl now
        \<lparr>aq_ID = pdc_ID cmd, aq_ExpectedVersion = pdc_ExpectedVersion cmd,
         aq_EventType = ProductDeleted, aq_Payload = JObj [],
         aq_Metadata = pdc_Metadata cmd, aq_IsCreate = False\<rparr> d of
        (Inl e, d') \<Rightarrow> (Inl e, d')
      | (Inr _, d') \<Rightarrow> (ProductProjector_GetCurrent fl d' (pdc_ID cmd), d'))"

definition product_GetCurrent :: "faults \<Rightarrow> db \<Rightarrow> string \<Rightarrow> product result" where
  "product_GetCurrent fl d i = ProductProjector_GetCurrent fl d i"

end
