(* ===== verification/Order_Service.thy ===== *)
theory Order_Service
  imports Command_Service
begin

text \<open>\<open>internal/order/service.go\<close>: the commands on orders.\<close>

section \<open>Commands\<close>

record order_create_command =
  occ_ID :: string
  occ_UserID :: string
  occ_Items :: "item list option"
  occ_Currency :: string
  occ_Metadata :: event_metadata

record order_update_command =
  ouc_ID :: string
  ouc_Status :: "string option"
  ouc_ExpectedVersion :: "i64 option"
  ouc_Metadata :: event_metadata

record order_cancel_command =
  oxc_ID :: string
  oxc_ExpectedVersion :: "i64 option"
  oxc_Metadata :: event_metadata

record order_add_item_command =
  oac_ID :: string
  oac_Item :: item
  oac_ExpectedVersion :: "i64 option"
  oac_Metadata :: event_metadata

section \<open>Operations\<close>

definition orderCmds :: "i64 \<Rightarrow> command_service" where
  "orderCmds snapshotEvery = \<lparr>cs_projector = OrderProjector_Apply,
     cs_aggregateType = AggregateOrder, cs_snapshotEvery = snapshotEvery\<rparr>"

definition order_Create :: "i64 \<Rightarrow> faults \<Rightarrow> int \<Rightarrow> order_create_command \<Rightarrow> db \<Rightarrow> order result \<times> db" where
  "order_Create n fl now cmd d =
     (let currency = (if occ_Currency cmd = [] then ''USD'' else occ_Currency cmd);
          tot = foldl add_item_cents 0 (item_list (occ_Items cmd))
      in case Append (orderCmds n) fl now
           \<lparr>aq_ID = occ_ID cmd, aq_ExpectedVersion = None, aq_EventType = OrderCreated,
            aq_Payload = order_created_json \<lparr>oc_UserID = occ_UserID cmd, oc_Currency = currency,
              oc_TotalCents = tot, oc_Items = occ_Items cmd\<rparr>,
            aq_Metadata = occ_Metadata cmd, aq_IsCreate = True\<rparr> d of
           (Inl e, d') \<Rightarrow> (Inl e, d')
         | (Inr _, d') \<Rightarrow> (OrderProjector_GetCurrent fl d' (occ_ID cmd), d'))"

definition order_Update :: "i64 \<Rightarrow> faults \<Rightarrow> int \<Rightarrow> order_update_command \<Rightarrow> db \<Rightarrow> order result \<times> db" where
  "order_Update n fl now cmd d =
     (case Append (orderCmds n) fl now
        \<lparr>aq_ID = ouc_ID cmd, aq_ExpectedVersion = ouc_ExpectedVersion cmd,
         aq_EventType = OrderUpdated, aq_Payload = order_updated_json \<lparr>ou_Status = ouc_Status cmd\<rparr>,
         aq_Metadata = ouc_Metadata cmd, aq_IsCreate = False\<rparr> d of
        (Inl e, d') \<Rightarrow> (Inl e, d')
      | (Inr _, d') \<Rightarrow> (OrderProjector_GetCurrent fl d' (ouc_ID cmd), d'))"

definition order_Cancel :: "i64 \<Rightarrow> faults \<Rightarrow> int \<Rightarrow> order_cancel_command \<Rightarrow> db \<Rightarrow> order result \<times> db" where
  "order_Cancel n fl now cmd d =
     (case Append (orderCmds n) fl now
        \<lparr>aq_ID = oxc_ID cmd, aq_ExpectedVersion = oxc_ExpectedVersion cmd,
         aq_EventType = OrderCancelled, aq_Payload = JObj [],
         aq_Metadata = oxc_Metadata cmd, aq_IsCreate = False\<rparr> d of
        (Inl e, d') \<Rightarrow> (Inl e, d')
      | (Inr _, d') \<Rightarrow> (OrderProjector_GetCurrent fl d' (oxc_ID cmd), d'))"

definition order_AddItem :: "i64 \<Rightarrow> faults \<Rightarrow> int \<Rightarrow> order_add_item_command \<Rightarrow> db \<Rightarrow> order result \<times> db" where
  "order_AddItem n fl now cmd d =
     (case Append (orderCmds n) fl now
        \<lparr>aq_ID = oac_ID cmd, aq_ExpectedVersion = oac_ExpectedVersion cmd,
         aq_EventType = OrderItemAdded, aq_Payload = item_added_json \<lparr>oa_Item = oac_Item cmd\<rparr>,
         aq_Metadata = oac_Metadata cmd, aq_IsCreate = False\<rparr> d of
        (Inl e, d') \<Rightarrow> (Inl e, d')
      | (Inr _, d') \<Rightarrow> (OrderProjector_GetCurrent fl d' (oac_ID cmd), d'))"

definition order_GetCurrent :: "faults \<Rightarrow> db \<Rightarrow> string \<Rightarrow> order result" where
  "order_GetCurrent fl d i = OrderProjector_GetCurrent fl d i"

end
