(* ===== verification/Replay.thy ===== *)
theory Replay
  imports Snapshot_Store User_Aggregate Product_Aggregate Order_Aggregate
begin

text \<open>
  \<open>internal/replay/engine.go\<close>: rebuilding an aggregate from its latest snapshot and its events.
  The locale \<open>aggregate\<close> is the contract of the three aggregates that makes the engine correct;
  it is interpreted on the models of all three.
\<close>

section \<open>Operations\<close>

text \<open>The interface \<open>Aggregate\<close>; \<open>reset\<close> is \<open>New\<close> again.\<close>

record 'a aggregate_ops =
  ag_New :: "string \<Rightarrow> 'a"
  ag_Apply :: "stored_event \<Rightarrow> 'a \<Rightarrow> 'a result"
  ag_UnmarshalSnapshot :: "json \<Rightarrow> 'a \<Rightarrow> 'a option"
  ag_currentVersion :: "'a \<Rightarrow> i64"

definition userAgg :: "user aggregate_ops" where
  "userAgg = \<lparr>ag_New = user_New, ag_Apply = user_Apply,
     ag_UnmarshalSnapshot = user_UnmarshalSnapshot, ag_currentVersion = u_Version\<rparr>"

definition productAgg :: "product aggregate_ops" where
  "productAgg = \<lparr>ag_New = product_New, ag_Apply = product_Apply,
     ag_UnmarshalSnapshot = product_UnmarshalSnapshot, ag_currentVersion = p_Version\<rparr>"

definition orderAgg :: "order aggregate_ops" where
  "orderAgg = \<lparr>ag_New = order_New, ag_Apply = order_Apply,
     ag_UnmarshalSnapshot = order_UnmarshalSnapshot, ag_currentVersion = o_Version\<rparr>"

text \<open>The loop over the events: what the snapshot already holds is skipped.\<close>

fun apply_events :: "'a aggregate_ops \<Rightarrow> i64 \<Rightarrow> stored_event list \<Rightarrow> 'a \<Rightarrow> 'a result" where
  "apply_events A startVersion [] agg = Inr agg"
| "apply_events A startVersion (ev # events) agg =
     (if se_Version ev \<le> startVersion then apply_events A startVersion events agg
      else (case ag_Apply A ev agg of
              Inl e \<Rightarrow> Inl e
            | Inr agg' \<Rightarrow> apply_events A startVersion events agg'))"

definition use_snapshot :: "replay_query \<Rightarrow> snapshot \<Rightarrow> bool" where
  "use_snapshot query snap \<longleftrightarrow> \<not> (case rq_Version query of None \<Rightarrow> False | Some v \<Rightarrow> v < sn_Version snap)"

definition replay_start :: "'a aggregate_ops \<Rightarrow> string \<Rightarrow> replay_query \<Rightarrow> snapshot option \<Rightarrow> (i64 \<times> 'a) result" where
  "replay_start A i query snap =
     (case snap of
        None \<Rightarrow> Inr (0, ag_New A i)
      | Some s \<Rightarrow>
          if use_snapshot query s then
            (case ag_UnmarshalSnapshot A (sn_State s) (ag_New A i) of
               None \<Rightarrow> Inl ErrJson
             | Some agg \<Rightarrow> Inr (sn_Version s, agg))
          else Inr (0, ag_New A i))"

definition engine_replay :: "'a aggregate_ops \<Rightarrow> faults \<Rightarrow> db \<Rightarrow> string \<Rightarrow> string \<Rightarrow> replay_query \<Rightarrow> 'a result" where
  "engine_replay A fl d aggregateType i query =
     (case Latest fl d aggregateType i of
        Inl e \<Rightarrow> Inl e
      | Inr snap \<Rightarrow> (case replay_start A i query snap of
            Inl e \<Rightarrow> Inl e
          | Inr (startVersion, agg) \<Rightarrow> (case LoadEventsUntil fl d aggregateType i query of
                Inl e \<Rightarrow> Inl e
              | Inr events \<Rightarrow> (case apply_events A startVersion events agg of
                    Inl e \<Rightarrow> Inl e
                  | Inr agg' \<Rightarrow> if ag_currentVersion A agg' = 0 then Inl ErrNotFound else Inr agg'))))"

definition ReplayUser :: "faults \<Rightarrow> db \<Rightarrow> string \<Rightarrow> replay_query \<Rightarrow> user result" where
  "ReplayUser fl d i query = engine_replay userAgg fl d AggregateUser i query"

definition ReplayProduct :: "faults \<Rightarrow> db \<Rightarrow> string \<Rightarrow> replay_query \<Rightarrow> product result" where
  "ReplayProduct fl d i query = engine_replay productAgg fl d AggregateProduct i query"

definition ReplayOrder :: "faults \<Rightarrow> db \<Rightarrow> string \<Rightarrow> replay_query \<Rightarrow> order result" where
  "ReplayOrder fl d i query = engine_replay orderAgg fl d AggregateOrder i query"

section \<open>What a replay promises\<close>

text \<open>The reference: every event of a list applied in turn to a new aggregate.\<close>

fun apply_all :: "'a aggregate_ops \<Rightarrow> stored_event list \<Rightarrow> 'a \<Rightarrow> 'a result" where
  "apply_all A [] a = Inr a"
| "apply_all A (e # es) a = (case ag_Apply A e a of Inl x \<Rightarrow> Inl x | Inr b \<Rightarrow> apply_all A es b)"

definition fold_state :: "'a aggregate_ops \<Rightarrow> string \<Rightarrow> stored_event list \<Rightarrow> 'a result" where
  "fold_state A i es = (case apply_all A es (ag_New A i) of
      Inl x \<Rightarrow> Inl x
    | Inr a \<Rightarrow> if es = [] then Inl ErrNotFound else Inr a)"

text \<open>An event of a good log: a version that fits, a time of the database.\<close>

definition event_ok :: "stored_event \<Rightarrow> bool" where
  "event_ok e \<longleftrightarrow> in_i64 (se_Version e) \<and> 1 \<le> se_Version e \<and> t_loc (se_CreatedAt e) = Local"

text \<open>A snapshot that holds the state its version says.\<close>

definition snapshot_ok :: "'a aggregate_ops \<Rightarrow> ('a \<Rightarrow> json option) \<Rightarrow> stored_event list \<Rightarrow> snapshot_row \<Rightarrow> bool" where
  "snapshot_ok A marshal es r \<longleftrightarrow>
     1 \<le> ss_version r \<and> ss_version r \<le> int (length es) \<and>
     (case apply_all A (take (nat (ss_version r)) es) (ag_New A (ss_aggregate_id r)) of
        Inl x \<Rightarrow> False
      | Inr a \<Rightarrow> marshal a = Some (ss_state r))"

lemma last_event_ok: "list_all event_ok es \<Longrightarrow> es \<noteq> [] \<Longrightarrow> 1 \<le> se_Version (last es)"
  using last_in_set by (auto simp: list_all_iff event_ok_def)

lemma apply_events_filter:
  "apply_events A v es a = apply_all A (filter (\<lambda>e. v < se_Version e) es) a"
  by (induction es arbitrary: a) (auto split: sum.splits)

lemma apply_all_append:
  "apply_all A (es @ fs) a = (case apply_all A es a of Inl x \<Rightarrow> Inl x | Inr b \<Rightarrow> apply_all A fs b)"
  by (induction es arbitrary: a) (auto split: sum.splits)

text \<open>The version a replay starts from.\<close>

definition start_version :: "db \<Rightarrow> string \<Rightarrow> string \<Rightarrow> replay_query \<Rightarrow> i64" where
  "start_version d ty i q = (case Latest no_faults d ty i of
      Inr (Some s) \<Rightarrow> if use_snapshot q s then sn_Version s else 0
    | _ \<Rightarrow> 0)"

text \<open>
  The events a replay applies: those up to the snapshot, all of them whatever the query says, and
  then those after the snapshot that the query selects.
\<close>

definition query_holds :: "replay_query \<Rightarrow> stored_event \<Rightarrow> bool" where
  "query_holds q e \<longleftrightarrow>
     (case rq_Version q of None \<Rightarrow> True | Some v \<Rightarrow> se_Version e \<le> v) \<and>
     (case rq_At q of None \<Rightarrow> True | Some t \<Rightarrow> se_CreatedAt e \<le> t) \<and>
     (case rq_UntilID q of None \<Rightarrow> True | Some n \<Rightarrow> se_ID e \<le> n)"

definition replay_events :: "i64 \<Rightarrow> replay_query \<Rightarrow> stored_event list \<Rightarrow> stored_event list" where
  "replay_events v q es = take (nat v) es @ filter (query_holds q) (drop (nat v) es)"

lemma query_holds_simps [simp]:
  "query_holds empty_query = (\<lambda>e. True)"
  "query_holds (at_version v) = (\<lambda>e. se_Version e \<le> v)"
  "query_holds (at_time t) = (\<lambda>e. se_CreatedAt e \<le> t)"
  by (simp_all add: query_holds_def empty_query_def at_version_def at_time_def fun_eq_iff)

lemma query_holds_scan:
  "scan_event r = Some e \<Longrightarrow> query_holds q e \<longleftrightarrow> until_clause q r"
  by (auto simp: query_holds_def until_clause_def micros_le_iff dest: scan_event_fields split: option.splits)

lemma map_filter_scan_filter:
  "list_all (\<lambda>r. scan_event r \<noteq> None) rows \<Longrightarrow>
     List.map_filter scan_event (filter (until_clause q) rows)
       = filter (query_holds q) (List.map_filter scan_event rows)"
  by (induction rows) (auto simp: map_filter_simps query_holds_scan)

lemma LoadEventsUntil_query:
  "log_ok (d_events d) \<Longrightarrow> \<not> fl CallLoadEvents \<Longrightarrow>
     LoadEventsUntil fl d ty i q = Inr (filter (query_holds q) (aggregate_events ty i (d_events d)))"
  using map_filter_scan_filter [OF aggregate_rows_readable]
  by (simp add: LoadEventsUntil_log_ok aggregate_events_def)

text \<open>Versions that count up from 1 turn the comparisons into prefixes and suffixes.\<close>

definition numbered :: "stored_event list \<Rightarrow> bool" where
  "numbered es \<longleftrightarrow> map se_Version es = map int [1..<Suc (length es)]"

lemma numbered_Nil [simp]: "numbered []"
  by (simp add: numbered_def)

lemma numbered_snoc [simp]:
  "numbered (es @ [e]) \<longleftrightarrow> numbered es \<and> se_Version e = int (length es) + 1"
  by (auto simp: numbered_def)

lemma numbered_filter_le: "numbered es \<Longrightarrow> filter (\<lambda>e. se_Version e \<le> v) es = take (nat v) es"
proof (induction es rule: rev_induct)
  case (snoc e es)
  then show ?case by (cases "se_Version e \<le> v") (auto simp: nat_le_iff)
qed simp

lemma numbered_filter_gt: "numbered es \<Longrightarrow> filter (\<lambda>e. v < se_Version e) es = drop (nat v) es"
proof (induction es rule: rev_induct)
  case (snoc e es)
  then show ?case by (cases "v < se_Version e") (auto simp: nat_le_iff)
qed simp

lemma numbered_take: "numbered es \<Longrightarrow> numbered (take n es)"
  by (induction es rule: rev_induct) (auto simp: take_Cons' min_def le_Suc_eq dest: le_antisym)

lemma numbered_last: "numbered es \<Longrightarrow> es \<noteq> [] \<Longrightarrow> se_Version (last es) = int (length es)"
  by (cases es rule: rev_cases) auto

lemma numbered_aggregate_events: "log_ok rows \<Longrightarrow> numbered (aggregate_events ty i rows)"
  by (simp only: numbered_def aggregate_events_versions)

lemma replay_events_version:
  assumes "numbered es" "v \<le> w"
  shows "replay_events v (at_version w) es = take (nat w) es"
proof -
  have "filter (\<lambda>e. se_Version e \<le> w) (drop (nat v) es) = drop (nat v) (take (nat w) es)"
    using numbered_filter_gt [OF assms(1), of v] numbered_filter_le [OF assms(1), of w]
      numbered_filter_gt [OF numbered_take [OF assms(1), of "nat w"], of v]
    by (metis (no_types, lifting) filter_filter filter_cong conj_commute)
  moreover have "take (nat v) es = take (nat v) (take (nat w) es)"
    using assms(2) by (simp add: min_absorb1 nat_mono)
  ultimately show ?thesis
    unfolding replay_events_def query_holds_simps by (simp only: append_take_drop_id)
qed

lemma replay_events_empty [simp]: "replay_events v empty_query es = es"
  by (simp add: replay_events_def)

lemma replay_events_0 [simp]: "replay_events 0 q es = filter (query_holds q) es"
  by (simp add: replay_events_def)

lemma db_ok_log: "db_ok d \<Longrightarrow> log_ok (d_events d)"
  by (simp add: db_ok_def)

lemma db_ok_events:
  assumes "db_ok d"
  shows "list_all event_ok (aggregate_events ty i (d_events d))"
proof -
  let ?es = "aggregate_events ty i (d_events d)"
  have n: "numbered ?es" using assms by (intro numbered_aggregate_events db_ok_log)
  have "length ?es \<le> length (d_events d)"
    using length_aggregate_rows [of ty i "d_events d"] length_filter_le
    by (metis (no_types, lifting) aggregate_events_def le_trans length_map map_filter_def)
  then have len: "int (length ?es) \<le> 9223372036854775807" using assms by (simp add: db_ok_def)
  have "1 \<le> se_Version e \<and> se_Version e \<le> int (length ?es)" if "e \<in> set ?es" for e
  proof -
    have "se_Version e \<in> set (map int [1..<Suc (length ?es)])"
      using n that unfolding numbered_def by (metis image_eqI set_map)
    then show ?thesis by auto
  qed
  moreover have "t_loc (se_CreatedAt e) = Local" if "e \<in> set ?es" for e
    using that by (auto simp: aggregate_events_def map_filter_def from_micros_def scan_event_def)
  ultimately show ?thesis using len by (force simp: list_all_iff event_ok_def in_i64_def)
qed

lemma aggregate_events_append:
  "aggregate_events ty i (rows @ rows') = aggregate_events ty i rows @ aggregate_events ty i rows'"
  by (simp add: aggregate_events_def aggregate_rows_append map_filter_def)

lemma aggregate_events_new_row:
  "aggregate_events ty i (rows @ [new_event_row now k e]) = aggregate_events ty i rows @
     (if ae_AggregateType e = ty \<and> ae_AggregateID e = i then [event_of now k e] else [])"
proof -
  have "ev_aggregate_type (new_event_row now k e) = ae_AggregateType e" "ev_aggregate_id (new_event_row now k e) = ae_AggregateID e"
    by (simp_all add: new_event_row_def)
  then show ?thesis
    unfolding aggregate_events_append by (simp add: aggregate_events_def map_filter_simps)
qed

text \<open>All snapshots of a type hold the states their versions say.\<close>

definition good_snapshots :: "'a aggregate_ops \<Rightarrow> ('a \<Rightarrow> json option) \<Rightarrow> string \<Rightarrow> db \<Rightarrow> bool" where
  "good_snapshots A marshal ty d \<longleftrightarrow>
     list_all (\<lambda>r. ss_aggregate_type r = ty \<longrightarrow>
       snapshot_ok A marshal (aggregate_events ty (ss_aggregate_id r) (d_events d)) r) (d_snapshots d)"

lemma good_snapshots_rows:
  "good_snapshots A marshal ty d \<Longrightarrow>
     list_all (snapshot_ok A marshal (aggregate_events ty i (d_events d))) (snapshot_rows ty i (d_snapshots d))"
  by (auto simp: good_snapshots_def list_all_iff snapshot_rows_iff)

text \<open>New events do not change what an old snapshot stands for.\<close>

lemma good_snapshots_append:
  assumes "good_snapshots A marshal ty d" "d_snapshots d' = d_snapshots d" "d_events d' = d_events d @ rows"
  shows "good_snapshots A marshal ty d'"
  using assms by (auto simp: good_snapshots_def list_all_iff snapshot_ok_def aggregate_events_append)

section \<open>The contract of an aggregate\<close>

text \<open>
  What the engine needs of \<open>New\<close>, \<open>Apply\<close>, \<open>UnmarshalSnapshot\<close> and the version of an aggregate.
  \<open>norm\<close> forgets the location of the timestamps, the only thing a snapshot does not keep.
\<close>

locale aggregate =
  fixes A :: "'a aggregate_ops" and marshal :: "'a \<Rightarrow> json option"
    and norm :: "'a \<Rightarrow> 'a" and ok :: "'a \<Rightarrow> bool"
  assumes version_New: "ag_currentVersion A (ag_New A i) = 0"
    and version_Apply: "ag_Apply A e a = Inr b \<Longrightarrow> ag_currentVersion A b = se_Version e"
    and Apply_norm: "map_sum id norm (ag_Apply A e (norm a)) = map_sum id norm (ag_Apply A e a)"
    and roundtrip: "marshal a = Some j \<Longrightarrow> ok a \<Longrightarrow>
      ag_UnmarshalSnapshot A j (ag_New A i) = Some (norm a)"
    and norm_idem: "norm (norm a) = norm a"
    and version_norm: "ag_currentVersion A (norm a) = ag_currentVersion A a"
    and marshal_norm: "ok a \<Longrightarrow> marshal (norm a) = marshal a"
    and ok_New: "ok (ag_New A i)"
    and ok_norm: "ok a \<Longrightarrow> ok (norm a)"
    and ok_Apply: "ag_Apply A e a = Inr b \<Longrightarrow> ok a \<Longrightarrow> event_ok e \<Longrightarrow> ok b"
begin

lemma apply_all_norm_eq:
  "norm a = norm b \<Longrightarrow> map_sum id norm (apply_all A es a) = map_sum id norm (apply_all A es b)"
proof (induction es arbitrary: a b)
  case (Cons e es)
  have "map_sum id norm (ag_Apply A e a) = map_sum id norm (ag_Apply A e b)"
    using Cons.prems by (metis Apply_norm)
  then consider x where "ag_Apply A e a = Inl x" "ag_Apply A e b = Inl x"
    | a' b' where "ag_Apply A e a = Inr a'" "ag_Apply A e b = Inr b'" "norm a' = norm b'"
    by (cases "ag_Apply A e a"; cases "ag_Apply A e b") auto
  then show ?case
  proof cases
    case 2
    from Cons.IH [OF this(3)] 2(1,2) show ?thesis by simp
  qed simp
qed simp

lemma apply_all_norm:
  "map_sum id norm (apply_all A es (norm a)) = map_sum id norm (apply_all A es a)"
  by (rule apply_all_norm_eq) (rule norm_idem)

lemma apply_all_ok: "apply_all A es a = Inr b \<Longrightarrow> ok a \<Longrightarrow> list_all event_ok es \<Longrightarrow> ok b"
  by (induction es arbitrary: a) (auto split: sum.splits intro: ok_Apply)

lemma apply_all_version:
  "apply_all A es a = Inr b \<Longrightarrow>
     ag_currentVersion A b = (if es = [] then ag_currentVersion A a else se_Version (last es))"
proof (induction es rule: rev_induct)
  case (snoc e es)
  then show ?case by (auto simp: apply_all_append split: sum.splits dest: version_Apply)
qed simp

lemma finish_new:
  assumes "list_all event_ok es"
  shows "(case apply_all A es (ag_New A i) of Inl e \<Rightarrow> Inl e
     | Inr b \<Rightarrow> if ag_currentVersion A b = 0 then Inl ErrNotFound else Inr b) = fold_state A i es"
proof (cases "apply_all A es (ag_New A i)")
  case (Inr b)
  then have "ag_currentVersion A b = (if es = [] then 0 else se_Version (last es))"
    using apply_all_version version_New by fastforce
  moreover have "es = [] \<or> 1 \<le> se_Version (last es)"
    using assms last_event_ok by blast
  ultimately show ?thesis using Inr by (auto simp: fold_state_def)
qed (simp add: fold_state_def)

lemma replay_without_snapshot:
  assumes "log_ok (d_events d)" "\<not> fl CallLoadEvents" "Latest fl d ty i = Inr snap"
    "replay_start A i q snap = Inr (0, ag_New A i)"
    "list_all event_ok (aggregate_events ty i (d_events d))"
  shows "engine_replay A fl d ty i q = fold_state A i (filter (query_holds q) (aggregate_events ty i (d_events d)))"
proof -
  let ?es = "filter (query_holds q) (aggregate_events ty i (d_events d))"
  have ok: "list_all event_ok ?es" using assms(5) by (auto simp: list_all_iff)
  then have "filter (\<lambda>e. 0 < se_Version e) ?es = ?es"
    by (intro filter_True) (auto simp: list_all_iff event_ok_def simp del: filter_filter)
  with assms(1-4) finish_new [OF ok, of i] show ?thesis
    by (simp add: engine_replay_def LoadEventsUntil_query apply_events_filter)
qed

text \<open>The snapshot decodes to the state it was taken of, up to the location of the timestamps.\<close>

lemma replay_start_snapshot:
  assumes "snapshot_ok A marshal es r" "ss_aggregate_id r = i" "list_all event_ok es" "use_snapshot q (scan_snapshot r)"
  obtains a where "apply_all A (take (nat (ss_version r)) es) (ag_New A i) = Inr a"
    "replay_start A i q (Some (scan_snapshot r)) = Inr (ss_version r, norm a)"
    "ag_currentVersion A a \<noteq> 0"
proof -
  obtain a where a: "apply_all A (take (nat (ss_version r)) es) (ag_New A i) = Inr a"
      "marshal a = Some (ss_state r)"
    using assms(1,2) by (auto simp: snapshot_ok_def split: sum.splits)
  let ?p = "take (nat (ss_version r)) es"
  have ok: "list_all event_ok ?p" using assms(3) by (auto simp: list_all_iff dest: in_set_takeD)
  have ne: "?p \<noteq> []" using assms(1) by (auto simp: snapshot_ok_def)
  have "1 \<le> se_Version (last ?p)" by (rule last_event_ok [OF ok ne])
  then have "ag_currentVersion A a \<noteq> 0" using apply_all_version [OF a(1)] ne by simp
  moreover have "ag_UnmarshalSnapshot A (ss_state r) (ag_New A i) = Some (norm a)"
    by (rule roundtrip [OF a(2) apply_all_ok [OF a(1) ok_New ok]])
  ultimately show ?thesis
    using that [OF a(1)] assms(4) by (simp add: replay_start_def scan_snapshot_def)
qed

lemma replay_with_snapshot:
  assumes log: "log_ok (d_events d)" and fl: "\<not> fl CallLoadEvents"
    and snap: "Latest fl d ty i = Inr (Some (scan_snapshot r))" "ss_aggregate_id r = i"
      "use_snapshot q (scan_snapshot r)"
    and es: "es = aggregate_events ty i (d_events d)" "list_all event_ok es"
    and r: "snapshot_ok A marshal es r"
  shows "map_sum id norm (engine_replay A fl d ty i q)
    = map_sum id norm (fold_state A i (replay_events (ss_version r) q es))"
proof -
  let ?n = "ss_version r" and ?F = "filter (query_holds q) (drop (nat (ss_version r)) es)"
  obtain a where a: "apply_all A (take (nat ?n) es) (ag_New A i) = Inr a"
      "replay_start A i q (Some (scan_snapshot r)) = Inr (?n, norm a)" "ag_currentVersion A a \<noteq> 0"
    using replay_start_snapshot [OF r snap(2) es(2) snap(3)] by blast
  have num: "numbered es" using log es(1) by (simp add: numbered_aggregate_events)
  have F: "filter (\<lambda>e. ?n < se_Version e) (filter (query_holds q) es) = ?F"
    using numbered_filter_gt [OF num, of ?n] by (metis (no_types, lifting) filter_filter filter_cong conj_commute)
  have run: "engine_replay A fl d ty i q = (case apply_all A ?F (norm a) of Inl e \<Rightarrow> Inl e
      | Inr b \<Rightarrow> if ag_currentVersion A b = 0 then Inl ErrNotFound else Inr b)"
    using log fl snap(1) a(2) es(1) F by (simp add: engine_replay_def LoadEventsUntil_query apply_events_filter)
  have ne: "take (nat ?n) es \<noteq> []" using r by (auto simp: snapshot_ok_def)
  then have spec: "fold_state A i (replay_events ?n q es) = apply_all A ?F a"
    by (simp add: fold_state_def replay_events_def apply_all_append a(1) split: sum.split)
  have "1 \<le> se_Version (last ?F)" if "?F \<noteq> []"
    by (rule last_event_ok) (use es(2) that in \<open>auto simp: list_all_iff dest: in_set_dropD\<close>)
  then have "ag_currentVersion A b \<noteq> 0" if "apply_all A ?F (norm a) = Inr b" for b
    using apply_all_version [OF that] a(3) by (auto simp: version_norm split: if_splits)
  then have "engine_replay A fl d ty i q = apply_all A ?F (norm a)"
    unfolding run by (auto split: sum.split)
  then show ?thesis by (simp add: spec apply_all_norm)
qed

text \<open>
  For any query: the result is the fold of the events up to the snapshot and of those after it
  that the query selects.
\<close>

lemma engine_replay_general:
  assumes "db_ok d" "\<not> fl CallLoadEvents" "\<not> fl CallLatestSnapshot" "good_snapshots A marshal ty d"
  shows "map_sum id norm (engine_replay A fl d ty i q) = map_sum id norm
    (fold_state A i (replay_events (start_version d ty i q) q (aggregate_events ty i (d_events d))))"
proof -
  note log = db_ok_log [OF assms(1)] and ev = db_ok_events [OF assms(1), of ty i]
  have eq: "Latest no_faults d ty i = Latest fl d ty i" using assms(3) by (simp add: Latest_def)
  from assms(3) consider (none) "Latest fl d ty i = Inr None" | (some) s where "Latest fl d ty i = Inr (Some s)"
    by (rule Latest_cases [of fl d ty i]) 
  then show ?thesis
  proof cases
    case none
    then show ?thesis
      using replay_without_snapshot [OF log assms(2) none _ ev] by (simp add: replay_start_def start_version_def eq)
  next
    case (some s)
    then obtain r where r: "r \<in> set (snapshot_rows ty i (d_snapshots d))" "s = scan_snapshot r"
      by (rule Latest_SomeD)
    then have i: "ss_aggregate_id r = i" and good: "snapshot_ok A marshal (aggregate_events ty i (d_events d)) r"
      using good_snapshots_rows [OF assms(4), of i] by (auto simp: snapshot_rows_iff list_all_iff)
    show ?thesis
    proof (cases "use_snapshot q s")
      case True
      then show ?thesis
        using replay_with_snapshot [OF log assms(2) some [unfolded r(2)] i _ refl ev good, of q] some r(2)
        by (simp add: start_version_def eq) (simp add: scan_snapshot_def)
    next
      case False
      then show ?thesis
        using replay_without_snapshot [OF log assms(2) some _ ev, of q] some
        by (simp add: replay_start_def start_version_def eq)
    qed
  qed
qed

text \<open>A query by version is answered exactly, whatever snapshots there are.\<close>

lemma engine_replay_at_version:
  assumes "db_ok d" "\<not> fl CallLoadEvents" "\<not> fl CallLatestSnapshot" "good_snapshots A marshal ty d"
  shows "map_sum id norm (engine_replay A fl d ty i (at_version v)) = map_sum id norm
    (fold_state A i (take (nat v) (aggregate_events ty i (d_events d))))"
proof (cases "start_version d ty i (at_version v) \<le> v")
  case True
  with engine_replay_general [OF assms, of i "at_version v"] show ?thesis
    using replay_events_version [OF numbered_aggregate_events [OF db_ok_log [OF assms(1)]] True] by simp
next
  case False
  then have "start_version d ty i (at_version v) = 0"
    by (auto simp: start_version_def use_snapshot_def at_version_def empty_query_def split: sum.splits option.splits if_splits)
  with engine_replay_general [OF assms, of i "at_version v"] show ?thesis
    using numbered_filter_le [OF numbered_aggregate_events [OF db_ok_log [OF assms(1)]], of v ty i]
    by simp
qed

text \<open>What a replay returns can be marshalled to the same snapshot as the fold of the events.\<close>

lemma engine_replay_ok:
  assumes "db_ok d" "good_snapshots A marshal ty d" "engine_replay A fl d ty i q = Inr a"
  shows "ok a"
proof -
  obtain snap v agg events where r: "Latest fl d ty i = Inr snap" "replay_start A i q snap = Inr (v, agg)"
    "LoadEventsUntil fl d ty i q = Inr events" "apply_events A v events agg = Inr a"
    using assms(3) by (auto simp: engine_replay_def split: sum.splits if_splits)
  have "\<not> fl CallLoadEvents" using r(3) by (auto simp: LoadEventsUntil_def)
  then have "events = filter (query_holds q) (aggregate_events ty i (d_events d))"
    using r(3) LoadEventsUntil_query [OF db_ok_log [OF assms(1)]] by simp
  then have ev: "list_all event_ok (filter (\<lambda>e. v < se_Version e) events)"
    using db_ok_events [OF assms(1), of ty i] by (auto simp: list_all_iff)
  have "ok agg"
  proof (cases "\<exists>s. snap = Some s \<and> use_snapshot q s")
    case False
    then have "agg = ag_New A i" using r(2) by (auto simp: replay_start_def split: option.splits if_splits)
    then show ?thesis by (simp add: ok_New)
  next
    case True
    then obtain row where row: "row \<in> set (snapshot_rows ty i (d_snapshots d))" "snap = Some (scan_snapshot row)"
      using r(1) by (auto elim: Latest_SomeD)
    then have g: "snapshot_ok A marshal (aggregate_events ty i (d_events d)) row" "ss_aggregate_id row = i"
      using good_snapshots_rows [OF assms(2), of i] by (auto simp: list_all_iff snapshot_rows_iff)
    from replay_start_snapshot [OF g db_ok_events [OF assms(1)], of q] True row(2) obtain b where
      "apply_all A (take (nat (ss_version row)) (aggregate_events ty i (d_events d))) (ag_New A i) = Inr b"
      "agg = norm b" using r(2) by auto
    then show ?thesis
      using apply_all_ok [OF _ ok_New] ok_norm db_ok_events [OF assms(1), of ty i]
      by (metis (no_types, lifting) in_set_takeD list_all_iff)
  qed
  with r(4) ev show ?thesis unfolding apply_events_filter by (blast intro: apply_all_ok)
qed

lemma replay_current:
  assumes "db_ok d" "good_snapshots A marshal ty d" "engine_replay A fl d ty i empty_query = Inr a"
  obtains b where "apply_all A (aggregate_events ty i (d_events d)) (ag_New A i) = Inr b"
    "norm a = norm b" "marshal a = marshal b" "aggregate_events ty i (d_events d) \<noteq> []"
    "ag_currentVersion A a = int (length (aggregate_events ty i (d_events d)))"
proof -
  let ?es = "aggregate_events ty i (d_events d)"
  have fl: "\<not> fl CallLoadEvents" "\<not> fl CallLatestSnapshot"
    using assms(3) by (auto simp: engine_replay_def LoadEventsUntil_def Latest_def split: sum.splits if_splits)
  have "map_sum id norm (fold_state A i ?es) = Inr (norm a)"
    using engine_replay_general [OF assms(1) fl assms(2), of i empty_query] assms(3) by simp
  then obtain b where b: "apply_all A ?es (ag_New A i) = Inr b" "norm a = norm b" "?es \<noteq> []"
    by (auto simp: fold_state_def split: sum.splits if_splits)
  have "ok b" by (rule apply_all_ok [OF b(1) ok_New db_ok_events [OF assms(1)]])
  then have "marshal a = marshal b"
    using marshal_norm b(2) engine_replay_ok [OF assms] by metis
  moreover have "ag_currentVersion A b = int (length ?es)"
    using apply_all_version [OF b(1)] b(3) numbered_last [OF numbered_aggregate_events [OF db_ok_log [OF assms(1)]] b(3)]
    by simp
  then have "ag_currentVersion A a = int (length ?es)" using b(2) version_norm by metis
  ultimately show ?thesis using that b by blast
qed

end

section \<open>The three aggregates keep the contract\<close>

lemmas agg_defs = userAgg_def productAgg_def orderAgg_def

interpretation user_agg: aggregate userAgg user_MarshalSnapshot user_utc user_local
  by unfold_locales
    (auto simp: agg_defs user_Apply_utc user_MarshalSnapshot_utc event_ok_def
      dest: user_Apply_version intro: user_snapshot_roundtrip elim: user_Apply_local,
     auto simp: user_New_def user_utc_def user_local_def zero_time_def)

interpretation product_agg: aggregate productAgg product_MarshalSnapshot product_utc product_local
  by unfold_locales
    (auto simp: agg_defs product_Apply_utc product_MarshalSnapshot_utc event_ok_def
      dest: product_Apply_version intro: product_snapshot_roundtrip elim: product_Apply_local,
     auto simp: product_New_def product_utc_def product_local_def zero_time_def)

interpretation order_agg: aggregate orderAgg order_MarshalSnapshot order_utc order_local
  by unfold_locales
    (auto simp: agg_defs order_Apply_utc order_MarshalSnapshot_utc event_ok_def
      dest: order_Apply_version intro: order_snapshot_roundtrip elim: order_Apply_local,
     auto simp: order_New_def order_utc_def order_local_def zero_time_def)

section \<open>A sample log\<close>

text \<open>A user that is created and renamed a second later, with a snapshot at a chosen version.\<close>

definition sample_created :: append_event where
  "sample_created = \<lparr>ae_AggregateType = AggregateUser, ae_AggregateID = ''u1'',
     ae_EventType = UserCreated, ae_Version = 1,
     ae_Payload = user_created_json \<lparr>uc_Name = ''Ann'', uc_Email = ''a@x''\<rparr>,
     ae_Metadata = empty_metadata\<rparr>"

definition sample_renamed :: append_event where
  "sample_renamed = \<lparr>ae_AggregateType = AggregateUser, ae_AggregateID = ''u1'',
     ae_EventType = UserUpdated, ae_Version = 2,
     ae_Payload = user_updated_json \<lparr>uu_Name = Some ''Bob'', uu_Email = None, uu_Address = None, uu_Avatar = None\<rparr>,
     ae_Metadata = empty_metadata\<rparr>"

definition sample_state :: "string \<Rightarrow> i64 \<Rightarrow> string \<Rightarrow> json" where
  "sample_state n v t = JObj [(''id'', JStr ''u1''), (''name'', JStr n), (''email'', JStr ''a@x''),
     (''version'', JInt v), (''created_at'', JStr ''1970-01-01T00:00:01Z''), (''updated_at'', JStr t)]"

definition sample_snapshot :: "i64 \<Rightarrow> json \<Rightarrow> snapshot_row" where
  "sample_snapshot v st = \<lparr>ss_id = 1, ss_aggregate_type = AggregateUser, ss_aggregate_id = ''u1'',
     ss_version = v, ss_state = st, ss_created_at = 2500000\<rparr>"

definition sample_db :: "snapshot_row list \<Rightarrow> db" where
  "sample_db snaps = empty_db\<lparr>d_events := [new_event_row 1000000 1 sample_created,
     new_event_row 2000000 2 sample_renamed], d_event_seq := 2, d_snapshots := snaps, d_snapshot_seq := 1\<rparr>"

definition sample_snapshot1 :: snapshot_row where
  "sample_snapshot1 = sample_snapshot 1 (sample_state ''Ann'' 1 ''1970-01-01T00:00:01Z'')"

definition sample_snapshot2 :: snapshot_row where
  "sample_snapshot2 = sample_snapshot 2 (sample_state ''Bob'' 2 ''1970-01-01T00:00:02Z'')"

lemma sample_db_ok: "db_ok (sample_db snaps)"
proof -
  have "log_ok ([] @ [new_event_row 1000000 (0 + 1) sample_created])"
    by (rule log_ok_snoc) (simp_all add: sample_created_def)
  then have "log_ok ([new_event_row 1000000 1 sample_created] @ [new_event_row 2000000 (1 + 1) sample_renamed])"
    by (intro log_ok_snoc) (simp_all add: sample_created_def sample_renamed_def new_event_row_def)
  then show ?thesis by (simp add: db_ok_def sample_db_def empty_db_def new_event_row_def)
qed

lemma sample_events:
  "aggregate_events AggregateUser ''u1'' (d_events (sample_db snaps))
     = [event_of 1000000 1 sample_created, event_of 2000000 2 sample_renamed]"
  by (simp add: aggregate_events_def aggregate_rows_def sample_db_def List.map_filter_def)
    (simp add: sample_created_def sample_renamed_def new_event_row_def)

lemma sample_snapshots_ok:
  "snapshot_ok userAgg user_MarshalSnapshot [event_of 1000000 1 sample_created, event_of 2000000 2 sample_renamed] sample_snapshot1"
  "snapshot_ok userAgg user_MarshalSnapshot [event_of 1000000 1 sample_created, event_of 2000000 2 sample_renamed] sample_snapshot2"
  by code_simp+

lemma sample_good:
  "set snaps \<subseteq> {sample_snapshot1, sample_snapshot2} \<Longrightarrow>
     good_snapshots userAgg user_MarshalSnapshot AggregateUser (sample_db snaps) \<and>
     good_snapshots productAgg product_MarshalSnapshot AggregateProduct (sample_db snaps) \<and>
     good_snapshots orderAgg order_MarshalSnapshot AggregateOrder (sample_db snaps)"
proof -
  assume "set snaps \<subseteq> {sample_snapshot1, sample_snapshot2}"
  then have "set snaps \<subseteq> {sample_snapshot1, sample_snapshot2}" "d_snapshots (sample_db snaps) = snaps"
    by (simp_all add: sample_db_def)
  then show ?thesis
    using sample_snapshots_ok sample_events
    by (auto simp: good_snapshots_def list_all_iff sample_snapshot1_def sample_snapshot2_def sample_snapshot_def)
qed

section \<open>Properties\<close>

definition all_good_snapshots :: "db \<Rightarrow> bool" where
  "all_good_snapshots d \<longleftrightarrow>
     good_snapshots userAgg user_MarshalSnapshot AggregateUser d \<and>
     good_snapshots productAgg product_MarshalSnapshot AggregateProduct d \<and>
     good_snapshots orderAgg order_MarshalSnapshot AggregateOrder d"

definition users_good :: "db \<Rightarrow> bool" where
  "users_good d \<longleftrightarrow> good_snapshots userAgg user_MarshalSnapshot AggregateUser d"

definition products_good :: "db \<Rightarrow> bool" where
  "products_good d \<longleftrightarrow> good_snapshots productAgg product_MarshalSnapshot AggregateProduct d"

definition orders_good :: "db \<Rightarrow> bool" where
  "orders_good d \<longleftrightarrow> good_snapshots orderAgg order_MarshalSnapshot AggregateOrder d"

lemmas good_defs = users_good_def products_good_def orders_good_def

lemma all_good_iff: "all_good_snapshots d \<longleftrightarrow> users_good d \<and> products_good d \<and> orders_good d"
  by (simp add: all_good_snapshots_def good_defs)

lemma sample_all_good: "set snaps \<subseteq> {sample_snapshot1, sample_snapshot2} \<Longrightarrow> all_good_snapshots (sample_db snaps)"
  using sample_good by (simp add: all_good_snapshots_def)

lemmas Replay_defs = ReplayUser_def ReplayProduct_def ReplayOrder_def

text \<open>C1: a replay at a version gives, for each of the three aggregates, the fold of the first events
  of the log up to that version, whatever snapshots there are that hold the states their versions
  say, while the database answers: same result and same errors, timestamps as instants.\<close>

theorem replay_at_version:
  assumes "db_ok d" "all_good_snapshots d" "\<not> fl CallLoadEvents" "\<not> fl CallLatestSnapshot"
  shows "map_sum id user_utc (ReplayUser fl d i (at_version v)) =
      map_sum id user_utc (fold_state userAgg i (take (nat v) (aggregate_events AggregateUser i (d_events d)))) \<and>
    map_sum id product_utc (ReplayProduct fl d i (at_version v)) =
      map_sum id product_utc (fold_state productAgg i (take (nat v) (aggregate_events AggregateProduct i (d_events d)))) \<and>
    map_sum id order_utc (ReplayOrder fl d i (at_version v)) =
      map_sum id order_utc (fold_state orderAgg i (take (nat v) (aggregate_events AggregateOrder i (d_events d))))"
  using assms unfolding all_good_snapshots_def Replay_defs
  by (simp add: user_agg.engine_replay_at_version product_agg.engine_replay_at_version
      order_agg.engine_replay_at_version)

lemma replay_at_version_witness:
  "map_sum id user_utc (ReplayUser no_faults (sample_db [sample_snapshot1]) ''u1'' (at_version 2)) =
   map_sum id user_utc (fold_state userAgg ''u1''
     [event_of 1000000 1 sample_created, event_of 2000000 2 sample_renamed])"
  using replay_at_version [of "sample_db [sample_snapshot1]" no_faults "''u1''" 2]
    sample_db_ok sample_all_good by (simp add: sample_events)

text \<open>A replay without a bound gives the fold of the whole log of the aggregate.\<close>

theorem replay_current_fold:
  assumes "db_ok d" "all_good_snapshots d" "\<not> fl CallLoadEvents" "\<not> fl CallLatestSnapshot"
  shows "map_sum id user_utc (ReplayUser fl d i empty_query) =
      map_sum id user_utc (fold_state userAgg i (aggregate_events AggregateUser i (d_events d))) \<and>
    map_sum id product_utc (ReplayProduct fl d i empty_query) =
      map_sum id product_utc (fold_state productAgg i (aggregate_events AggregateProduct i (d_events d))) \<and>
    map_sum id order_utc (ReplayOrder fl d i empty_query) =
      map_sum id order_utc (fold_state orderAgg i (aggregate_events AggregateOrder i (d_events d)))"
  using assms unfolding all_good_snapshots_def Replay_defs
  by (simp add: user_agg.engine_replay_general product_agg.engine_replay_general
      order_agg.engine_replay_general)

lemma replay_current_fold_witness:
  "map_sum id user_utc (ReplayUser no_faults (sample_db [sample_snapshot2]) ''u1'' empty_query) =
   map_sum id user_utc (fold_state userAgg ''u1''
     [event_of 1000000 1 sample_created, event_of 2000000 2 sample_renamed])"
  using replay_current_fold [of "sample_db [sample_snapshot2]" no_faults "''u1''"]
    sample_db_ok sample_all_good by (simp add: sample_events)

text \<open>
  What a replay at a time applies: the latest snapshot is where it starts, even when that is
  younger than the time, so the events the snapshot holds count whenever they were stored.
\<close>

definition snapshot_version :: "db \<Rightarrow> string \<Rightarrow> string \<Rightarrow> nat" where
  "snapshot_version d ty i = (case Latest no_faults d ty i of Inr (Some s) \<Rightarrow> nat (sn_Version s) | _ \<Rightarrow> 0)"

definition stored_by :: "gotime \<Rightarrow> stored_event \<Rightarrow> bool" where
  "stored_by t e \<longleftrightarrow> se_CreatedAt e \<le> t"

definition applied_at :: "db \<Rightarrow> string \<Rightarrow> string \<Rightarrow> gotime \<Rightarrow> stored_event list" where
  "applied_at d ty i t = (let es = aggregate_events ty i (d_events d); k = snapshot_version d ty i
     in take k es @ filter (stored_by t) (drop k es))"

lemma applied_at_replay_events:
  "replay_events (start_version d ty i (at_time t)) (at_time t) (aggregate_events ty i (d_events d)) = applied_at d ty i t"
proof -
  have "nat (start_version d ty i (at_time t)) = snapshot_version d ty i"
    by (simp add: start_version_def snapshot_version_def use_snapshot_def at_time_def empty_query_def split: sum.split option.split)
  moreover have "query_holds (at_time t) = stored_by t" by (simp add: fun_eq_iff stored_by_def)
  ultimately show ?thesis by (simp add: replay_events_def applied_at_def Let_def)
qed

lemma applied_at_old_snapshot:
  assumes "list_all (stored_by t) (take (snapshot_version d ty i) (aggregate_events ty i (d_events d)))"
  shows "applied_at d ty i t = filter (stored_by t) (aggregate_events ty i (d_events d))"
proof -
  let ?k = "snapshot_version d ty i" and ?es = "aggregate_events ty i (d_events d)"
  have "filter (stored_by t) ?es = filter (stored_by t) (take ?k ?es) @ filter (stored_by t) (drop ?k ?es)"
    by (metis append_take_drop_id filter_append)
  moreover have "filter (stored_by t) (take ?k ?es) = take ?k ?es" using assms by (simp add: list_all_iff)
  ultimately show ?thesis by (simp add: applied_at_def Let_def)
qed

text \<open>A replay at a version, at a time and of the present, for each of the three aggregates.\<close>

lemma replay_version_fold:
  assumes "db_ok d" "\<not> fl CallLoadEvents" "\<not> fl CallLatestSnapshot"
  shows "users_good d \<Longrightarrow> map_sum id user_utc (ReplayUser fl d i (at_version v)) =
      map_sum id user_utc (fold_state userAgg i (take (nat v) (aggregate_events AggregateUser i (d_events d))))"
    "products_good d \<Longrightarrow> map_sum id product_utc (ReplayProduct fl d i (at_version v)) =
      map_sum id product_utc (fold_state productAgg i (take (nat v) (aggregate_events AggregateProduct i (d_events d))))"
    "orders_good d \<Longrightarrow> map_sum id order_utc (ReplayOrder fl d i (at_version v)) =
      map_sum id order_utc (fold_state orderAgg i (take (nat v) (aggregate_events AggregateOrder i (d_events d))))"
  using assms unfolding good_defs Replay_defs
  by (simp_all add: user_agg.engine_replay_at_version product_agg.engine_replay_at_version
      order_agg.engine_replay_at_version)

lemma replay_time_fold:
  assumes "db_ok d" "\<not> fl CallLoadEvents" "\<not> fl CallLatestSnapshot"
  shows "users_good d \<Longrightarrow> map_sum id user_utc (ReplayUser fl d i (at_time t)) =
      map_sum id user_utc (fold_state userAgg i (applied_at d AggregateUser i t))"
    "products_good d \<Longrightarrow> map_sum id product_utc (ReplayProduct fl d i (at_time t)) =
      map_sum id product_utc (fold_state productAgg i (applied_at d AggregateProduct i t))"
    "orders_good d \<Longrightarrow> map_sum id order_utc (ReplayOrder fl d i (at_time t)) =
      map_sum id order_utc (fold_state orderAgg i (applied_at d AggregateOrder i t))"
  using assms unfolding good_defs Replay_defs
  by (simp_all add: user_agg.engine_replay_general product_agg.engine_replay_general
      order_agg.engine_replay_general applied_at_replay_events)

lemma applied_at_iff:
  "list_all (stored_by t) (take (snapshot_version d ty i) (aggregate_events ty i (d_events d))) \<longleftrightarrow>
     applied_at d ty i t = filter (stored_by t) (aggregate_events ty i (d_events d))"
proof
  assume e: "applied_at d ty i t = filter (stored_by t) (aggregate_events ty i (d_events d))"
  have "list_all (stored_by t) (applied_at d ty i t)" unfolding e by (simp add: list_all_iff)
  then show "list_all (stored_by t) (take (snapshot_version d ty i) (aggregate_events ty i (d_events d)))"
    by (simp add: applied_at_def Let_def)
qed (rule applied_at_old_snapshot)

text \<open>So a time between two events can be answered with the state after the later one: of a log
  with a good snapshot at version 2, the replay at a time before the second event returns the second
  name, and without the snapshot the first.\<close>

theorem replay_at_time_returns_future:
  "map_sum id u_Name (ReplayUser no_faults (sample_db [sample_snapshot2]) ''u1'' (at_time (GoTime 1500000000 UTC)))
     = Inr ''Bob'' \<and>
   map_sum id u_Name (ReplayUser no_faults (sample_db []) ''u1'' (at_time (GoTime 1500000000 UTC))) = Inr ''Ann'' \<and>
   db_ok (sample_db [sample_snapshot2]) \<and> all_good_snapshots (sample_db [sample_snapshot2])"
proof (intro conjI)
  show "map_sum id u_Name (ReplayUser no_faults (sample_db [sample_snapshot2]) ''u1''
      (at_time (GoTime 1500000000 UTC))) = Inr ''Bob''" by code_simp
  show "map_sum id u_Name (ReplayUser no_faults (sample_db []) ''u1''
      (at_time (GoTime 1500000000 UTC))) = Inr ''Ann''" by code_simp
qed (simp_all add: sample_db_ok sample_all_good)

lemma replay_engine_same:
  assumes "db_ok d" "db_ok d'" "d_events d = d_events d'" "all_good_snapshots d" "all_good_snapshots d'"
    "q = at_version v \<or> q = empty_query"
  shows "map_sum id user_utc (ReplayUser no_faults d i q) = map_sum id user_utc (ReplayUser no_faults d' i q) \<and>
    map_sum id product_utc (ReplayProduct no_faults d i q) = map_sum id product_utc (ReplayProduct no_faults d' i q) \<and>
    map_sum id order_utc (ReplayOrder no_faults d i q) = map_sum id order_utc (ReplayOrder no_faults d' i q)"
  using assms(6)
proof
  assume q: "q = at_version v"
  show ?thesis
    using assms(1-5) unfolding q Replay_defs all_good_snapshots_def
    by (simp only: user_agg.engine_replay_at_version product_agg.engine_replay_at_version
        order_agg.engine_replay_at_version not_False_eq_True)
next
  assume q: "q = empty_query"
  show ?thesis
    using assms(1-5) unfolding q Replay_defs all_good_snapshots_def
    by (simp add: user_agg.engine_replay_general product_agg.engine_replay_general
        order_agg.engine_replay_general)
qed

text \<open>The states a replay returns are those the snapshots can hold.\<close>

lemma replayed_local:
  assumes "db_ok d" "all_good_snapshots d"
  shows "ReplayUser fl d i q = Inr u \<Longrightarrow> user_local u"
    "ReplayProduct fl d i q = Inr p \<Longrightarrow> product_local p"
    "ReplayOrder fl d i q = Inr x \<Longrightarrow> order_local x"
  using user_agg.engine_replay_ok [OF assms(1)] product_agg.engine_replay_ok [OF assms(1)]
    order_agg.engine_replay_ok [OF assms(1)] assms(2)
  unfolding all_good_snapshots_def Replay_defs by blast+

text \<open>C31: while snapshots hold the states their versions say, a snapshot taken of what a replay returned,
  saved and read back into a new aggregate of any name, is that state again, with its timestamps in UTC.\<close>

theorem replay_snapshot_roundtrip:
  assumes "db_ok d" "all_good_snapshots d"
  shows "(\<forall>u raw. ReplayUser fl d i q = Inr u \<and> user_MarshalSnapshot u = Some raw \<longrightarrow>
      user_UnmarshalSnapshot raw (user_New j) = Some (user_utc u)) \<and>
    (\<forall>p raw. ReplayProduct fl d i q = Inr p \<and> product_MarshalSnapshot p = Some raw \<longrightarrow>
      product_UnmarshalSnapshot raw (product_New j) = Some (product_utc p)) \<and>
    (\<forall>x raw. ReplayOrder fl d i q = Inr x \<and> order_MarshalSnapshot x = Some raw \<longrightarrow>
      order_UnmarshalSnapshot raw (order_New j) = Some (order_utc x))"
  using replayed_local [OF assms, of fl i q] user_snapshot_roundtrip product_snapshot_roundtrip order_snapshot_roundtrip
  by blast

lemma replay_snapshot_roundtrip_witness:
  "\<exists>u raw. ReplayUser no_faults (sample_db []) ''u1'' empty_query = Inr u \<and> user_MarshalSnapshot u = Some raw \<and>
     user_UnmarshalSnapshot raw (user_New ''other'') = Some (user_utc u)"
proof -
  have "(case ReplayUser no_faults (sample_db []) ''u1'' empty_query of Inl e \<Rightarrow> False
      | Inr u \<Rightarrow> user_MarshalSnapshot u \<noteq> None)" by code_simp
  then obtain u raw where "ReplayUser no_faults (sample_db []) ''u1'' empty_query = Inr u" "user_MarshalSnapshot u = Some raw"
    by (auto split: sum.splits)
  then show ?thesis
    using replay_snapshot_roundtrip [of "sample_db []" no_faults "''u1''" empty_query "''other''"]
    by (auto simp: sample_db_ok sample_all_good)
qed

end
