(* ===== verification/Commands.thy ===== *)
theory Commands
  imports User_Service Product_Service Order_Service Replay
begin

text \<open>
  What the commands of the three services do to the database: atomicity, optimistic concurrency
  control, the result a client sees, and how that differs from the replayed aggregate.
\<close>

section \<open>The three services\<close>

definition service :: "command_service \<Rightarrow> bool" where
  "service s \<longleftrightarrow> (\<exists>n. s = userCmds n \<or> s = productCmds n \<or> s = orderCmds n)"

lemma service_simps [simp]: "service (userCmds n)" "service (productCmds n)" "service (orderCmds n)"
  by (auto simp: service_def)

lemma service_projector: "service s \<Longrightarrow> projector (cs_projector s) (cs_aggregateType s)"
  by (auto simp: service_def userCmds_def productCmds_def orderCmds_def
      intro: user_projector.projector_axioms product_projector.projector_axioms
        order_projector.projector_axioms)

text \<open>A projector fails with a JSON error or an error of the database.\<close>

lemma service_projector_error:
  assumes "service s" "cs_projector s fl e d = (Inl x, d')"
  shows "x = ErrJson \<or> x = ErrDb CallProject"
  using assms
  by (auto simp: service_def userCmds_def productCmds_def orderCmds_def UserProjector_Apply_def
      ProductProjector_Apply_def OrderProjector_Apply_def user_Apply_def product_Apply_def order_Apply_def
      Let_def split: sum.splits if_splits option.splits)

lemma write_event_error:
  assumes "service s" "db_ok d" "write_event s fl now req n d = (Inl x, d')"
    "n = int (length (aggregate_rows (cs_aggregateType s) (aq_ID req) (d_events d)))"
  shows "x = ErrJson \<or> (\<exists>c. x = ErrDb c)"
proof -
  have "\<not> version_taken (next_event s req n) (d_events d)" if "d_event_seq d < 9223372036854775807"
    using version_taken_next [OF assms(2) _ that, of s req n] assms(4) by (simp add: version_read_def)
  then show ?thesis
    using assms(3) service_projector_error [OF assms(1)]
    by (fastforce simp: write_event_def store_append_def insert_outbox_def Let_def
        split: prod.splits sum.splits if_splits option.splits)
qed

section \<open>Properties\<close>

text \<open>C8: a command of any service that succeeds found the version it expected (if it expected one), a
  fresh aggregate if it creates and an existing one otherwise; it appended exactly one event, with the
  next version, and kept the invariants of log, outbox and read models.\<close>

theorem append_next_version:
  assumes "service s" "db_ok d" "outbox_ok d" "read_model_ok d" "Append s fl now req d = (Inr stored, d')"
  shows "let n = int (length (aggregate_rows (cs_aggregateType s) (aq_ID req) (d_events d)))
    in (aq_ExpectedVersion req = None \<or> aq_ExpectedVersion req = Some n) \<and>
       (aq_IsCreate req \<longleftrightarrow> n = 0) \<and> se_Version stored = n + 1 \<and>
       d_events d' = d_events d @ [new_event_row now (se_ID stored) (next_event s req n)] \<and>
       db_ok d' \<and> outbox_ok d' \<and> read_model_ok d'"
proof -
  note p = service_projector [OF assms(1)]
  from Append_Inr [OF assms(2,5)] obtain n where n:
    "n = int (length (aggregate_rows (cs_aggregateType s) (aq_ID req) (d_events d)))"
    "version_read s req n d" "append_guard req n = None" "write_event s fl now req n d = (Inr stored, d')"
    by metis
  note a = projector.write_event_appends [OF p refl n(4) assms(2) n(2)]
  have "se_ID stored = d_event_seq d + 1" using a(2) by (simp add: event_of_def)
  moreover have "(aq_ExpectedVersion req = None \<or> aq_ExpectedVersion req = Some n) \<and> (aq_IsCreate req \<longleftrightarrow> n = 0)"
    using n(1,3) by (auto simp: append_guard_def split: if_splits option.splits)
  ultimately show ?thesis
    using a n(1) Append_keeps [OF p assms(2,5)] assms(3,4) by (simp add: Let_def)
qed

lemma append_next_version_witness:
  "\<exists>stored d'. Append (userCmds 50) no_faults 7 (user_request ''u1'' (Some 0) UserCreated
       (user_created_json \<lparr>uc_Name = ''Ann'', uc_Email = ''a@x''\<rparr>) empty_metadata) empty_db = (Inr stored, d') \<and>
     se_Version stored = 1 \<and> db_ok d' \<and> outbox_ok d' \<and> read_model_ok d'"
proof -
  let ?r = "user_request ''u1'' (Some 0) UserCreated (user_created_json \<lparr>uc_Name = ''Ann'', uc_Email = ''a@x''\<rparr>) empty_metadata"
  have "(case fst (Append (userCmds 50) no_faults 7 ?r empty_db) of Inr _ \<Rightarrow> True | Inl _ \<Rightarrow> False)"
    by code_simp
  then obtain stored d' where a: "Append (userCmds 50) no_faults 7 ?r empty_db = (Inr stored, d')"
    by (cases "Append (userCmds 50) no_faults 7 ?r empty_db") (auto split: sum.splits)
  have "read_model_ok empty_db"
    by (simp add: read_model_ok_def read_version_def)
  from append_next_version [OF _ _ _ this a] a show ?thesis
    by (auto simp: Let_def)
qed

text \<open>C27: without a fault of the database, the three refusals are exactly these, in this order: a wrong
  expected version, a creation of what exists, a change of what does not.\<close>

theorem append_refusals:
  assumes "service s" "db_ok d"
  shows "let n = int (length (aggregate_rows (cs_aggregateType s) (aq_ID req) (d_events d)));
      res = fst (Append s no_faults now req d);
      mismatch = (\<exists>v. aq_ExpectedVersion req = Some v \<and> v \<noteq> n)
    in (res = Inl ErrVersionMismatch \<longleftrightarrow> mismatch) \<and>
       (res = Inl ErrConflict \<longleftrightarrow> \<not> mismatch \<and> aq_IsCreate req \<and> 0 < n) \<and>
       (res = Inl ErrNotFound \<longleftrightarrow> \<not> mismatch \<and> \<not> aq_IsCreate req \<and> n = 0)"
proof -
  let ?n = "int (length (aggregate_rows (cs_aggregateType s) (aq_ID req) (d_events d)))"
  have v: "LatestVersion no_faults d (cs_aggregateType s) (aq_ID req) = Inr ?n"
    using assms(2) by (intro LatestVersion_log_ok) (simp_all add: db_ok_def)
  have "fst (write_event s no_faults now req ?n d) \<notin> {Inl ErrVersionMismatch, Inl ErrConflict, Inl ErrNotFound}"
    using write_event_error [OF assms, where fl = no_faults and now = now and req = req and n = ?n]
    by (cases "write_event s no_faults now req ?n d") auto
  then show ?thesis
    using v by (auto simp: Append_def append_guard_def Let_def split: option.splits)
qed

lemma append_refusals_witness:
  "fst (Append (productCmds 50) no_faults 7 \<lparr>aq_ID = ''p1'', aq_ExpectedVersion = Some 3,
      aq_EventType = ProductDeleted, aq_Payload = JObj [], aq_Metadata = empty_metadata,
      aq_IsCreate = False\<rparr> empty_db) = Inl ErrVersionMismatch"
  using append_refusals [of "productCmds 50" empty_db "\<lparr>aq_ID = ''p1'', aq_ExpectedVersion = Some 3,
      aq_EventType = ProductDeleted, aq_Payload = JObj [], aq_Metadata = empty_metadata, aq_IsCreate = False\<rparr>" 7]
  by (simp add: Let_def)

section \<open>What a client sees\<close>

lemma service_sel [simp]:
  "cs_projector (userCmds n) = UserProjector_Apply" "cs_aggregateType (userCmds n) = AggregateUser"
  "cs_projector (productCmds n) = ProductProjector_Apply" "cs_aggregateType (productCmds n) = AggregateProduct"
  "cs_projector (orderCmds n) = OrderProjector_Apply" "cs_aggregateType (orderCmds n) = AggregateOrder"
  by (simp_all add: userCmds_def productCmds_def orderCmds_def)

text \<open>The event a successful append stored.\<close>

definition next_stored :: "command_service \<Rightarrow> int \<Rightarrow> append_request \<Rightarrow> i64 \<Rightarrow> i64 \<Rightarrow> stored_event" where
  "next_stored s now req i n = \<lparr>se_ID = i, se_AggregateType = cs_aggregateType s,
     se_AggregateID = aq_ID req, se_EventType = aq_EventType req, se_Version = n,
     se_Payload = aq_Payload req, se_Metadata = aq_Metadata req, se_CreatedAt = from_micros now\<rparr>"

lemma next_stored_sel [simp]:
  "se_AggregateID (next_stored s now req i n) = aq_ID req" "se_Version (next_stored s now req i n) = n"
  "se_EventType (next_stored s now req i n) = aq_EventType req"
  "se_Payload (next_stored s now req i n) = aq_Payload req"
  "se_CreatedAt (next_stored s now req i n) = from_micros now"
  by (simp_all add: next_stored_def)

lemma Append_projected:
  assumes "service s" "db_ok d" "Append s fl now req d = (Inr stored, d')"
  obtains d1 n where "n = int (length (aggregate_rows (cs_aggregateType s) (aq_ID req) (d_events d)))"
    "cs_projector s fl stored d1 = (Inr (), d')" "append_guard req n = None"
    "stored = next_stored s now req (d_event_seq d + 1) (n + 1)" "in_i64 (n + 1)"
    "d_users d1 = d_users d" "d_products d1 = d_products d" "d_orders d1 = d_orders d"
proof -
  note p = service_projector [OF assms(1)]
  from Append_Inr [OF assms(2,3)] obtain n where n:
    "n = int (length (aggregate_rows (cs_aggregateType s) (aq_ID req) (d_events d)))"
    "version_read s req n d" "append_guard req n = None" "write_event s fl now req n d = (Inr stored, d')"
    by metis
  note a = projector.write_event_appends [OF p refl n(4) assms(2) n(2)]
  from projector.write_event_Inr [OF p refl n(4)] obtain d1 where d1:
    "store_append fl now (next_event s req n) d = (Inr stored, d1)" "cs_projector s fl stored d1 = (Inr (), d')"
    by metis
  from d1(1) have "d_users d1 = d_users d" "d_products d1 = d_products d" "d_orders d1 = d_orders d"
    by (auto elim!: store_append_Inr)
  moreover have w: "wrap64 (n + 1) = n + 1"
    using a(2,3) by (simp add: event_of_def next_event_def)
  then have "in_i64 (n + 1)" using in_i64_wrap64 [of "n + 1"] by simp
  moreover have "stored = next_stored s now req (d_event_seq d + 1) (n + 1)"
    using a(2) w by (simp add: event_of_def next_event_def next_stored_def)
  ultimately show ?thesis using that [OF n(1) d1(2) n(3)] by blast
qed














text \<open>An aggregate without events has no row in the read model.\<close>

lemma read_model_fresh:
  assumes "read_model_ok d"
  shows "aggregate_rows AggregateUser i (d_events d) = [] \<Longrightarrow> d_users d i = None"
    "aggregate_rows AggregateProduct i (d_events d) = [] \<Longrightarrow> d_products d i = None"
    "aggregate_rows AggregateOrder i (d_events d) = [] \<Longrightarrow> d_orders d i = None"
proof -
  have r: "aggregate_type ty \<Longrightarrow> aggregate_rows ty i (d_events d) = [] \<Longrightarrow> read_version ty i d = None" for ty
    using assms by (simp add: read_model_ok_def)
  show "aggregate_rows AggregateUser i (d_events d) = [] \<Longrightarrow> d_users d i = None"
    "aggregate_rows AggregateProduct i (d_events d) = [] \<Longrightarrow> d_products d i = None"
    "aggregate_rows AggregateOrder i (d_events d) = [] \<Longrightarrow> d_orders d i = None"
    using r [of AggregateUser] r [of AggregateProduct] r [of AggregateOrder]
    by (simp_all add: aggregate_type_def read_version_def)
qed

lemma append_guard_create:
  "append_guard req n = None \<Longrightarrow> aq_IsCreate req \<Longrightarrow> 0 \<le> n \<Longrightarrow> n = 0"
  by (simp add: append_guard_def split: if_splits)

text \<open>A product that is created is returned with the fields of the command, US dollars when no
  currency was given, at version 1 and with both timestamps at the start of the transaction.\<close>

theorem product_create_returns:
  assumes "db_ok d" "read_model_ok d" "in_i64 (pcc_PriceCents cmd)"
    "product_Create n fl now cmd d = (Inr p, d')"
  shows "p = \<lparr>p_ID = pcc_ID cmd, p_Name = pcc_Name cmd, p_Description = pcc_Description cmd,
     p_PriceCents = pcc_PriceCents cmd,
     p_Currency = (if pcc_Currency cmd = [] then ''USD'' else pcc_Currency cmd), p_Deleted = False,
     p_Version = 1, p_CreatedAt = from_micros now, p_UpdatedAt = from_micros now\<rparr>"
proof -
  let ?pl = "\<lparr>pc_Name = pcc_Name cmd, pc_Description = pcc_Description cmd, pc_PriceCents = pcc_PriceCents cmd,
     pc_Currency = (if pcc_Currency cmd = [] then ''USD'' else pcc_Currency cmd)\<rparr>"
  let ?r = "\<lparr>aq_ID = pcc_ID cmd, aq_ExpectedVersion = None, aq_EventType = ProductCreated,
     aq_Payload = product_created_json ?pl, aq_Metadata = pcc_Metadata cmd, aq_IsCreate = True\<rparr>"
  obtain stored where a: "Append (productCmds n) fl now ?r d = (Inr stored, d')"
    "ProductProjector_GetCurrent fl d' (pcc_ID cmd) = Inr p"
    using assms(4) by (auto simp: product_Create_def Let_def split: prod.splits sum.splits)
  from Append_projected [OF _ assms(1) a(1)] obtain d1 m where m:
    "m = int (length (aggregate_rows AggregateProduct (pcc_ID cmd) (d_events d)))"
    "ProductProjector_Apply fl stored d1 = (Inr (), d')" "append_guard ?r m = None"
    "stored = next_stored (productCmds n) now ?r (d_event_seq d + 1) (m + 1)" "d_products d1 = d_products d"
    unfolding service_sel append_request.simps by (metis service_simps(2))
  have "m = 0" by (rule append_guard_create [OF m(3)]) (simp_all add: m(1))
  then have none: "d_products d1 (pcc_ID cmd) = None"
    using read_model_fresh(2) [OF assms(2)] m(1,5) by simp
  have i: "se_AggregateID stored = pcc_ID cmd" by (simp add: m(4))
  have "product_Apply stored (product_New (pcc_ID cmd)) = Inr
      \<lparr>p_ID = pcc_ID cmd, p_Name = pcc_Name cmd, p_Description = pcc_Description cmd,
       p_PriceCents = pcc_PriceCents cmd, p_Currency = pc_Currency ?pl, p_Deleted = False,
       p_Version = 1, p_CreatedAt = from_micros now, p_UpdatedAt = from_micros now\<rparr>"
    using assms(3) \<open>m = 0\<close> by (simp add: m(4) product_Apply_def codec_simps product_New_def)
  then show ?thesis
    using none by (auto intro: ProductProjector_GetCurrent_Apply [OF m(2), unfolded i, OF a(2)])
qed

lemma Inr_pairE:
  assumes "\<not> isl (fst x)"
  obtains r d' where "x = (Inr r, d')"
  using assms by (cases x; cases "fst x") auto

lemma read_model_empty [simp]: "read_model_ok empty_db"
  by (simp add: read_model_ok_def read_version_def)

definition sample_product :: product_create_command where
  "sample_product = \<lparr>pcc_ID = ''p1'', pcc_Name = ''pen'', pcc_Description = [], pcc_PriceCents = 250,
     pcc_Currency = [], pcc_Metadata = empty_metadata\<rparr>"

lemma product_create_returns_witness:
  "\<exists>d'. product_Create 50 no_faults 5 sample_product empty_db =
     (Inr \<lparr>p_ID = ''p1'', p_Name = ''pen'', p_Description = [], p_PriceCents = 250, p_Currency = ''USD'',
        p_Deleted = False, p_Version = 1, p_CreatedAt = from_micros 5, p_UpdatedAt = from_micros 5\<rparr>, d')"
proof -
  have "\<not> isl (fst (product_Create 50 no_faults 5 sample_product empty_db))" by code_simp
  then obtain p d' where p: "product_Create 50 no_faults 5 sample_product empty_db = (Inr p, d')"
    by (rule Inr_pairE)
  from product_create_returns [OF _ _ _ p] p show ?thesis by (simp add: sample_product_def)
qed

text \<open>An order that is created is returned with the items and the customer of the command, pending,
  at version 1, and with the sum of price times quantity, wrapped to 64 bits, as its total.\<close>

theorem order_create_returns:
  assumes "db_ok d" "read_model_ok d" "pred_option (list_all item_ok) (occ_Items cmd)"
    "order_Create n fl now cmd d = (Inr ord, d')"
  shows "ord = \<lparr>o_ID = occ_ID cmd, o_UserID = occ_UserID cmd, o_Status = ''pending'',
     o_TotalCents = wrap64 (exact_total (item_list (occ_Items cmd))),
     o_Currency = (if occ_Currency cmd = [] then ''USD'' else occ_Currency cmd),
     o_Items = occ_Items cmd, o_Cancelled = False, o_Version = 1,
     o_CreatedAt = from_micros now, o_UpdatedAt = from_micros now\<rparr>"
proof -
  let ?cur = "if occ_Currency cmd = [] then ''USD'' else occ_Currency cmd"
  let ?tot = "wrap64 (exact_total (item_list (occ_Items cmd)))"
  let ?pl = "\<lparr>oc_UserID = occ_UserID cmd, oc_Currency = ?cur, oc_TotalCents = ?tot, oc_Items = occ_Items cmd\<rparr>"
  let ?r = "\<lparr>aq_ID = occ_ID cmd, aq_ExpectedVersion = None, aq_EventType = OrderCreated,
     aq_Payload = order_created_json ?pl, aq_Metadata = occ_Metadata cmd, aq_IsCreate = True\<rparr>"
  obtain stored where a: "Append (orderCmds n) fl now ?r d = (Inr stored, d')"
    "OrderProjector_GetCurrent fl d' (occ_ID cmd) = Inr ord"
    using assms(4) by (auto simp: order_Create_def Let_def foldl_add_item_cents split: prod.splits sum.splits)
  from Append_projected [OF _ assms(1) a(1)] obtain d1 m where m:
    "m = int (length (aggregate_rows AggregateOrder (occ_ID cmd) (d_events d)))"
    "OrderProjector_Apply fl stored d1 = (Inr (), d')" "append_guard ?r m = None"
    "stored = next_stored (orderCmds n) now ?r (d_event_seq d + 1) (m + 1)" "d_orders d1 = d_orders d"
    unfolding service_sel append_request.simps by (metis service_simps(3))
  have "m = 0" by (rule append_guard_create [OF m(3)]) (simp_all add: m(1))
  then have none: "d_orders d1 (occ_ID cmd) = None"
    using read_model_fresh(3) [OF assms(2)] m(1,5) by simp
  have i: "se_AggregateID stored = occ_ID cmd" "in_i64 (se_Version stored)" "t_loc (se_CreatedAt stored) = Local"
    using \<open>m = 0\<close> by (simp_all add: m(4) from_micros_def)
  have "order_Apply stored (order_New (occ_ID cmd)) = Inr
      \<lparr>o_ID = occ_ID cmd, o_UserID = occ_UserID cmd, o_Status = ''pending'', o_TotalCents = ?tot,
       o_Currency = ?cur, o_Items = occ_Items cmd, o_Cancelled = False, o_Version = 1,
       o_CreatedAt = from_micros now, o_UpdatedAt = from_micros now\<rparr>"
    using assms(3) \<open>m = 0\<close> by (simp add: m(4) order_Apply_def codec_simps order_New_def)
  then show ?thesis
    using none by (auto intro: OrderProjector_GetCurrent_Apply [OF m(2), unfolded i(1), OF a(2) i(2,3)])
qed

definition sample_order :: order_create_command where
  "sample_order = \<lparr>occ_ID = ''o1'', occ_UserID = ''u1'', occ_Items = Some
     [\<lparr>i_ProductID = ''p1'', i_Quantity = 2, i_PriceCents = 250\<rparr>,
      \<lparr>i_ProductID = ''p2'', i_Quantity = 1, i_PriceCents = 100\<rparr>],
     occ_Currency = ''EUR'', occ_Metadata = empty_metadata\<rparr>"

lemma order_create_returns_witness:
  "\<exists>ord d'. order_Create 50 no_faults 5 sample_order empty_db = (Inr ord, d') \<and> o_TotalCents ord = 600"
proof -
  have "\<not> isl (fst (order_Create 50 no_faults 5 sample_order empty_db))" by code_simp
  then obtain ord d' where p: "order_Create 50 no_faults 5 sample_order empty_db = (Inr ord, d')"
    by (rule Inr_pairE)
  from order_create_returns [OF _ _ _ p] p show ?thesis
    by (simp add: sample_order_def item_ok_def exact_total_def item_list_def wrap64_id)
qed

text \<open>The read model forgets: an update of a user returns, and leaves in the read model, empty
  strings for every field the command does not set, whatever the user was before; the address and
  the avatar are empty always.\<close>

theorem user_update_forgets:
  assumes "db_ok d" "user_Update n fl now cmd d = ((Inr u, job), d')"
  shows "u_Name u = or_keep (uuc_Name cmd) [] \<and> u_Email u = or_keep (uuc_Email cmd) [] \<and>
    u_Address u = [] \<and> u_Avatar u = [] \<and> u_Deleted u = False"
proof -
  let ?pl = "\<lparr>uu_Name = uuc_Name cmd, uu_Email = uuc_Email cmd, uu_Address = uuc_Address cmd, uu_Avatar = uuc_Avatar cmd\<rparr>"
  let ?r = "user_request (uuc_ID cmd) (uuc_ExpectedVersion cmd) UserUpdated (user_updated_json ?pl) (uuc_Metadata cmd)"
  from user_append_Inr [OF assms(2) [unfolded user_Update_def]] obtain stored where a:
    "Append (userCmds n) fl now ?r d = (Inr stored, d')" "UserProjector_GetCurrent fl d' (uuc_ID cmd) = Inr u"
    by metis
  from Append_projected [OF _ assms(1) a(1)] obtain d1 m where m:
    "UserProjector_Apply fl stored d1 = (Inr (), d')"
    "stored = next_stored (userCmds n) now ?r (d_event_seq d + 1) m"
    unfolding service_sel by (metis service_simps(1))
  have i: "se_AggregateID stored = uuc_ID cmd" by (simp add: m(2) user_request_def)
  have "user_Apply stored (user_New (uuc_ID cmd)) = Inr ((user_New (uuc_ID cmd))
      \<lparr>u_Version := m, u_UpdatedAt := from_micros now, u_Name := or_keep (uuc_Name cmd) [],
       u_Email := or_keep (uuc_Email cmd) [], u_Address := or_keep (uuc_Address cmd) [],
       u_Avatar := or_keep (uuc_Avatar cmd) []\<rparr>)"
    by (simp add: m(2) user_Apply_def codec_simps user_request_def user_New_def)
  moreover obtain u1 c where "user_Apply stored (user_New (uuc_ID cmd)) = Inr u1"
    "u = u1\<lparr>u_Address := [], u_Avatar := [], u_CreatedAt := from_micros c,
       u_UpdatedAt := from_micros (to_micros (u_UpdatedAt u1))\<rparr>"
    by (rule UserProjector_GetCurrent_Apply [OF m(1), unfolded i, OF a(2)])
  ultimately show ?thesis by (auto simp: user_New_def)
qed

text \<open>A user that is created and then given a new email, the first of two versions to be snapshotted.\<close>

definition scenario_create :: user_create_command where
  "scenario_create = \<lparr>ucc_ID = ''u1'', ucc_Name = ''Ann'', ucc_Email = ''a@x'', ucc_ExpectedVersion = None,
     ucc_Metadata = empty_metadata\<rparr>"

definition scenario_email :: user_update_command where
  "scenario_email = \<lparr>uuc_ID = ''u1'', uuc_Name = None, uuc_Email = Some ''ann@y'', uuc_Address = None,
     uuc_Avatar = None, uuc_ExpectedVersion = None, uuc_Metadata = empty_metadata\<rparr>"

definition scenario_db :: db where
  "scenario_db = snd (user_Create 2 no_faults 1000000 scenario_create empty_db)"

lemma scenario_db_ok: "db_ok scenario_db"
proof -
  let ?a = "user_Create 2 no_faults 1000000 scenario_create empty_db"
  have "\<not> isl (fst (fst ?a))" by code_simp
  then obtain u job d' where a: "?a = ((Inr u, job), d')" by (cases ?a; cases "fst (fst ?a)") auto
  from user_append_Inr [OF this [unfolded user_Create_def]] show ?thesis
    using Append_keeps(1) [OF service_projector] a unfolding scenario_db_def
    by (metis db_ok_empty(1) service_simps(1) snd_conv)
qed

lemma user_update_forgets_witness:
  "\<exists>u. fst (fst (user_Update 2 no_faults 2000000 scenario_email scenario_db)) = Inr u \<and>
     u_Name u = [] \<and> u_Email u = ''ann@y'' \<and>
     map_sum id u_Name (ReplayUser no_faults (snd (user_Update 2 no_faults 2000000 scenario_email scenario_db))
       ''u1'' empty_query) = Inr ''Ann''"
proof -
  let ?a = "user_Update 2 no_faults 2000000 scenario_email scenario_db"
  have "\<not> isl (fst (fst ?a))" by code_simp
  then obtain u job d' where a: "?a = ((Inr u, job), d')" by (cases ?a; cases "fst (fst ?a)") auto
  have "map_sum id u_Name (ReplayUser no_faults (snd ?a) ''u1'' empty_query) = Inr ''Ann''" by code_simp
  with user_update_forgets [OF scenario_db_ok a] a show ?thesis by (simp add: scenario_email_def)
qed

text \<open>The snapshot the user service saves is made of that read model: after a creation and a change
  of the email a replay knows the name, and after the snapshot goroutine ran it does not.\<close>

theorem user_snapshot_loses_name:
  "case user_Update 2 no_faults 2000000 scenario_email scenario_db of
     ((_, Some u), d) \<Rightarrow>
       map_sum id u_Name (ReplayUser no_faults d ''u1'' empty_query) = Inr ''Ann'' \<and>
       map_sum id u_Name (ReplayUser no_faults (user_maybeSnapshot no_faults 3000000 u d) ''u1'' empty_query) = Inr []
   | _ \<Rightarrow> False"
  by code_simp

text \<open>C23: the service of users appends as a platform command service does, for which the event that
  creates a user is the create command: same database, same error, and on success the user the read
  model shows.\<close>

theorem user_append_platform:
  "(case user_append n fl now i expected eventType payload meta d of ((r, _), d') \<Rightarrow> (r, d')) =
   (case Append (userCmds n) fl now (user_request i expected eventType payload meta) d of
      (Inl e, d') \<Rightarrow> (Inl e, d')
    | (Inr _, d') \<Rightarrow> (UserProjector_GetCurrent fl d' i, d'))"
  by (rule user_append_Append)

text \<open>Adding an item to an order returns, and leaves in the read model, an order of that one item:
  no customer, the default currency, the total of the item alone.\<close>

theorem order_add_item_forgets:
  assumes "db_ok d" "item_ok (oac_Item cmd)" "order_AddItem n fl now cmd d = (Inr ord, d')"
  shows "o_Items ord = Some [oac_Item cmd] \<and> o_UserID ord = [] \<and> o_Currency ord = ''USD'' \<and>
    o_Status ord = ''pending'' \<and> o_TotalCents ord = wrap64 (exact_total [oac_Item cmd])"
proof -
  let ?r = "\<lparr>aq_ID = oac_ID cmd, aq_ExpectedVersion = oac_ExpectedVersion cmd, aq_EventType = OrderItemAdded,
     aq_Payload = item_added_json \<lparr>oa_Item = oac_Item cmd\<rparr>, aq_Metadata = oac_Metadata cmd, aq_IsCreate = False\<rparr>"
  obtain stored where a: "Append (orderCmds n) fl now ?r d = (Inr stored, d')"
    "OrderProjector_GetCurrent fl d' (oac_ID cmd) = Inr ord"
    using assms(3) by (auto simp: order_AddItem_def split: prod.splits sum.splits)
  from Append_projected [OF _ assms(1) a(1)] obtain d1 m where m:
    "OrderProjector_Apply fl stored d1 = (Inr (), d')"
    "stored = next_stored (orderCmds n) now ?r (d_event_seq d + 1) (m + 1)" "in_i64 (m + 1)"
    unfolding service_sel append_request.simps by (metis service_simps(3))
  have i: "se_AggregateID stored = oac_ID cmd" "in_i64 (se_Version stored)" "t_loc (se_CreatedAt stored) = Local"
    using m(3) by (simp_all add: m(2) from_micros_def)
  have "order_Apply stored (order_New (oac_ID cmd)) = Inr ((order_New (oac_ID cmd))
      \<lparr>o_Version := m + 1, o_UpdatedAt := from_micros now, o_Items := Some [oac_Item cmd],
       o_TotalCents := wrap64 (exact_total [oac_Item cmd])\<rparr>)"
    using assms(2) by (simp add: m(2) order_Apply_def codec_simps order_New_def recalcTotal_def
        items_total_exact item_list_def)
  moreover obtain u1 c where "order_Apply stored (order_New (oac_ID cmd)) = Inr u1"
    "ord = u1\<lparr>o_CreatedAt := from_micros c, o_UpdatedAt := from_micros (to_micros (o_UpdatedAt u1))\<rparr>"
    by (rule OrderProjector_GetCurrent_Apply [OF m(1), unfolded i(1), OF a(2) i(2,3)])
  ultimately show ?thesis by (auto simp: order_New_def)
qed

definition scenario_item :: order_add_item_command where
  "scenario_item = \<lparr>oac_ID = ''o1'', oac_Item = \<lparr>i_ProductID = ''p3'', i_Quantity = 3, i_PriceCents = 10\<rparr>,
     oac_ExpectedVersion = Some 1, oac_Metadata = empty_metadata\<rparr>"

definition scenario_order_db :: db where
  "scenario_order_db = snd (order_Create 50 no_faults 5 sample_order empty_db)"

lemma scenario_order_db_ok: "db_ok scenario_order_db"
  unfolding scenario_order_db_def order_Create_def Let_def
  using Append_keeps(1) [OF service_projector [OF service_simps(3)] db_ok_empty(1)]
  by (auto split: prod.split sum.split)

lemma order_add_item_forgets_witness:
  "\<exists>ord. fst (order_AddItem 50 no_faults 9 scenario_item scenario_order_db) = Inr ord \<and>
     o_UserID ord = [] \<and> o_TotalCents ord = 30 \<and>
     map_sum id (\<lambda>x. (o_UserID x, o_TotalCents x)) (ReplayOrder no_faults
       (snd (order_AddItem 50 no_faults 9 scenario_item scenario_order_db)) ''o1'' empty_query) = Inr (''u1'', 630)"
proof -
  let ?a = "order_AddItem 50 no_faults 9 scenario_item scenario_order_db"
  have "\<not> isl (fst ?a)" by code_simp
  then obtain ord d' where a: "?a = (Inr ord, d')" by (rule Inr_pairE)
  have "map_sum id (\<lambda>x. (o_UserID x, o_TotalCents x)) (ReplayOrder no_faults (snd ?a) ''o1'' empty_query)
    = Inr (''u1'', 630)" by code_simp
  with order_add_item_forgets [OF scenario_order_db_ok _ a] a show ?thesis
    by (simp add: scenario_item_def item_ok_def exact_total_def wrap64_id)
qed

end
