(* ===== verification/Command_Effects.thy ===== *)
theory Command_Effects
  imports Commands
begin

text \<open>
  What the commands of \<open>service.go\<close> of users, products and orders do to the aggregates, as a replay of
  \<open>internal/replay\<close> shows them: each command against a specification of its effect on the state.
\<close>

section \<open>The specification\<close>

definition created_user :: "user_create_command \<Rightarrow> gotime \<Rightarrow> user" where
  "created_user cmd t = \<lparr>u_ID = ucc_ID cmd, u_Name = ucc_Name cmd, u_Email = ucc_Email cmd, u_Address = [],
     u_Avatar = [], u_Deleted = False, u_Version = 1, u_CreatedAt = t, u_UpdatedAt = t\<rparr>"

definition updated_user :: "user_update_command \<Rightarrow> gotime \<Rightarrow> user \<Rightarrow> user" where
  "updated_user cmd t u = u\<lparr>u_Name := or_keep (uuc_Name cmd) (u_Name u), u_Email := or_keep (uuc_Email cmd) (u_Email u),
     u_Address := or_keep (uuc_Address cmd) (u_Address u), u_Avatar := or_keep (uuc_Avatar cmd) (u_Avatar u),
     u_Version := u_Version u + 1, u_UpdatedAt := t\<rparr>"

definition deleted_user :: "gotime \<Rightarrow> user \<Rightarrow> user" where
  "deleted_user t u = u\<lparr>u_Deleted := True, u_Version := u_Version u + 1, u_UpdatedAt := t\<rparr>"

definition created_product :: "product_create_command \<Rightarrow> gotime \<Rightarrow> product" where
  "created_product cmd t = \<lparr>p_ID = pcc_ID cmd, p_Name = pcc_Name cmd, p_Description = pcc_Description cmd,
     p_PriceCents = pcc_PriceCents cmd, p_Currency = (if pcc_Currency cmd = [] then ''USD'' else pcc_Currency cmd),
     p_Deleted = False, p_Version = 1, p_CreatedAt = t, p_UpdatedAt = t\<rparr>"

definition updated_product :: "product_update_command \<Rightarrow> gotime \<Rightarrow> product \<Rightarrow> product" where
  "updated_product cmd t p = p\<lparr>p_Name := or_keep (puc_Name cmd) (p_Name p),
     p_Description := or_keep (puc_Description cmd) (p_Description p),
     p_PriceCents := or_keep (puc_PriceCents cmd) (p_PriceCents p),
     p_Currency := or_keep (puc_Currency cmd) (p_Currency p), p_Version := p_Version p + 1, p_UpdatedAt := t\<rparr>"

definition deleted_product :: "gotime \<Rightarrow> product \<Rightarrow> product" where
  "deleted_product t p = p\<lparr>p_Deleted := True, p_Version := p_Version p + 1, p_UpdatedAt := t\<rparr>"

text \<open>The total of an order is the sum of price times quantity, wrapped once to 64 bits.\<close>

definition created_order :: "order_create_command \<Rightarrow> gotime \<Rightarrow> order" where
  "created_order cmd t = \<lparr>o_ID = occ_ID cmd, o_UserID = occ_UserID cmd, o_Status = ''pending'',
     o_TotalCents = wrap64 (exact_total (item_list (occ_Items cmd))),
     o_Currency = (if occ_Currency cmd = [] then ''USD'' else occ_Currency cmd), o_Items = occ_Items cmd,
     o_Cancelled = False, o_Version = 1, o_CreatedAt = t, o_UpdatedAt = t\<rparr>"

definition updated_order :: "order_update_command \<Rightarrow> gotime \<Rightarrow> order \<Rightarrow> order" where
  "updated_order cmd t ord = ord\<lparr>o_Status := or_keep (ouc_Status cmd) (o_Status ord),
     o_Version := o_Version ord + 1, o_UpdatedAt := t\<rparr>"

definition cancelled_order :: "gotime \<Rightarrow> order \<Rightarrow> order" where
  "cancelled_order t ord = ord\<lparr>o_Cancelled := True, o_Status := ''cancelled'', o_Version := o_Version ord + 1, o_UpdatedAt := t\<rparr>"

definition order_with_item :: "order_add_item_command \<Rightarrow> gotime \<Rightarrow> order \<Rightarrow> order" where
  "order_with_item cmd t ord = (let items = item_list (o_Items ord) @ [oac_Item cmd]
     in ord\<lparr>o_Items := Some items, o_TotalCents := wrap64 (exact_total items), o_Version := o_Version ord + 1, o_UpdatedAt := t\<rparr>)"

text \<open>
  From one database to the next, replays of the present show the aggregate \<open>i\<close> as \<open>x\<close>, and every other
  one as before, timestamps as instants.
\<close>

definition takes_effect :: "('a \<Rightarrow> 'a) \<Rightarrow> (db \<Rightarrow> string \<Rightarrow> 'a result) \<Rightarrow> db \<Rightarrow> db \<Rightarrow> string \<Rightarrow> 'a \<Rightarrow> bool" where
  "takes_effect utc replay d d' i x \<longleftrightarrow> map_sum id utc (replay d' i) = Inr (utc x) \<and>
     (\<forall>j. j \<noteq> i \<longrightarrow> map_sum id utc (replay d' j) = map_sum id utc (replay d j))"

section \<open>One event more\<close>

context aggregate
begin

lemma event_takes_effect:
  assumes "db_ok d" "db_ok d'" "good_snapshots A marshal ty d" "d_snapshots d' = d_snapshots d"
    and "d_events d' = d_events d @ [new_event_row now k e]" "ae_AggregateType e = ty"
    and "engine_replay A no_faults d ty (ae_AggregateID e) empty_query = Inr a \<or>
      aggregate_events ty (ae_AggregateID e) (d_events d) = [] \<and> a = ag_New A (ae_AggregateID e)"
    and "ag_Apply A (event_of now k e) a = Inr b"
  shows "takes_effect norm (\<lambda>d i. engine_replay A no_faults d ty i empty_query) d d' (ae_AggregateID e) b"
proof -
  let ?i = "ae_AggregateID e" and ?ev = "event_of now k e"
  let ?es = "aggregate_events ty ?i (d_events d)"
  have good: "good_snapshots A marshal ty d'" by (rule good_snapshots_append [OF assms(3,4,5)])
  have fold: "map_sum id norm (engine_replay A no_faults c ty j empty_query) =
      map_sum id norm (fold_state A j (aggregate_events ty j (d_events c)))"
    if "db_ok c" "good_snapshots A marshal ty c" for c j
    using engine_replay_general [OF that(1) _ _ that(2), of no_faults j empty_query] by simp
  have es: "aggregate_events ty j (d_events d') = aggregate_events ty j (d_events d) @ (if j = ?i then [?ev] else [])" for j
    unfolding assms(5) aggregate_events_new_row using assms(6) by auto
  obtain c where c: "apply_all A ?es (ag_New A ?i) = Inr c" "norm a = norm c"
    using assms(7) replay_current [OF assms(1,3)] by (metis apply_all.simps(1))
  have "map_sum id norm (ag_Apply A ?ev c) = map_sum id norm (ag_Apply A ?ev a)"
    using c(2) Apply_norm by metis
  then obtain b' where b': "ag_Apply A ?ev c = Inr b'" "norm b' = norm b"
    using assms(8) by (cases "ag_Apply A ?ev c") auto
  then have "fold_state A ?i (aggregate_events ty ?i (d_events d')) = Inr b'"
    using c(1) by (simp add: es fold_state_def apply_all_append)
  then show ?thesis
    using fold [OF assms(2) good] fold [OF assms(1,3)] b'(2) by (simp add: takes_effect_def es)
qed

lemma replayed_length:
  "db_ok d \<Longrightarrow> good_snapshots A marshal ty d \<Longrightarrow> engine_replay A no_faults d ty i empty_query = Inr a \<Longrightarrow>
     ag_currentVersion A a = int (length (aggregate_rows ty i (d_events d)))"
  using replay_current [of d ty no_faults i a] length_aggregate_events [OF db_ok_log] by metis

end

text \<open>What an append that succeeds adds to the log, whatever the service.\<close>

lemma Append_adds:
  assumes "service s" "db_ok d" "Append s fl now req d = (Inr stored, d')"
  shows "let n = int (length (aggregate_rows (cs_aggregateType s) (aq_ID req) (d_events d)))
    in db_ok d' \<and> d_snapshots d' = d_snapshots d \<and> append_guard req n = None \<and> ae_Version (next_event s req n) = n + 1 \<and>
       (\<exists>k. d_events d' = d_events d @ [new_event_row now k (next_event s req n)])"
proof -
  note p = service_projector [OF assms(1)]
  from Append_Inr [OF assms(2,3)] obtain n where n:
    "n = int (length (aggregate_rows (cs_aggregateType s) (aq_ID req) (d_events d)))"
    "version_read s req n d" "append_guard req n = None" "write_event s fl now req n d = (Inr stored, d')"
    by metis
  note a = projector.write_event_appends [OF p refl n(4) assms(2) n(2)]
  have "ae_Version (next_event s req n) = n + 1" using a(2,3) by (simp add: event_of_def)
  then show ?thesis
    using n(1,3) a(4,5) Append_keeps(1) [OF p assms(2,3)] by (auto simp: Let_def)
qed

text \<open>A command that changes an aggregate, and one that creates it.\<close>

lemma next_event_sel [simp]:
  "ae_AggregateType (next_event s req n) = cs_aggregateType s" "ae_AggregateID (next_event s req n) = aq_ID req"
  by (simp_all add: next_event_def)

lemma event_of_sel [simp]:
  "se_Version (event_of now k e) = ae_Version e" "se_EventType (event_of now k e) = ae_EventType e"
  "se_Payload (event_of now k e) = ae_Payload e" "se_CreatedAt (event_of now k e) = from_micros now"
  by (simp_all add: event_of_def)

context aggregate
begin

lemma command_takes_effect:
  assumes "service s" "cs_aggregateType s = ty" "db_ok d" "good_snapshots A marshal ty d" "Append s fl now req d = (Inr stored, d')"
    and "engine_replay A no_faults d ty (aq_ID req) empty_query = Inr a \<or> aq_IsCreate req \<and> a = ag_New A (aq_ID req)"
    and "\<And>e. se_Version e = ag_currentVersion A a + 1 \<Longrightarrow> se_EventType e = aq_EventType req \<Longrightarrow> se_Payload e = aq_Payload req \<Longrightarrow>
      se_CreatedAt e = from_micros now \<Longrightarrow> ag_Apply A e a = Inr b"
  shows "takes_effect norm (\<lambda>d i. engine_replay A no_faults d ty i empty_query) d d' (aq_ID req) b"
proof -
  let ?n = "int (length (aggregate_rows ty (aq_ID req) (d_events d)))"
  from Append_adds [OF assms(1,3,5)] obtain k where k: "db_ok d'" "d_snapshots d' = d_snapshots d"
    "append_guard req ?n = None" "ae_Version (next_event s req ?n) = ?n + 1"
    "d_events d' = d_events d @ [new_event_row now k (next_event s req ?n)]"
    by (auto simp: assms(2) Let_def)
  have "ag_currentVersion A a = ?n \<and>
    (engine_replay A no_faults d ty (aq_ID req) empty_query = Inr a \<or>
      aggregate_events ty (aq_ID req) (d_events d) = [] \<and> a = ag_New A (aq_ID req))"
    using assms(6)
  proof
    assume "aq_IsCreate req \<and> a = ag_New A (aq_ID req)"
    moreover from this have "?n = 0" using append_guard_create [OF k(3)] by simp
    ultimately show ?thesis
      using version_New length_aggregate_events [OF db_ok_log [OF assms(3)], of ty "aq_ID req"] by simp
  qed (use replayed_length [OF assms(3,4)] in simp)
  moreover from this have "ag_Apply A (event_of now k (next_event s req ?n)) a = Inr b"
    by (intro assms(7)) (simp_all add: k(4), simp_all add: next_event_def)
  ultimately show ?thesis
    using event_takes_effect [OF assms(3) k(1) assms(4) k(2) k(5), of a b] assms(2) by simp
qed

end

section \<open>What the events of the commands do\<close>

lemma created_user_Apply:
  "se_Version e = 1 \<Longrightarrow> se_EventType e = UserCreated \<Longrightarrow>
   se_Payload e = user_created_json \<lparr>uc_Name = ucc_Name cmd, uc_Email = ucc_Email cmd\<rparr> \<Longrightarrow>
     user_Apply e (user_New (ucc_ID cmd)) = Inr (created_user cmd (se_CreatedAt e))"
  by (simp add: user_Apply_def codec_simps user_New_def created_user_def)

lemma updated_user_Apply:
  "se_Version e = u_Version u + 1 \<Longrightarrow> se_EventType e = UserUpdated \<Longrightarrow>
   se_Payload e = user_updated_json \<lparr>uu_Name = uuc_Name cmd, uu_Email = uuc_Email cmd, uu_Address = uuc_Address cmd,
     uu_Avatar = uuc_Avatar cmd\<rparr> \<Longrightarrow> user_Apply e u = Inr (updated_user cmd (se_CreatedAt e) u)"
  by (cases u) (simp add: user_Apply_def codec_simps updated_user_def)

lemma deleted_user_Apply:
  "se_Version e = u_Version u + 1 \<Longrightarrow> se_EventType e = UserDeleted \<Longrightarrow> user_Apply e u = Inr (deleted_user (se_CreatedAt e) u)"
  by (cases u) (simp add: user_Apply_def deleted_user_def)

lemma created_product_Apply:
  "se_Version e = 1 \<Longrightarrow> se_EventType e = ProductCreated \<Longrightarrow> in_i64 (pcc_PriceCents cmd) \<Longrightarrow>
   se_Payload e = product_created_json \<lparr>pc_Name = pcc_Name cmd, pc_Description = pcc_Description cmd,
     pc_PriceCents = pcc_PriceCents cmd, pc_Currency = (if pcc_Currency cmd = [] then ''USD'' else pcc_Currency cmd)\<rparr> \<Longrightarrow>
     product_Apply e (product_New (pcc_ID cmd)) = Inr (created_product cmd (se_CreatedAt e))"
  by (simp add: product_Apply_def codec_simps product_New_def created_product_def)

lemma updated_product_Apply:
  "se_Version e = p_Version p + 1 \<Longrightarrow> se_EventType e = ProductUpdated \<Longrightarrow> pred_option in_i64 (puc_PriceCents cmd) \<Longrightarrow>
   se_Payload e = product_updated_json \<lparr>pu_Name = puc_Name cmd, pu_Description = puc_Description cmd,
     pu_PriceCents = puc_PriceCents cmd, pu_Currency = puc_Currency cmd\<rparr> \<Longrightarrow>
     product_Apply e p = Inr (updated_product cmd (se_CreatedAt e) p)"
  by (cases p) (simp add: product_Apply_def codec_simps updated_product_def)

lemma deleted_product_Apply:
  "se_Version e = p_Version p + 1 \<Longrightarrow> se_EventType e = ProductDeleted \<Longrightarrow>
     product_Apply e p = Inr (deleted_product (se_CreatedAt e) p)"
  by (cases p) (simp add: product_Apply_def deleted_product_def)

lemma created_order_Apply:
  "se_Version e = 1 \<Longrightarrow> se_EventType e = OrderCreated \<Longrightarrow> pred_option (list_all item_ok) (occ_Items cmd) \<Longrightarrow>
   se_Payload e = order_created_json \<lparr>oc_UserID = occ_UserID cmd,
     oc_Currency = (if occ_Currency cmd = [] then ''USD'' else occ_Currency cmd),
     oc_TotalCents = foldl add_item_cents 0 (item_list (occ_Items cmd)), oc_Items = occ_Items cmd\<rparr> \<Longrightarrow>
     order_Apply e (order_New (occ_ID cmd)) = Inr (created_order cmd (se_CreatedAt e))"
  by (simp add: order_Apply_def codec_simps order_New_def created_order_def foldl_add_item_cents)

lemma updated_order_Apply:
  "se_Version e = o_Version ord + 1 \<Longrightarrow> se_EventType e = OrderUpdated \<Longrightarrow>
   se_Payload e = order_updated_json \<lparr>ou_Status = ouc_Status cmd\<rparr> \<Longrightarrow>
     order_Apply e ord = Inr (updated_order cmd (se_CreatedAt e) ord)"
  by (cases ord) (simp add: order_Apply_def codec_simps updated_order_def)

lemma cancelled_order_Apply:
  "se_Version e = o_Version ord + 1 \<Longrightarrow> se_EventType e = OrderCancelled \<Longrightarrow>
     order_Apply e ord = Inr (cancelled_order (se_CreatedAt e) ord)"
  by (cases ord) (simp add: order_Apply_def cancelled_order_def)

lemma order_with_item_Apply:
  "se_Version e = o_Version ord + 1 \<Longrightarrow> se_EventType e = OrderItemAdded \<Longrightarrow> item_ok (oac_Item cmd) \<Longrightarrow>
   se_Payload e = item_added_json \<lparr>oa_Item = oac_Item cmd\<rparr> \<Longrightarrow>
     order_Apply e ord = Inr (order_with_item cmd (se_CreatedAt e) ord)"
  by (cases ord) (simp add: order_Apply_def codec_simps recalcTotal_def items_total_exact order_with_item_def item_list_def Let_def)

section \<open>Properties\<close>

abbreviation users_now :: "db \<Rightarrow> string \<Rightarrow> user result" where
  "users_now d i \<equiv> ReplayUser no_faults d i empty_query"

abbreviation products_now :: "db \<Rightarrow> string \<Rightarrow> product result" where
  "products_now d i \<equiv> ReplayProduct no_faults d i empty_query"

abbreviation orders_now :: "db \<Rightarrow> string \<Rightarrow> order result" where
  "orders_now d i \<equiv> ReplayOrder no_faults d i empty_query"

text \<open>The three services, from the contract of their aggregate.\<close>

lemma user_command_effect:
  assumes "db_ok d" "users_good d" "user_append n fl now i expected ty payload meta d = ((Inr x, job), d')"
    "users_now d i = Inr u \<or> ty = UserCreated \<and> u = user_New i"
    "\<And>e. se_Version e = u_Version u + 1 \<Longrightarrow> se_EventType e = ty \<Longrightarrow> se_Payload e = payload \<Longrightarrow> user_Apply e u = Inr (f (se_CreatedAt e))"
  shows "takes_effect user_utc users_now d d' i (f (from_micros now))"
proof -
  let ?r = "user_request i expected ty payload meta"
  obtain stored where a: "Append (userCmds n) fl now ?r d = (Inr stored, d')" using user_append_Inr [OF assms(3)] by metis
  have "takes_effect user_utc (\<lambda>d i. engine_replay userAgg no_faults d AggregateUser i empty_query) d d' (aq_ID ?r) (f (from_micros now))"
    by (rule user_agg.command_takes_effect [OF _ _ assms(1) _ a, where a = u])
      (use assms(2,4,5) in \<open>auto simp: good_defs ReplayUser_def user_request_def agg_defs\<close>)
  then show ?thesis by (simp add: ReplayUser_def [abs_def] user_request_def)
qed

lemma product_command_effect:
  assumes "db_ok d" "products_good d" "Append (productCmds n) fl now r d = (Inr stored, d')"
    "products_now d (aq_ID r) = Inr p \<or> aq_IsCreate r \<and> p = product_New (aq_ID r)"
    "\<And>e. se_Version e = p_Version p + 1 \<Longrightarrow> se_EventType e = aq_EventType r \<Longrightarrow> se_Payload e = aq_Payload r \<Longrightarrow>
      product_Apply e p = Inr (f (se_CreatedAt e))"
  shows "takes_effect product_utc products_now d d' (aq_ID r) (f (from_micros now))"
proof -
  have "takes_effect product_utc (\<lambda>d i. engine_replay productAgg no_faults d AggregateProduct i empty_query) d d' (aq_ID r) (f (from_micros now))"
    by (rule product_agg.command_takes_effect [OF _ _ assms(1) _ assms(3), where a = p])
      (use assms(2,4,5) in \<open>auto simp: good_defs ReplayProduct_def agg_defs\<close>)
  then show ?thesis by (simp add: ReplayProduct_def [abs_def])
qed

lemma order_command_effect:
  assumes "db_ok d" "orders_good d" "Append (orderCmds n) fl now r d = (Inr stored, d')"
    "orders_now d (aq_ID r) = Inr ord \<or> aq_IsCreate r \<and> ord = order_New (aq_ID r)"
    "\<And>e. se_Version e = o_Version ord + 1 \<Longrightarrow> se_EventType e = aq_EventType r \<Longrightarrow> se_Payload e = aq_Payload r \<Longrightarrow>
      order_Apply e ord = Inr (f (se_CreatedAt e))"
  shows "takes_effect order_utc orders_now d d' (aq_ID r) (f (from_micros now))"
proof -
  have "takes_effect order_utc (\<lambda>d i. engine_replay orderAgg no_faults d AggregateOrder i empty_query) d d' (aq_ID r) (f (from_micros now))"
    by (rule order_agg.command_takes_effect [OF _ _ assms(1) _ assms(3), where a = ord])
      (use assms(2,4,5) in \<open>auto simp: good_defs ReplayOrder_def agg_defs\<close>)
  then show ?thesis by (simp add: ReplayOrder_def [abs_def])
qed

text \<open>The goroutine that snapshots the read model, started by the command that makes the version due.\<close>

definition snapshot_job :: "i64 \<Rightarrow> db \<Rightarrow> string \<Rightarrow> user \<Rightarrow> user option" where
  "snapshot_job n d i x =
     (if 0 < n \<and> int (length (aggregate_rows AggregateUser i (d_events d))) mod n = 0 then Some x else None)"

lemma user_append_job:
  assumes "db_ok d" "user_append n fl now i expected ty payload meta d = ((Inr x, job), d')"
  shows "job = snapshot_job n d' i x"
proof -
  let ?r = "user_request i expected ty payload meta" and ?k = "int (length (aggregate_rows AggregateUser i (d_events d)))"
  obtain stored where a: "Append (userCmds n) fl now ?r d = (Inr stored, d')" using user_append_Inr [OF assms(2)] by metis
  have i: "aq_ID ?r = i" by (simp add: user_request_def)
  from Append_adds [OF _ assms(1) a] obtain k where k: "ae_Version (next_event (userCmds n) ?r ?k) = ?k + 1"
    "d_events d' = d_events d @ [new_event_row now k (next_event (userCmds n) ?r ?k)]" by (auto simp: Let_def i)
  have "aggregate_rows AggregateUser i (d_events d') = aggregate_rows AggregateUser i (d_events d) @ [new_event_row now k (next_event (userCmds n) ?r ?k)]"
    unfolding k(2) by (simp add: aggregate_rows_def new_event_row_def i)
  then have n: "int (length (aggregate_rows AggregateUser i (d_events d'))) = wrap64 (?k + 1)"
    using k(1) by (simp add: next_event_def)
  have "LatestVersion fl d AggregateUser i = Inr ?k \<or> fl CallLatestVersion"
    using LatestVersion_log_ok [OF db_ok_log [OF assms(1)]] by blast
  then show ?thesis
    using assms(2) unfolding snapshot_job_def n user_append_def
    by (auto simp: LatestVersion_def Let_def split: if_splits option.splits prod.splits sum.splits)
qed

text \<open>C9: a command on users that succeeds does to the replayed users what its specification says and
  nothing else: a creation makes the user of the command at version 1, an update replaces the fields
  it names and keeps the others, a deletion marks the user, each one version and one time on; every
  other user is replayed as before. This is so as long as the snapshots of users hold the states their
  versions say, and until a snapshot of the read model is saved: the command starts the goroutine
  that saves one exactly when a positive \<open>SNAPSHOT_EVERY\<close> divides the new version, and what replays show
  after that is another matter.\<close>

theorem user_commands_take_effect:
  assumes "db_ok d" "users_good d"
  shows "(user_Create n fl now c d = ((Inr x, job), d') \<longrightarrow> job = snapshot_job n d' (ucc_ID c) x \<and>
      takes_effect user_utc users_now d d' (ucc_ID c) (created_user c (from_micros now))) \<and>
    (user_Update n fl now m d = ((Inr x, job), d') \<and> users_now d (uuc_ID m) = Inr u \<longrightarrow> job = snapshot_job n d' (uuc_ID m) x \<and>
      takes_effect user_utc users_now d d' (uuc_ID m) (updated_user m (from_micros now) u)) \<and>
    (user_Delete n fl now l d = ((Inr x, job), d') \<and> users_now d (udc_ID l) = Inr u \<longrightarrow> job = snapshot_job n d' (udc_ID l) x \<and>
      takes_effect user_utc users_now d d' (udc_ID l) (deleted_user (from_micros now) u))"
proof (intro conjI impI)
  note effect = user_command_effect [OF assms]
  show "user_Create n fl now c d = ((Inr x, job), d') \<Longrightarrow>
      takes_effect user_utc users_now d d' (ucc_ID c) (created_user c (from_micros now))"
    unfolding user_Create_def
    by (erule effect [where u = "user_New (ucc_ID c)"]) (simp_all add: created_user_Apply user_New_def [THEN arg_cong [where f = u_Version]])
  show "user_Update n fl now m d = ((Inr x, job), d') \<and> users_now d (uuc_ID m) = Inr u \<Longrightarrow>
      takes_effect user_utc users_now d d' (uuc_ID m) (updated_user m (from_micros now) u)"
    unfolding user_Update_def by (erule conjE, erule effect [where u = u]) (simp_all add: updated_user_Apply)
  show "user_Delete n fl now l d = ((Inr x, job), d') \<and> users_now d (udc_ID l) = Inr u \<Longrightarrow>
      takes_effect user_utc users_now d d' (udc_ID l) (deleted_user (from_micros now) u)"
    unfolding user_Delete_def by (erule conjE, erule effect [where u = u]) (simp_all add: deleted_user_Apply)
qed (auto simp: user_Create_def user_Update_def user_Delete_def dest: user_append_job [OF assms(1)])

lemma fresh_good: "d_snapshots d = [] \<Longrightarrow> users_good d" "d_snapshots d = [] \<Longrightarrow> products_good d"
  "d_snapshots d = [] \<Longrightarrow> orders_good d"
  by (simp_all add: good_defs good_snapshots_def)

lemma user_commands_take_effect_witness:
  "\<exists>x job d'. user_Update 2 no_faults 2000000 scenario_email scenario_db = ((Inr x, job), d') \<and>
     takes_effect user_utc users_now scenario_db d' ''u1''
       (updated_user scenario_email (from_micros 2000000) (created_user scenario_create (from_micros 1000000))) \<and>
     job = Some x"
proof -
  let ?a = "user_Update 2 no_faults 2000000 scenario_email scenario_db"
  have "\<not> isl (fst (fst ?a))" "d_snapshots scenario_db = []"
    "users_now scenario_db ''u1'' = Inr (created_user scenario_create (from_micros 1000000))" by code_simp+
  moreover from this(1) obtain x job d' where "?a = ((Inr x, job), d')" by (cases ?a; cases "fst (fst ?a)") auto
  moreover have "uuc_ID scenario_email = ''u1''" by (simp add: scenario_email_def)
  moreover have "snd (fst ?a) \<noteq> None" by code_simp
  ultimately show ?thesis
    using user_commands_take_effect [OF scenario_db_ok fresh_good(1), of 2 no_faults 2000000]
    by (metis fst_conv option.distinct(1) snapshot_job_def snd_conv)
qed

text \<open>C11: a command on products that succeeds does to the replayed products what its specification says
  and nothing else; a creation without a currency is in US dollars. This is so as long as the snapshots of
  products hold the states their versions say, as they do in every state the service can reach, and the
  price fits 64 bits, as the Go type has it.\<close>

theorem product_commands_take_effect:
  assumes "db_ok d" "products_good d" "in_i64 (pcc_PriceCents c)" "pred_option in_i64 (puc_PriceCents m)"
  shows "(product_Create n fl now c d = (Inr x, d') \<longrightarrow>
      takes_effect product_utc products_now d d' (pcc_ID c) (created_product c (from_micros now))) \<and>
    (product_Update n fl now m d = (Inr x, d') \<and> products_now d (puc_ID m) = Inr p \<longrightarrow>
      takes_effect product_utc products_now d d' (puc_ID m) (updated_product m (from_micros now) p)) \<and>
    (product_Delete n fl now l d = (Inr x, d') \<and> products_now d (pdc_ID l) = Inr p \<longrightarrow>
      takes_effect product_utc products_now d d' (pdc_ID l) (deleted_product (from_micros now) p))"
proof (intro conjI impI)
  note effect = product_command_effect [OF assms(1,2)]
  {
    assume "product_Create n fl now c d = (Inr x, d')"
    then obtain stored where a: "Append (productCmds n) fl now \<lparr>aq_ID = pcc_ID c, aq_ExpectedVersion = None,
        aq_EventType = ProductCreated, aq_Payload = product_created_json \<lparr>pc_Name = pcc_Name c, pc_Description = pcc_Description c,
        pc_PriceCents = pcc_PriceCents c, pc_Currency = (if pcc_Currency c = [] then ''USD'' else pcc_Currency c)\<rparr>,
        aq_Metadata = pcc_Metadata c, aq_IsCreate = True\<rparr> d = (Inr stored, d')"
      by (auto simp: product_Create_def Let_def split: prod.splits sum.splits)
    from effect [OF a, of "product_New (pcc_ID c)" "created_product c"] created_product_Apply [OF _ _ assms(3)]
    show "takes_effect product_utc products_now d d' (pcc_ID c) (created_product c (from_micros now))"
      by (simp add: product_New_def [THEN arg_cong [where f = p_Version]])
  next
    assume u: "product_Update n fl now m d = (Inr x, d') \<and> products_now d (puc_ID m) = Inr p"
    then obtain stored where a: "Append (productCmds n) fl now \<lparr>aq_ID = puc_ID m, aq_ExpectedVersion = puc_ExpectedVersion m,
        aq_EventType = ProductUpdated, aq_Payload = product_updated_json \<lparr>pu_Name = puc_Name m, pu_Description = puc_Description m,
        pu_PriceCents = puc_PriceCents m, pu_Currency = puc_Currency m\<rparr>, aq_Metadata = puc_Metadata m,
        aq_IsCreate = False\<rparr> d = (Inr stored, d')"
      by (auto simp: product_Update_def split: prod.splits sum.splits)
    from effect [OF a, of p "\<lambda>t. updated_product m t p"] updated_product_Apply [OF _ _ assms(4)] u
    show "takes_effect product_utc products_now d d' (puc_ID m) (updated_product m (from_micros now) p)" by simp
  next
    assume u: "product_Delete n fl now l d = (Inr x, d') \<and> products_now d (pdc_ID l) = Inr p"
    then obtain stored where a: "Append (productCmds n) fl now \<lparr>aq_ID = pdc_ID l, aq_ExpectedVersion = pdc_ExpectedVersion l,
        aq_EventType = ProductDeleted, aq_Payload = JObj [], aq_Metadata = pdc_Metadata l,
        aq_IsCreate = False\<rparr> d = (Inr stored, d')"
      by (auto simp: product_Delete_def split: prod.splits sum.splits)
    from effect [OF a, of p "\<lambda>t. deleted_product t p"] deleted_product_Apply u
    show "takes_effect product_utc products_now d d' (pdc_ID l) (deleted_product (from_micros now) p)" by simp
  }
qed

definition scenario_product_db :: db where
  "scenario_product_db = snd (product_Create 50 no_faults 5 sample_product empty_db)"

lemma scenario_product_db_ok: "db_ok scenario_product_db"
  unfolding scenario_product_db_def product_Create_def Let_def
  using Append_keeps(1) [OF service_projector [OF service_simps(2)] db_ok_empty(1)]
  by (auto split: prod.split sum.split)

definition scenario_price :: product_update_command where
  "scenario_price = \<lparr>puc_ID = ''p1'', puc_Name = None, puc_Description = None, puc_PriceCents = Some 300,
     puc_Currency = Some ''EUR'', puc_ExpectedVersion = Some 1, puc_Metadata = empty_metadata\<rparr>"

lemma product_commands_take_effect_witness:
  "\<exists>x d'. product_Update 50 no_faults 9 scenario_price scenario_product_db = (Inr x, d') \<and>
     takes_effect product_utc products_now scenario_product_db d' ''p1''
       (updated_product scenario_price (from_micros 9) (created_product sample_product (from_micros 5)))"
proof -
  let ?a = "product_Update 50 no_faults 9 scenario_price scenario_product_db"
  have "\<not> isl (fst ?a)" "d_snapshots scenario_product_db = []"
    "products_now scenario_product_db ''p1'' = Inr (created_product sample_product (from_micros 5))" by code_simp+
  moreover from this(1) obtain x d' where "?a = (Inr x, d')" by (rule Inr_pairE)
  moreover have "puc_ID scenario_price = ''p1''" "pred_option in_i64 (puc_PriceCents scenario_price)" "in_i64 (pcc_PriceCents sample_product)"
    by (simp_all add: scenario_price_def sample_product_def)
  ultimately show ?thesis
    using product_commands_take_effect [OF scenario_product_db_ok fresh_good(2), of sample_product scenario_price 50 no_faults 9] by metis
qed

text \<open>C10: a command on orders that succeeds does to the replayed orders what its specification says and
  nothing else: a creation is pending, with the total of its items, an item is added to those there
  are and the total is that of all, wrapped to 64 bits once, a cancellation marks the order, and an
  update of the status is carried out whatever the status was. This is so as long as the snapshots of
  orders hold the states their versions say, as they do in every state the service can reach, and the
  numbers of the command fit 64 bits, as the Go type has them.\<close>

theorem order_commands_take_effect:
  assumes "db_ok d" "orders_good d" "pred_option (list_all item_ok) (occ_Items c)" "item_ok (oac_Item b)"
  shows "(order_Create n fl now c d = (Inr x, d') \<longrightarrow>
      takes_effect order_utc orders_now d d' (occ_ID c) (created_order c (from_micros now))) \<and>
    (order_Update n fl now m d = (Inr x, d') \<and> orders_now d (ouc_ID m) = Inr ord \<longrightarrow>
      takes_effect order_utc orders_now d d' (ouc_ID m) (updated_order m (from_micros now) ord)) \<and>
    (order_Cancel n fl now l d = (Inr x, d') \<and> orders_now d (oxc_ID l) = Inr ord \<longrightarrow>
      takes_effect order_utc orders_now d d' (oxc_ID l) (cancelled_order (from_micros now) ord)) \<and>
    (order_AddItem n fl now b d = (Inr x, d') \<and> orders_now d (oac_ID b) = Inr ord \<longrightarrow>
      takes_effect order_utc orders_now d d' (oac_ID b) (order_with_item b (from_micros now) ord))"
proof (intro conjI impI)
  note effect = order_command_effect [OF assms(1,2)]
  {
    assume "order_Create n fl now c d = (Inr x, d')"
    then obtain stored where a: "Append (orderCmds n) fl now \<lparr>aq_ID = occ_ID c, aq_ExpectedVersion = None,
        aq_EventType = OrderCreated, aq_Payload = order_created_json \<lparr>oc_UserID = occ_UserID c,
        oc_Currency = (if occ_Currency c = [] then ''USD'' else occ_Currency c),
        oc_TotalCents = foldl add_item_cents 0 (item_list (occ_Items c)), oc_Items = occ_Items c\<rparr>,
        aq_Metadata = occ_Metadata c, aq_IsCreate = True\<rparr> d = (Inr stored, d')"
      by (auto simp: order_Create_def Let_def split: prod.splits sum.splits)
    from effect [OF a, of "order_New (occ_ID c)" "created_order c"] created_order_Apply [OF _ _ assms(3)]
    show "takes_effect order_utc orders_now d d' (occ_ID c) (created_order c (from_micros now))"
      by (simp add: order_New_def [THEN arg_cong [where f = o_Version]])
  next
    assume u: "order_Update n fl now m d = (Inr x, d') \<and> orders_now d (ouc_ID m) = Inr ord"
    then obtain stored where a: "Append (orderCmds n) fl now \<lparr>aq_ID = ouc_ID m, aq_ExpectedVersion = ouc_ExpectedVersion m,
        aq_EventType = OrderUpdated, aq_Payload = order_updated_json \<lparr>ou_Status = ouc_Status m\<rparr>,
        aq_Metadata = ouc_Metadata m, aq_IsCreate = False\<rparr> d = (Inr stored, d')"
      by (auto simp: order_Update_def split: prod.splits sum.splits)
    from effect [OF a, of ord "\<lambda>t. updated_order m t ord"] updated_order_Apply u
    show "takes_effect order_utc orders_now d d' (ouc_ID m) (updated_order m (from_micros now) ord)" by simp
  next
    assume u: "order_Cancel n fl now l d = (Inr x, d') \<and> orders_now d (oxc_ID l) = Inr ord"
    then obtain stored where a: "Append (orderCmds n) fl now \<lparr>aq_ID = oxc_ID l, aq_ExpectedVersion = oxc_ExpectedVersion l,
        aq_EventType = OrderCancelled, aq_Payload = JObj [], aq_Metadata = oxc_Metadata l,
        aq_IsCreate = False\<rparr> d = (Inr stored, d')"
      by (auto simp: order_Cancel_def split: prod.splits sum.splits)
    from effect [OF a, of ord "\<lambda>t. cancelled_order t ord"] cancelled_order_Apply u
    show "takes_effect order_utc orders_now d d' (oxc_ID l) (cancelled_order (from_micros now) ord)" by simp
  next
    assume u: "order_AddItem n fl now b d = (Inr x, d') \<and> orders_now d (oac_ID b) = Inr ord"
    then obtain stored where a: "Append (orderCmds n) fl now \<lparr>aq_ID = oac_ID b, aq_ExpectedVersion = oac_ExpectedVersion b,
        aq_EventType = OrderItemAdded, aq_Payload = item_added_json \<lparr>oa_Item = oac_Item b\<rparr>, aq_Metadata = oac_Metadata b,
        aq_IsCreate = False\<rparr> d = (Inr stored, d')"
      by (auto simp: order_AddItem_def split: prod.splits sum.splits)
    from effect [OF a, of ord "\<lambda>t. order_with_item b t ord"] order_with_item_Apply [OF _ _ assms(4)] u
    show "takes_effect order_utc orders_now d d' (oac_ID b) (order_with_item b (from_micros now) ord)" by simp
  }
qed

lemma order_commands_take_effect_witness:
  "\<exists>x d'. order_AddItem 50 no_faults 9 scenario_item scenario_order_db = (Inr x, d') \<and>
     takes_effect order_utc orders_now scenario_order_db d' ''o1''
       (order_with_item scenario_item (from_micros 9) (created_order sample_order (from_micros 5)))"
proof -
  let ?a = "order_AddItem 50 no_faults 9 scenario_item scenario_order_db"
  have "\<not> isl (fst ?a)" "d_snapshots scenario_order_db = []"
    "orders_now scenario_order_db ''o1'' = Inr (created_order sample_order (from_micros 5))" by code_simp+
  moreover from this(1) obtain x d' where "?a = (Inr x, d')" by (rule Inr_pairE)
  moreover have "oac_ID scenario_item = ''o1''" "item_ok (oac_Item scenario_item)" "pred_option (list_all item_ok) (occ_Items sample_order)"
    by (simp_all add: scenario_item_def sample_order_def item_ok_def)
  ultimately show ?thesis
    using order_commands_take_effect [OF scenario_order_db_ok fresh_good(3), of sample_order scenario_item 50 no_faults 9] by metis
qed

end
