(* ===== verification/Workers.thy ===== *)
theory Workers
  imports Replay
begin

text \<open>
  \<open>internal/worker\<close>: the outbox publisher, the snapshot builder and the cache warmer, one round of
  each, and the loops that run the rounds on every tick until shutdown.
\<close>

section \<open>Publishing the outbox\<close>

definition mark_published :: "i64 \<Rightarrow> db \<Rightarrow> db" where
  "mark_published i d = d\<lparr>d_outbox := map (\<lambda>r. if ob_id r = i then r\<lparr>ob_published := True\<rparr> else r) (d_outbox d)\<rparr>"

text \<open>
  The rows are published one by one; \<open>fails\<close> says for which rows \<open>Publish\<close> returns an error, which
  ends the round. An error of the update is ignored. The result lists what was sent.
\<close>

fun publish_rows :: "(outbox_row \<Rightarrow> bool) \<Rightarrow> faults \<Rightarrow> outbox_row list \<Rightarrow> db \<Rightarrow> json list \<times> db" where
  "publish_rows fails fl [] d = ([], d)"
| "publish_rows fails fl (r # rs) d =
     (if fails r then ([], d)
      else (let (sent, d') = publish_rows fails fl rs (if fl CallOutboxMark then d else mark_published (ob_id r) d)
            in (ob_payload r # sent, d')))"

definition unpublished :: "db \<Rightarrow> outbox_row list" where
  "unpublished d = sort_key ob_id (filter (\<lambda>r. \<not> ob_published r) (d_outbox d))"

text \<open>\<open>connected\<close> is \<open>w.nc != nil\<close>.\<close>

definition publishBatch :: "bool \<Rightarrow> (outbox_row \<Rightarrow> bool) \<Rightarrow> faults \<Rightarrow> db \<Rightarrow> json list \<times> db" where
  "publishBatch connected fails fl d =
     (if \<not> connected then ([], d)
      else if fl CallOutboxQuery then ([], d)
      else publish_rows fails fl (take 100 (unpublished d)) d)"

section \<open>Building snapshots\<close>

text \<open>
  The aggregates of a type without a snapshot at their latest version. A snapshot of an aggregate
  without events compares with \<open>NULL\<close> and does not count.
\<close>

definition snapshot_current :: "string \<Rightarrow> db \<Rightarrow> snapshot_row \<Rightarrow> bool" where
  "snapshot_current ty d s \<longleftrightarrow> ss_aggregate_type s = ty \<and>
     aggregate_rows ty (ss_aggregate_id s) (d_events d) \<noteq> [] \<and>
     max_version (aggregate_rows ty (ss_aggregate_id s) (d_events d)) \<le> ss_version s"

definition ids_to_snapshot :: "string \<Rightarrow> db \<Rightarrow> string list" where
  "ids_to_snapshot ty d =
     filter (\<lambda>i. \<not> list_ex (\<lambda>s. snapshot_current ty d s \<and> ss_aggregate_id s = i) (d_snapshots d))
       (remdups (map ev_aggregate_id (filter (\<lambda>r. ev_aggregate_type r = ty) (d_events d))))"

definition snapshotOne :: "faults \<Rightarrow> int \<Rightarrow> string \<Rightarrow> string \<Rightarrow> db \<Rightarrow> db" where
  "snapshotOne fl now aggType i d =
     (if aggType = ''user'' then
        (case ReplayUser fl d i empty_query of
           Inl e \<Rightarrow> d
         | Inr u \<Rightarrow> snd (Save fl now aggType i (u_Version u) (user_MarshalSnapshot u) d))
      else if aggType = ''product'' then
        (case ReplayProduct fl d i empty_query of
           Inl e \<Rightarrow> d
         | Inr p \<Rightarrow> snd (Save fl now aggType i (p_Version p) (product_MarshalSnapshot p) d))
      else if aggType = ''order'' then
        (case ReplayOrder fl d i empty_query of
           Inl e \<Rightarrow> d
         | Inr ord \<Rightarrow> snd (Save fl now aggType i (o_Version ord) (order_MarshalSnapshot ord) d))
      else d)"

text \<open>
  \<open>LIMIT 20\<close> without an order: \<open>plan\<close> is the order in which the database hands over the selected
  identifiers. The round runs at one time \<open>now\<close>.
\<close>

definition build_type :: "(string list \<Rightarrow> string list) \<Rightarrow> faults \<Rightarrow> int \<Rightarrow> string \<Rightarrow> db \<Rightarrow> db" where
  "build_type plan fl now aggType d =
     (if fl CallSnapshotQuery then d
      else fold (snapshotOne fl now aggType) (take 20 (plan (ids_to_snapshot aggType d))) d)"

definition buildSnapshots :: "(string list \<Rightarrow> string list) \<Rightarrow> faults \<Rightarrow> int \<Rightarrow> db \<Rightarrow> db" where
  "buildSnapshots plan fl now d = fold (build_type plan fl now) [''user'', ''product'', ''order''] d"

section \<open>Warming the cache\<close>

text \<open>
  Replays the users among the first 50 aggregates in the order \<open>plan\<close> of the database's collation of
  identifiers. The results are dropped: neither the database nor the cache changes.
\<close>

definition warm :: "((string \<times> string) list \<Rightarrow> (string \<times> string) list) \<Rightarrow> faults \<Rightarrow> db \<Rightarrow> user result list" where
  "warm plan fl d =
     map (\<lambda>(ty, i). ReplayUser fl d i empty_query)
       (filter (\<lambda>(ty, i). ty = ''user'')
         (take 50 (plan (remdups (map (\<lambda>r. (ev_aggregate_type r, ev_aggregate_id r)) (d_events d))))))"

section \<open>Running until shutdown\<close>

text \<open>
  The loops \<open>Run\<close> of the workers: on each tick one round, until the context is done. A tick carries
  what happens in its round.
\<close>

datatype 'e signal = Tick 'e | Done

fun OutboxPublisher_Run :: "bool \<Rightarrow> ((outbox_row \<Rightarrow> bool) \<times> faults) signal list \<Rightarrow> db \<Rightarrow> json list \<times> db" where
  "OutboxPublisher_Run connected [] d = ([], d)"
| "OutboxPublisher_Run connected (Done # sigs) d = ([], d)"
| "OutboxPublisher_Run connected (Tick (fails, fl) # sigs) d =
     (let (sent, d1) = publishBatch connected fails fl d; (more, d2) = OutboxPublisher_Run connected sigs d1
      in (sent @ more, d2))"

fun SnapshotBuilder_Run :: "((string list \<Rightarrow> string list) \<times> faults \<times> int) signal list \<Rightarrow> db \<Rightarrow> db" where
  "SnapshotBuilder_Run [] d = d"
| "SnapshotBuilder_Run (Done # sigs) d = d"
| "SnapshotBuilder_Run (Tick (plan, fl, now) # sigs) d = SnapshotBuilder_Run sigs (buildSnapshots plan fl now d)"

text \<open>The warmer does not start without a cache; what it replays is dropped.\<close>

fun CacheWarmer_Run :: "bool \<Rightarrow> (((string \<times> string) list \<Rightarrow> (string \<times> string) list) \<times> faults) signal list \<Rightarrow> db
    \<Rightarrow> user result list" where
  "CacheWarmer_Run redis [] d = []"
| "CacheWarmer_Run redis (Done # sigs) d = []"
| "CacheWarmer_Run redis (Tick (plan, fl) # sigs) d =
     (if redis then warm plan fl d @ CacheWarmer_Run redis sigs d else [])"


section \<open>Lemmas\<close>

lemma publish_rows_frame:
  "publish_rows fails fl rs d = (sent, d') \<Longrightarrow> d' = d\<lparr>d_outbox := d_outbox d'\<rparr>"
  by (induction rs arbitrary: d sent d') (force simp: mark_published_def split: if_splits prod.splits)+

definition mark :: "i64 set \<Rightarrow> outbox_row \<Rightarrow> outbox_row" where
  "mark S r = (if ob_id r \<in> S then r\<lparr>ob_published := True\<rparr> else r)"

lemma mark_sel [simp]: "ob_id (mark S r) = ob_id r" "ob_payload (mark S r) = ob_payload r"
  "ob_published (mark S r) \<longleftrightarrow> ob_published r \<or> ob_id r \<in> S"
  by (simp_all add: mark_def)

lemma mark_simps [simp]: "mark {} r = r" "mark {} = (\<lambda>r. r)" "mark S (mark T r) = mark (S \<union> T) r"
  by (auto simp: mark_def)

text \<open>What a round marks is at most what it sent; without a fault, exactly that, up to the first failure.\<close>

lemma publish_rows_marks:
  "publish_rows fails fl rs d = (sent, d') \<Longrightarrow>
     sent = map ob_payload (takeWhile (\<lambda>r. \<not> fails r) rs) \<and>
     d_outbox d' = map (mark (if fl CallOutboxMark then {} else ob_id ` set (takeWhile (\<lambda>r. \<not> fails r) rs))) (d_outbox d)"
proof (induction rs arbitrary: d sent d')
  case Nil
  then show ?case by simp
next
  case (Cons r rs)
  show ?case
  proof (cases "fails r")
    case True
    then show ?thesis using Cons.prems by simp
  next
    case False
    let ?d = "if fl CallOutboxMark then d else mark_published (ob_id r) d"
    obtain s1 d1 where r: "publish_rows fails fl rs ?d = (s1, d1)" by force
    have "d_outbox ?d = map (mark (if fl CallOutboxMark then {} else {ob_id r})) (d_outbox d)"
      by (simp add: mark_published_def mark_def)
    moreover have "sent = ob_payload r # s1" "d' = d1" using Cons.prems False r by simp_all
    ultimately show ?thesis
      using Cons.IH [OF r] False by (cases "fl CallOutboxMark") (simp_all add: comp_def)
  qed
qed

lemma set_unpublished: "set (unpublished d) = {r \<in> set (d_outbox d). \<not> ob_published r}"
  by (simp add: unpublished_def)

lemma unpublished_marked:
  assumes "d_outbox d' = map (mark S) (d_outbox d)"
  shows "unpublished d' = filter (\<lambda>r. ob_id r \<notin> S) (unpublished d)"
proof -
  have "filter (\<lambda>r. \<not> ob_published r) (map (mark S) rs)
      = filter (\<lambda>r. ob_id r \<notin> S) (filter (\<lambda>r. \<not> ob_published r) rs)" for rs
    by (induction rs) (simp_all add: mark_def)
  then show ?thesis by (simp only: unpublished_def assms filter_sort)
qed

lemma publishBatch_cases:
  assumes "publishBatch connected fails fl d = (sent, d')"
  obtains "sent = []" "d' = d"
    | "publish_rows fails fl (take 100 (unpublished d)) d = (sent, d')" "connected"
  using assms
  by (cases connected; cases "fl CallOutboxQuery") (simp_all only: publishBatch_def if_True if_False
      simp_thms prod.inject)

text \<open>A round that publishes everything it reads leaves at most what it did not read.\<close>

lemma publishBatch_progress:
  assumes "\<not> fl CallOutboxQuery" "\<not> fl CallOutboxMark"
  shows "length (unpublished (snd (publishBatch True (\<lambda>_. False) fl d))) \<le> length (unpublished d) - 100"
proof -
  let ?u = "unpublished d"
  obtain sent d' where p: "publishBatch True (\<lambda>_. False) fl d = (sent, d')" by force
  then have "d_outbox d' = map (mark (ob_id ` set (take 100 ?u))) (d_outbox d)"
    using publish_rows_marks [of "\<lambda>_. False" fl "take 100 ?u" d] assms by (simp add: publishBatch_def takeWhile_eq_all_conv [THEN iffD2])
  then have "unpublished d' = filter (\<lambda>r. ob_id r \<notin> ob_id ` set (take 100 ?u)) (take 100 ?u @ drop 100 ?u)"
    by (simp add: unpublished_marked)
  also have "\<dots> = filter (\<lambda>r. ob_id r \<notin> ob_id ` set (take 100 ?u)) (drop 100 ?u)"
    by (simp only: filter_append) (simp add: filter_empty_conv)
  finally show ?thesis using p length_filter_le by (metis length_drop snd_conv)
qed

text \<open>A snapshot that is made of a replay of the whole log is a good one.\<close>

context aggregate
begin

lemma Save_replay_good:
  assumes "db_ok d" "good_snapshots A marshal ty d" "engine_replay A fl d ty i empty_query = Inr a"
    "Save fl' now ty i (ag_currentVersion A a) (marshal a) d = (res, d')"
  shows "good_snapshots A marshal ty d'"
proof -
  let ?es = "aggregate_events ty i (d_events d)"
  from replay_current [OF assms(1-3)] obtain b where b: "apply_all A ?es (ag_New A i) = Inr b"
    "marshal a = marshal b" "?es \<noteq> []" "ag_currentVersion A a = int (length ?es)"
    by metis
  have ev: "d_events d' = d_events d" using Save_others [OF assms(4)] by simp
  have "snapshot_ok A marshal (aggregate_events ty (ss_aggregate_id r) (d_events d)) r"
    if r: "r \<in> set (d_snapshots d')" "ss_aggregate_type r = ty" for r
    using Save_rows [OF assms(4) r(1)]
  proof
    assume "r \<in> set (d_snapshots d)"
    then show ?thesis using assms(2) r(2) by (simp add: good_snapshots_def list_all_iff)
  next
    assume n: "ss_aggregate_type r = ty \<and> ss_aggregate_id r = i \<and> ss_version r = ag_currentVersion A a \<and>
      marshal a = Some (ss_state r)"
    then show ?thesis using b by (simp add: snapshot_ok_def Suc_leI)
  qed
  then show ?thesis by (simp add: good_snapshots_def list_all_iff ev)
qed

lemma Save_other_good:
  assumes "good_snapshots A marshal ty d" "Save fl now ty' i v st d = (res, d')" "ty' \<noteq> ty"
  shows "good_snapshots A marshal ty d'"
  using assms Save_rows [OF assms(2)] Save_others [OF assms(2)]
  by (auto simp: good_snapshots_def list_all_iff)

end

lemmas save_good = user_agg.Save_replay_good product_agg.Save_replay_good order_agg.Save_replay_good
lemmas save_other = user_agg.Save_other_good product_agg.Save_other_good order_agg.Save_other_good

text \<open>Nothing but the snapshots changes.\<close>

definition only_snapshots :: "db \<Rightarrow> db \<Rightarrow> bool" where
  "only_snapshots d d' \<longleftrightarrow> d_events d' = d_events d \<and> d_event_seq d' = d_event_seq d \<and>
     d_outbox d' = d_outbox d \<and> d_users d' = d_users d \<and> d_products d' = d_products d \<and>
     d_orders d' = d_orders d \<and> d_idempotency d' = d_idempotency d"

lemma only_snapshots_refl [simp]: "only_snapshots d d"
  by (simp add: only_snapshots_def)

lemma only_snapshots_trans: "only_snapshots d d' \<Longrightarrow> only_snapshots d' d'' \<Longrightarrow> only_snapshots d d''"
  by (simp add: only_snapshots_def)

lemma only_snapshots_db_ok: "only_snapshots d d' \<Longrightarrow> db_ok d \<Longrightarrow> db_ok d'"
  by (simp add: only_snapshots_def db_ok_def)

lemma Save_only_snapshots: "only_snapshots d (snd (Save fl now ty i v st d))"
  using Save_others [of fl now ty i v st d] by (cases "Save fl now ty i v st d") (simp add: only_snapshots_def)

lemma snapshotOne_only: "only_snapshots d (snapshotOne fl now ty i d)"
  by (simp add: snapshotOne_def Save_only_snapshots split: sum.split)

lemma snapshotOne_user_good:
  assumes "db_ok d" "good_snapshots userAgg user_MarshalSnapshot AggregateUser d"
  shows "good_snapshots userAgg user_MarshalSnapshot AggregateUser (snapshotOne fl now ty i d)"
proof -
  have "good_snapshots userAgg user_MarshalSnapshot AggregateUser
      (snd (Save fl now AggregateUser i (u_Version a) (user_MarshalSnapshot a) d))"
    if "ReplayUser fl d i empty_query = Inr a" for a
    using that by (intro save_good(1) [OF assms, where a = a and fl = fl and i = i])
      (simp_all add: ReplayUser_def agg_defs prod_eq_iff)
  moreover have "good_snapshots userAgg user_MarshalSnapshot AggregateUser (snd (Save fl now ty' i v st d))"
    if "ty' \<noteq> AggregateUser" for ty' v st
    using save_other(1) [OF assms(2) prod.collapse [symmetric] that] .
  ultimately show ?thesis using assms(2) by (simp add: snapshotOne_def split: sum.split)
qed

lemma snapshotOne_product_good:
  assumes "db_ok d" "good_snapshots productAgg product_MarshalSnapshot AggregateProduct d"
  shows "good_snapshots productAgg product_MarshalSnapshot AggregateProduct (snapshotOne fl now ty i d)"
proof -
  have "good_snapshots productAgg product_MarshalSnapshot AggregateProduct
      (snd (Save fl now AggregateProduct i (p_Version a) (product_MarshalSnapshot a) d))"
    if "ReplayProduct fl d i empty_query = Inr a" for a
    using that by (intro save_good(2) [OF assms, where a = a and fl = fl and i = i])
      (simp_all add: ReplayProduct_def agg_defs prod_eq_iff)
  moreover have "good_snapshots productAgg product_MarshalSnapshot AggregateProduct (snd (Save fl now ty' i v st d))"
    if "ty' \<noteq> AggregateProduct" for ty' v st
    using save_other(2) [OF assms(2) prod.collapse [symmetric] that] .
  ultimately show ?thesis using assms(2) by (simp add: snapshotOne_def split: sum.split)
qed

lemma snapshotOne_order_good:
  assumes "db_ok d" "good_snapshots orderAgg order_MarshalSnapshot AggregateOrder d"
  shows "good_snapshots orderAgg order_MarshalSnapshot AggregateOrder (snapshotOne fl now ty i d)"
proof -
  have "good_snapshots orderAgg order_MarshalSnapshot AggregateOrder
      (snd (Save fl now AggregateOrder i (o_Version a) (order_MarshalSnapshot a) d))"
    if "ReplayOrder fl d i empty_query = Inr a" for a
    using that by (intro save_good(3) [OF assms, where a = a and fl = fl and i = i])
      (simp_all add: ReplayOrder_def agg_defs prod_eq_iff)
  moreover have "good_snapshots orderAgg order_MarshalSnapshot AggregateOrder (snd (Save fl now ty' i v st d))"
    if "ty' \<noteq> AggregateOrder" for ty' v st
    using save_other(3) [OF assms(2) prod.collapse [symmetric] that] .
  ultimately show ?thesis using assms(2) by (simp add: snapshotOne_def split: sum.split)
qed

lemmas snapshotOne_good = snapshotOne_user_good snapshotOne_product_good snapshotOne_order_good

text \<open>What every save of a round keeps, the round keeps.\<close>

lemma fold_snapshots:
  assumes "\<And>x d. db_ok d \<Longrightarrow> P d \<Longrightarrow> P (f x d) \<and> only_snapshots d (f x d)"
  shows "db_ok d \<Longrightarrow> P d \<Longrightarrow> P (fold f xs d) \<and> only_snapshots d (fold f xs d)"
proof (induction xs arbitrary: d)
  case (Cons x xs)
  have "P (f x d)" "only_snapshots d (f x d)" using assms Cons.prems by blast+
  then show ?case
    using Cons.IH [of "f x d"] only_snapshots_db_ok [of d "f x d"] Cons.prems only_snapshots_trans by auto
qed simp

lemma buildSnapshots_keeps:
  assumes "\<And>ty i d. db_ok d \<Longrightarrow> P d \<Longrightarrow> P (snapshotOne fl now ty i d)" "db_ok d" "P d"
  shows "P (buildSnapshots plan fl now d) \<and> only_snapshots d (buildSnapshots plan fl now d)"
proof -
  have "P (build_type plan fl now ty d) \<and> only_snapshots d (build_type plan fl now ty d)"
    if "db_ok d" "P d" for ty d
    using fold_snapshots [of P "snapshotOne fl now ty" d, OF _ that] assms(1) snapshotOne_only that
    by (simp add: build_type_def)
  then show ?thesis
    unfolding buildSnapshots_def by (intro fold_snapshots assms) auto
qed

lemma buildSnapshots_good:
  "db_ok d \<Longrightarrow> all_good_snapshots d \<Longrightarrow>
     all_good_snapshots (buildSnapshots plan fl now d) \<and> only_snapshots d (buildSnapshots plan fl now d)"
  by (rule buildSnapshots_keeps) (simp_all add: all_good_snapshots_def snapshotOne_good)

text \<open>A round takes a row off the unpublished ones only when it has sent it.\<close>

lemma publishBatch_round:
  assumes "publishBatch connected fails fl d = (sent, d')" "distinct (map ob_id (d_outbox d))"
  shows "length (unpublished d') \<le> length (unpublished d)" "distinct (map ob_id (d_outbox d'))"
    "r \<in> set (unpublished d) \<Longrightarrow> ob_payload r \<in> set sent \<or> r \<in> set (unpublished d')"
proof -
  have "length (unpublished d') \<le> length (unpublished d) \<and> distinct (map ob_id (d_outbox d')) \<and>
    (r \<in> set (unpublished d) \<longrightarrow> ob_payload r \<in> set sent \<or> r \<in> set (unpublished d'))"
    using assms(1)
  proof (cases rule: publishBatch_cases)
    case 1
    then show ?thesis using assms(2) by simp
  next
    case 2
    let ?rows = "takeWhile (\<lambda>r. \<not> fails r) (take 100 (unpublished d))"
    let ?S = "if fl CallOutboxMark then {} else ob_id ` set ?rows"
    note m = publish_rows_marks [OF 2(1)]
    then have u: "unpublished d' = filter (\<lambda>r. ob_id r \<notin> ?S) (unpublished d)" by (intro unpublished_marked) simp
    have in_rows: "r \<in> set ?rows" if h: "r \<in> set (unpublished d)" "ob_id r \<in> ?S"
    proof -
      obtain r' where r': "r' \<in> set ?rows" "ob_id r' = ob_id r" using h(2) by (auto split: if_splits)
      have "r' \<in> set (unpublished d)" using r'(1) by (meson in_set_takeD set_takeWhileD)
      then have in_box: "r' \<in> set (d_outbox d)" "r \<in> set (d_outbox d)" using h(1) by (simp_all add: set_unpublished)
      have "inj_on ob_id (set (d_outbox d))" using assms(2) by (simp add: distinct_map)
      from inj_onD [OF this r'(2) in_box] show ?thesis using r'(1) by simp
    qed
    have "length (unpublished d') \<le> length (unpublished d)" unfolding u by (rule length_filter_le)
    moreover have "map ob_id (d_outbox d') = map ob_id (d_outbox d)" using m by (simp add: comp_def)
    moreover have "ob_payload r \<in> set sent \<or> r \<in> set (unpublished d')" if h: "r \<in> set (unpublished d)"
    proof (cases "ob_id r \<in> ?S")
      case True
      have "sent = map ob_payload ?rows" using m by blast
      then show ?thesis using in_rows [OF h True] by simp
    next
      case False
      then show ?thesis using h unfolding u by simp
    qed
    ultimately show ?thesis using assms(2) by simp
  qed
  then show "length (unpublished d') \<le> length (unpublished d)" "distinct (map ob_id (d_outbox d'))"
    "r \<in> set (unpublished d) \<Longrightarrow> ob_payload r \<in> set sent \<or> r \<in> set (unpublished d')" by simp_all
qed

text \<open>A tick in which nothing fails.\<close>

definition good_tick :: "((outbox_row \<Rightarrow> bool) \<times> faults) signal \<Rightarrow> bool" where
  "good_tick s \<longleftrightarrow> (case s of Done \<Rightarrow> False
     | Tick (fails, fl) \<Rightarrow> fails = (\<lambda>_. False) \<and> \<not> fl CallOutboxQuery \<and> \<not> fl CallOutboxMark)"

lemma SnapshotBuilder_Run_keeps:
  assumes "\<And>fl now ty i d. db_ok d \<Longrightarrow> P d \<Longrightarrow> P (snapshotOne fl now ty i d)"
  shows "db_ok d \<Longrightarrow> P d \<Longrightarrow> P (SnapshotBuilder_Run sigs d) \<and> only_snapshots d (SnapshotBuilder_Run sigs d)"
proof (induction sigs d rule: SnapshotBuilder_Run.induct)
  case (3 plan fl now sigs d)
  have b: "P (buildSnapshots plan fl now d)" "only_snapshots d (buildSnapshots plan fl now d)"
    using buildSnapshots_keeps [of P, OF assms 3(2,3)] by simp_all
  then show ?case
    using "3.IH" [OF only_snapshots_db_ok [OF b(2) 3(2)] b(1)] only_snapshots_trans by auto
qed simp_all

section \<open>Properties\<close>

text \<open>A round of the snapshot builder, whatever fails in it, changes nothing but the snapshots, and
  saves only snapshots that hold the state their version says; so replays by version and of the
  present answer as before, for every type.\<close>

theorem build_snapshots_transparent:
  assumes "db_ok d" "all_good_snapshots d" "q = at_version v \<or> q = empty_query"
  shows "let d' = buildSnapshots plan fl now d
    in all_good_snapshots d' \<and> only_snapshots d d' \<and>
       map_sum id user_utc (ReplayUser no_faults d' i q) = map_sum id user_utc (ReplayUser no_faults d i q) \<and>
       map_sum id product_utc (ReplayProduct no_faults d' i q) = map_sum id product_utc (ReplayProduct no_faults d i q) \<and>
       map_sum id order_utc (ReplayOrder no_faults d' i q) = map_sum id order_utc (ReplayOrder no_faults d i q)"
proof -
  let ?d' = "buildSnapshots plan fl now d"
  have b: "all_good_snapshots ?d'" "only_snapshots d ?d'" using buildSnapshots_good [OF assms(1,2)] by simp_all
  have ok: "db_ok ?d'" "d_events ?d' = d_events d"
    using b(2) only_snapshots_db_ok [OF b(2) assms(1)] by (simp_all add: only_snapshots_def)
  show ?thesis
    using replay_engine_same [OF assms(1) ok(1) ok(2) [symmetric] assms(2) b(1) assms(3), of i] b by (simp add: Let_def)
qed

lemma build_snapshots_transparent_witness:
  "all_good_snapshots (buildSnapshots id no_faults 9000000 (sample_db [sample_snapshot1])) \<and>
   ids_to_snapshot AggregateUser (sample_db [sample_snapshot1]) = [''u1''] \<and>
   ids_to_snapshot AggregateUser (buildSnapshots id no_faults 9000000 (sample_db [sample_snapshot1])) = []"
proof (intro conjI)
  show "all_good_snapshots (buildSnapshots id no_faults 9000000 (sample_db [sample_snapshot1]))"
    using build_snapshots_transparent [of "sample_db [sample_snapshot1]" empty_query 0]
    by (simp add: Let_def sample_db_ok sample_all_good)
  show "ids_to_snapshot AggregateUser (sample_db [sample_snapshot1]) = [''u1'']" by code_simp
  show "ids_to_snapshot AggregateUser (buildSnapshots id no_faults 9000000 (sample_db [sample_snapshot1])) = []"
    by code_simp
qed

text \<open>A round of the outbox publisher sends, in the order of their identities, the first hundred
  unpublished rows up to the first that cannot be sent; when the updates succeed it marks what it
  sent, and in any case nothing else, so a row that is not marked is sent again.\<close>

theorem publish_batch_prefix:
  assumes "\<not> fl CallOutboxQuery" "publishBatch True fails fl d = (sent, d')"
  shows "let rows = takeWhile (\<lambda>r. \<not> fails r) (take 100 (unpublished d))
    in sent = map ob_payload rows \<and>
       d_outbox d' = map (mark (if fl CallOutboxMark then {} else ob_id ` set rows)) (d_outbox d) \<and>
       d' = d\<lparr>d_outbox := d_outbox d'\<rparr>"
  using assms publish_rows_marks [of fails fl _ d sent d'] publish_rows_frame [of fails fl _ d sent d']
  by (simp add: publishBatch_def Let_def)

definition sample_outbox_row :: "i64 \<Rightarrow> outbox_row" where
  "sample_outbox_row k = \<lparr>ob_id = k, ob_aggregate_type = AggregateUser, ob_aggregate_id = ''u1'',
     ob_event_id = k, ob_payload = JInt k, ob_published = False\<rparr>"

lemma publish_batch_prefix_witness:
  "fst (publishBatch True (\<lambda>r. ob_id r = 3) no_faults (empty_db\<lparr>d_outbox := map sample_outbox_row [1, 2, 3]\<rparr>))
     = [JInt 1, JInt 2]"
proof -
  let ?d = "empty_db\<lparr>d_outbox := map sample_outbox_row [1, 2, 3]\<rparr>"
  obtain sent d' where p: "publishBatch True (\<lambda>r. ob_id r = 3) no_faults ?d = (sent, d')" by force
  show ?thesis
    using publish_batch_prefix [OF _ p] p
    by (simp add: Let_def unpublished_def sample_outbox_row_def)
qed

text \<open>With a connection and no failures, enough rounds publish the whole outbox: a hundred rows a
  round.\<close>

theorem outbox_drains:
  assumes "\<not> fl CallOutboxQuery" "\<not> fl CallOutboxMark" "length (unpublished d) \<le> 100 * n"
  shows "unpublished (((\<lambda>d. snd (publishBatch True (\<lambda>_. False) fl d)) ^^ n) d) = []"
  using assms(3)
proof (induction n arbitrary: d)
  case (Suc n)
  have "length (unpublished (snd (publishBatch True (\<lambda>_. False) fl d))) \<le> 100 * n"
    using publishBatch_progress [OF assms(1,2), of d] Suc.prems by simp
  from Suc.IH [OF this] show ?case by (simp add: funpow_Suc_right del: funpow.simps)
qed simp

lemma outbox_drains_witness:
  "unpublished (((\<lambda>d. snd (publishBatch True (\<lambda>_. False) no_faults d)) ^^ 1)
     (empty_db\<lparr>d_outbox := map sample_outbox_row [1, 2, 3]\<rparr>)) = []"
  by (rule outbox_drains) (simp_all add: unpublished_def)

text \<open>C26: the publisher delivers at least once: if before shutdown there are enough ticks in which nothing
  fails, a hundred rows each, then however many failing ticks come between them, every row that was
  unpublished at the start has been sent, and none is left.\<close>

theorem publisher_run_delivers:
  assumes "Done \<notin> set sigs" "distinct (map ob_id (d_outbox d))"
    "length (unpublished d) \<le> 100 * length (filter good_tick sigs)"
    "OutboxPublisher_Run True sigs d = (sent, d')"
  shows "unpublished d' = [] \<and> (\<forall>r \<in> set (unpublished d). ob_payload r \<in> set sent)"
  using assms
proof (induction sigs arbitrary: d sent)
  case Nil
  then show ?case by simp
next
  case (Cons s sigs)
  then obtain fails fl where s: "s = Tick (fails, fl)" by (cases s) auto
  obtain s1 d1 where p: "publishBatch True fails fl d = (s1, d1)" by force
  obtain s2 where r: "OutboxPublisher_Run True sigs d1 = (s2, d')" "sent = s1 @ s2"
    using Cons.prems(4) s p by (auto split: prod.splits)
  note b = publishBatch_round [OF p Cons.prems(2)]
  have "length (unpublished d1) \<le> 100 * length (filter good_tick sigs)"
  proof (cases "good_tick s")
    case True
    then have "fails = (\<lambda>_. False)" "\<not> fl CallOutboxQuery" "\<not> fl CallOutboxMark" using s by (auto simp: good_tick_def)
    then have "length (unpublished d1) \<le> length (unpublished d) - 100"
      using publishBatch_progress [of fl d] p by simp
    then show ?thesis using Cons.prems(3) True by simp
  next
    case False
    then show ?thesis using b(1) Cons.prems(3) by simp
  qed
  from Cons.IH [OF _ b(2) this r(1)] Cons.prems(1) show ?case using b(3) r(2) by auto
qed

lemma publisher_run_delivers_witness:
  "\<exists>sent d'. OutboxPublisher_Run True [Tick (\<lambda>_. False, no_faults), Tick (\<lambda>r. True, no_faults)]
       (empty_db\<lparr>d_outbox := map sample_outbox_row [1, 2, 3]\<rparr>) = (sent, d') \<and> unpublished d' = [] \<and> JInt 2 \<in> set sent"
proof -
  let ?d = "empty_db\<lparr>d_outbox := map sample_outbox_row [1, 2, 3]\<rparr>"
  let ?sigs = "[Tick (\<lambda>_. False, no_faults), Tick (\<lambda>r. True, no_faults)]"
  obtain sent d' where p: "OutboxPublisher_Run True ?sigs ?d = (sent, d')" by force
  have "unpublished ?d = map sample_outbox_row [1, 2, 3]"
    by (simp add: unpublished_def sample_outbox_row_def)
  then have "unpublished d' = [] \<and> (\<forall>r \<in> set (map sample_outbox_row [1, 2, 3]). ob_payload r \<in> set sent)"
    using publisher_run_delivers [OF _ _ _ p] by (simp add: good_tick_def sample_outbox_row_def)
  then show ?thesis using p by (simp add: sample_outbox_row_def)
qed

end
