(* ===== verification/System.thy ===== *)
theory System
  imports Commands Workers
begin

text \<open>
  The running service: commands in flight on several connections, the snapshot builder, the
  goroutine of the user service and the outbox publisher, as a step relation. A command has three
  steps: it begins its transaction (which fixes the time of its event), it reads the current
  version, and it writes and commits. The unique constraint makes the writes of two transactions on
  the same version wait for each other, so a write is one step at the moment of its commit. What is lost
  by this is that transactions on different aggregates may draw their identities in one order and commit
  in the other; along one aggregate they cannot, since each reads the version the one before committed.
\<close>

section \<open>Steps\<close>

record tx =
  tx_service :: command_service
  tx_request :: append_request
  tx_start :: int
  tx_current :: "i64 option"

record sys =
  sy_db :: db
  sy_clock :: int
  sy_tx :: "nat \<rightharpoonup> tx"

definition initial_sys :: "int \<Rightarrow> sys" where
  "initial_sys t = \<lparr>sy_db = empty_db, sy_clock = t, sy_tx = Map.empty\<rparr>"

inductive sys_step :: "sys \<Rightarrow> sys \<Rightarrow> bool" where
  tick: "sy_clock s \<le> t \<Longrightarrow> sys_step s (s\<lparr>sy_clock := t\<rparr>)"
| begin_tx: "sy_tx s p = None \<Longrightarrow> service svc \<Longrightarrow>
    sys_step s (s\<lparr>sy_tx := (sy_tx s)(p \<mapsto>
      \<lparr>tx_service = svc, tx_request = req, tx_start = sy_clock s, tx_current = None\<rparr>)\<rparr>)"
| read_version: "sy_tx s p = Some tx \<Longrightarrow> tx_current tx = None \<Longrightarrow>
    LatestVersion fl (sy_db s) (cs_aggregateType (tx_service tx)) (aq_ID (tx_request tx)) = Inr v \<Longrightarrow>
    append_guard (tx_request tx) v = None \<Longrightarrow>
    sys_step s (s\<lparr>sy_tx := (sy_tx s)(p \<mapsto> tx\<lparr>tx_current := Some v\<rparr>)\<rparr>)"
| give_up: "sy_tx s p = Some tx \<Longrightarrow> tx_current tx = None \<Longrightarrow>
    sys_step s (s\<lparr>sy_tx := (sy_tx s)(p := None)\<rparr>)"
| write_commit: "sy_tx s p = Some tx \<Longrightarrow> tx_current tx = Some v \<Longrightarrow>
    write_event (tx_service tx) fl (tx_start tx) (tx_request tx) v (sy_db s) = (res, d') \<Longrightarrow>
    sys_step s (s\<lparr>sy_db := d', sy_tx := (sy_tx s)(p := None)\<rparr>)"
| snapshots: "sys_step s (s\<lparr>sy_db := buildSnapshots plan fl (sy_clock s) (sy_db s)\<rparr>)"
| user_job: "sys_step s (s\<lparr>sy_db := user_maybeSnapshot fl (sy_clock s) u (sy_db s)\<rparr>)"
| publish: "publishBatch connected fails fl (sy_db s) = (sent, d') \<Longrightarrow> sys_step s (s\<lparr>sy_db := d'\<rparr>)"

inductive reachable :: "int \<Rightarrow> sys \<Rightarrow> bool" for t where
  start: "reachable t (initial_sys t)"
| more: "reachable t s \<Longrightarrow> sys_step s s' \<Longrightarrow> reachable t s'"

inductive_cases sys_stepE: "sys_step s s'"

section \<open>The invariant\<close>

definition sys_ok :: "sys \<Rightarrow> bool" where
  "sys_ok s \<longleftrightarrow> db_ok (sy_db s) \<and> outbox_ok (sy_db s) \<and> read_model_ok (sy_db s) \<and>
     (\<forall>p tx. sy_tx s p = Some tx \<longrightarrow> service (tx_service tx) \<and> tx_start tx \<le> sy_clock s \<and>
       (\<forall>v. tx_current tx = Some v \<longrightarrow> version_read (tx_service tx) (tx_request tx) v (sy_db s))) \<and>
     list_all (\<lambda>r. ev_created_at r \<le> sy_clock s) (d_events (sy_db s))"

text \<open>Events are only ever appended.\<close>

definition log_extends :: "db \<Rightarrow> db \<Rightarrow> bool" where
  "log_extends d d' \<longleftrightarrow> (\<exists>rows. d_events d' = d_events d @ rows)"

lemma log_extends_refl [simp]: "log_extends d d"
  by (simp add: log_extends_def)

lemma log_extends_trans: "log_extends d d' \<Longrightarrow> log_extends d' d'' \<Longrightarrow> log_extends d d''"
  by (auto simp: log_extends_def)

lemma log_extends_version_read: "version_read s req v d \<Longrightarrow> log_extends d d' \<Longrightarrow> version_read s req v d'"
  by (auto simp: version_read_def log_extends_def aggregate_rows_append)

lemma user_maybeSnapshot_only: "only_snapshots d (user_maybeSnapshot fl now u d)"
  by (simp add: user_maybeSnapshot_def Save_only_snapshots split: option.split)

lemma only_snapshots_keeps:
  "only_snapshots d d' \<Longrightarrow> outbox_ok d' = outbox_ok d \<and> read_model_ok d' = read_model_ok d \<and> log_extends d d'"
  using read_version_cong [of d' d] by (simp add: only_snapshots_def outbox_ok_def read_model_ok_def log_extends_def)

lemma publishBatch_keeps:
  assumes "publishBatch connected fails fl d = (sent, d')"
  shows "db_ok d' = db_ok d" "outbox_ok d' = outbox_ok d" "read_model_ok d' = read_model_ok d" "d_events d' = d_events d"
proof -
  have f: "d' = d\<lparr>d_outbox := d_outbox d'\<rparr> \<and> (\<exists>S. d_outbox d' = map (mark S) (d_outbox d))"
    using assms
  proof (cases rule: publishBatch_cases)
    case 1
    then show ?thesis by (auto intro: exI [of _ "{}"])
  next
    case 2
    then show ?thesis using publish_rows_frame publish_rows_marks by blast
  qed
  then have "d_events d' = d_events d" "d_event_seq d' = d_event_seq d" "d_users d' = d_users d"
    "d_products d' = d_products d" "d_orders d' = d_orders d"
    by (metis db.ext_inject db.surjective db.update_convs(3))+
  moreover have "map (\<lambda>b. (ob_aggregate_type b, ob_aggregate_id b, ob_event_id b)) (d_outbox d') =
      map (\<lambda>b. (ob_aggregate_type b, ob_aggregate_id b, ob_event_id b)) (d_outbox d)"
    using f by (auto simp: mark_def)
  ultimately show "db_ok d' = db_ok d" "outbox_ok d' = outbox_ok d" "read_model_ok d' = read_model_ok d"
    "d_events d' = d_events d"
    using read_version_cong [of d' d] by (simp_all add: db_ok_def outbox_ok_def read_model_ok_def)
qed

lemma write_event_log:
  assumes "service s" "db_ok d" "version_read s req v d" "write_event s fl now req v d = (res, d')"
  shows "log_extends d d'" "set (d_events d') \<subseteq> set (d_events d) \<union> {r. ev_created_at r = now}"
proof -
  have "d_events d' = d_events d \<or> (\<exists>i. d_events d' = d_events d @ [new_event_row now i (next_event s req v)])"
  proof (cases res)
    case (Inl e)
    then show ?thesis using tables_eqD write_event_Inl assms(4) by blast
  next
    case (Inr stored)
    then show ?thesis
      using projector.write_event_appends(4) [OF service_projector [OF assms(1)] refl _ assms(2,3)] assms(4) by blast
  qed
  then show "log_extends d d'" "set (d_events d') \<subseteq> set (d_events d) \<union> {r. ev_created_at r = now}"
    by (auto simp: log_extends_def new_event_row_def)
qed

lemma buildSnapshots_only: "db_ok d \<Longrightarrow> only_snapshots d (buildSnapshots plan fl now d)"
  using buildSnapshots_keeps [of "\<lambda>_. True" fl now d plan] by simp

text \<open>What a step does to the database: nothing, a write, a change of the snapshots, marks in the outbox.\<close>

lemma sys_step_db:
  assumes "sys_ok s" "sys_step s s'"
  obtains (same) "sy_db s' = sy_db s"
  | (written) p tx v fl res where "sy_tx s p = Some tx" "tx_current tx = Some v"
      "write_event (tx_service tx) fl (tx_start tx) (tx_request tx) v (sy_db s) = (res, sy_db s')"
      "service (tx_service tx)" "version_read (tx_service tx) (tx_request tx) v (sy_db s)" "db_ok (sy_db s)"
  | (saved) "only_snapshots (sy_db s) (sy_db s')"
  | (published) connected fails fl sent where
      "publishBatch connected fails fl (sy_db s) = (sent, sy_db s')"
  using assms(2)
proof (cases rule: sys_step.cases)
  case (write_commit p tx v fl res d')
  then show ?thesis using written [of p tx v fl res] assms(1) by (auto simp: sys_ok_def)
next
  case (snapshots plan fl)
  then show ?thesis using saved buildSnapshots_only assms(1) by (simp add: sys_ok_def)
next
  case (user_job fl u)
  then show ?thesis using saved user_maybeSnapshot_only by simp
next
  case (publish connected fails fl sent d')
  then show ?thesis using published by simp
qed (use same in auto)

lemma sys_step_log_extends:
  assumes "sys_ok s" "sys_step s s'"
  shows "log_extends (sy_db s) (sy_db s')"
  using assms
proof (cases rule: sys_step_db)
  case (written p tx v fl res)
  then show ?thesis by (intro write_event_log(1) [OF written(4,6,5,3)])
next
  case saved
  then show ?thesis by (simp add: only_snapshots_keeps)
next
  case (published connected fails fl sent)
  then show ?thesis using publishBatch_keeps(4) [OF published] by (simp add: log_extends_def)
qed simp

lemma sys_step_db_ok:
  assumes "sys_ok s" "sys_step s s'"
  shows "db_ok (sy_db s')" "outbox_ok (sy_db s')" "read_model_ok (sy_db s')"
proof -
  have ok: "db_ok (sy_db s)" "outbox_ok (sy_db s)" "read_model_ok (sy_db s)"
    using assms(1) by (simp_all add: sys_ok_def)
  from assms have "db_ok (sy_db s') \<and> outbox_ok (sy_db s') \<and> read_model_ok (sy_db s')"
  proof (cases rule: sys_step_db)
    case (written p tx v fl res)
    then show ?thesis
      using projector.write_event_keeps [OF service_projector [OF written(4)] refl refl written(3,6,5)] ok by simp
  next
    case saved
    then show ?thesis using only_snapshots_keeps only_snapshots_db_ok ok by blast
  next
    case (published connected fails fl sent)
    then show ?thesis using publishBatch_keeps [OF published] ok by simp
  qed (use ok in simp)
  then show "db_ok (sy_db s')" "outbox_ok (sy_db s')" "read_model_ok (sy_db s')" by simp_all
qed

lemma sys_step_clock: "sys_step s s' \<Longrightarrow> sy_clock s \<le> sy_clock s'"
  by (erule sys_step.cases) simp_all

lemma sys_step_times:
  assumes "sys_ok s" "sys_step s s'"
  shows "list_all (\<lambda>r. ev_created_at r \<le> sy_clock s') (d_events (sy_db s'))"
proof -
  note c = sys_step_clock [OF assms(2)]
  have old: "r \<in> set (d_events (sy_db s)) \<Longrightarrow> ev_created_at r \<le> sy_clock s'" for r
    using assms(1) c by (force simp: sys_ok_def list_all_iff)
  from assms show ?thesis
  proof (cases rule: sys_step_db)
    case (written p tx v fl res)
    have "tx_start tx \<le> sy_clock s'" using assms(1) written(1) c by (force simp: sys_ok_def)
    then show ?thesis using write_event_log(2) [OF written(4,6,5,3)] old by (force simp: list_all_iff)
  next
    case (published connected fails fl sent)
    then show ?thesis using publishBatch_keeps(4) [OF published] old by (simp add: list_all_iff)
  qed (use old in \<open>simp_all add: only_snapshots_def list_all_iff\<close>)
qed

text \<open>The transactions in flight after a step.\<close>

lemma sys_step_tx:
  assumes "sys_ok s" "sys_step s s'" "sy_tx s' p = Some tx"
  shows "service (tx_service tx) \<and> tx_start tx \<le> sy_clock s' \<and>
    (\<forall>v. tx_current tx = Some v \<longrightarrow> version_read (tx_service tx) (tx_request tx) v (sy_db s'))"
proof -
  note c = sys_step_clock [OF assms(2)]
  have old: "service (tx_service tx) \<and> tx_start tx \<le> sy_clock s' \<and>
      (\<forall>v. tx_current tx = Some v \<longrightarrow> version_read (tx_service tx) (tx_request tx) v (sy_db s'))"
    if "sy_tx s q = Some tx" for q tx
    using that assms(1) c log_extends_version_read sys_step_log_extends [OF assms(1,2)]
    by (force simp: sys_ok_def)
  have log: "LatestVersion fl (sy_db s) ty i = Inr v \<Longrightarrow> v = int (length (aggregate_rows ty i (d_events (sy_db s))))" for fl ty i v
    using assms(1) LatestVersion_log_ok [of "sy_db s" fl ty i] by (auto simp: sys_ok_def db_ok_def LatestVersion_def split: if_splits)
  from assms(2) show ?thesis
  proof (cases rule: sys_step.cases)
    case (begin_tx q svc req)
    then show ?thesis using old assms(3) by (cases "p = q") auto
  next
    case (read_version q tx' fl v)
    show ?thesis
    proof (cases "p = q")
      case True
      then have "tx = tx'\<lparr>tx_current := Some v\<rparr>" "sy_db s' = sy_db s" using read_version(1) assms(3) by simp_all
      then show ?thesis using old [OF read_version(2)] log [OF read_version(4)] by (simp add: version_read_def)
    next
      case False
      then show ?thesis using old [of p] read_version(1) assms(3) by simp
    qed
  qed (use old assms(3) in \<open>auto split: if_splits\<close>)
qed

lemma sys_step_ok: "sys_ok s \<Longrightarrow> sys_step s s' \<Longrightarrow> sys_ok s'"
  using sys_step_db_ok sys_step_times sys_step_tx by (simp add: sys_ok_def [of s'])

lemma sys_ok_initial: "sys_ok (initial_sys t)"
  by (simp add: sys_ok_def initial_sys_def)

lemma reachable_ok: "reachable t s \<Longrightarrow> sys_ok s"
  by (induction rule: reachable.induct) (auto intro: sys_ok_initial sys_step_ok)

lemma steps_ok: "sys_step\<^sup>*\<^sup>* s s' \<Longrightarrow> sys_ok s \<Longrightarrow> sys_ok s' \<and> log_extends (sy_db s) (sy_db s')"
  by (induction rule: rtranclp_induct) (auto intro: sys_step_ok dest: sys_step_log_extends log_extends_trans)

section \<open>Sample runs\<close>

lemma reach_tick:
  "reachable t \<lparr>sy_db = d, sy_clock = c, sy_tx = m\<rparr> \<Longrightarrow> c \<le> c' \<Longrightarrow>
     reachable t \<lparr>sy_db = d, sy_clock = c', sy_tx = m\<rparr>"
  using reachable.more [OF _ tick [of "\<lparr>sy_db = d, sy_clock = c, sy_tx = m\<rparr>" c']] by simp

lemma reach_begin:
  "reachable t \<lparr>sy_db = d, sy_clock = c, sy_tx = m\<rparr> \<Longrightarrow> m p = None \<Longrightarrow> service svc \<Longrightarrow>
     reachable t \<lparr>sy_db = d, sy_clock = c, sy_tx = m(p \<mapsto>
       \<lparr>tx_service = svc, tx_request = req, tx_start = c, tx_current = None\<rparr>)\<rparr>"
  using reachable.more [OF _ begin_tx [of "\<lparr>sy_db = d, sy_clock = c, sy_tx = m\<rparr>" p svc req]] by simp

lemma reach_read:
  "reachable t \<lparr>sy_db = d, sy_clock = c, sy_tx = m\<rparr> \<Longrightarrow>
     m p = Some \<lparr>tx_service = svc, tx_request = req, tx_start = st, tx_current = None\<rparr> \<Longrightarrow>
     LatestVersion no_faults d (cs_aggregateType svc) (aq_ID req) = Inr v \<Longrightarrow> append_guard req v = None \<Longrightarrow>
     reachable t \<lparr>sy_db = d, sy_clock = c, sy_tx = m(p \<mapsto>
       \<lparr>tx_service = svc, tx_request = req, tx_start = st, tx_current = Some v\<rparr>)\<rparr>"
  using reachable.more [OF _ read_version [of "\<lparr>sy_db = d, sy_clock = c, sy_tx = m\<rparr>" p
      "\<lparr>tx_service = svc, tx_request = req, tx_start = st, tx_current = None\<rparr>" no_faults v]] by simp

lemma reach_write:
  "reachable t \<lparr>sy_db = d, sy_clock = c, sy_tx = m\<rparr> \<Longrightarrow>
     m p = Some \<lparr>tx_service = svc, tx_request = req, tx_start = st, tx_current = Some v\<rparr> \<Longrightarrow>
     reachable t \<lparr>sy_db = snd (write_event svc no_faults st req v d), sy_clock = c, sy_tx = m(p := None)\<rparr>"
  using reachable.more [OF _ write_commit [of "\<lparr>sy_db = d, sy_clock = c, sy_tx = m\<rparr>" p
      "\<lparr>tx_service = svc, tx_request = req, tx_start = st, tx_current = Some v\<rparr>" v no_faults
      "fst (write_event svc no_faults st req v d)" "snd (write_event svc no_faults st req v d)"]] by simp

lemma reach_initial: "reachable t \<lparr>sy_db = empty_db, sy_clock = t, sy_tx = Map.empty\<rparr>"
  using reachable.start [of t] by (simp add: initial_sys_def)

definition run_create :: append_request where
  "run_create = user_request ''u1'' None UserCreated
     (user_created_json \<lparr>uc_Name = ''Ann'', uc_Email = ''a@x''\<rparr>) empty_metadata"

definition run_rename :: append_request where
  "run_rename = user_request ''u1'' None UserUpdated (user_updated_json
     \<lparr>uu_Name = Some ''Bob'', uu_Email = None, uu_Address = None, uu_Avatar = None\<rparr>) empty_metadata"

text \<open>Two clients create the same user at once; one of them has written.\<close>

definition race_db :: db where
  "race_db = snd (write_event (userCmds 50) no_faults 0 run_create 0 empty_db)"

definition race_sys :: sys where
  "race_sys = \<lparr>sy_db = race_db, sy_clock = 0, sy_tx = Map.empty(1 \<mapsto> \<lparr>tx_service = userCmds 50,
     tx_request = run_create, tx_start = 0, tx_current = Some 0\<rparr>)\<rparr>"

definition run_tx :: "append_request \<Rightarrow> int \<Rightarrow> i64 option \<Rightarrow> tx" where
  "run_tx req t v = \<lparr>tx_service = userCmds 50, tx_request = req, tx_start = t, tx_current = v\<rparr>"

lemmas run_steps = reach_tick reach_begin [where svc = "userCmds 50", folded run_tx_def, simplified]
  reach_read [where svc = "userCmds 50", folded run_tx_def, simplified]
  reach_write [where svc = "userCmds 50", folded run_tx_def, simplified]

definition created_db :: db where
  "created_db = snd (write_event (userCmds 50) no_faults 10000000 run_create 0 empty_db)"

lemma run_reads:
  "LatestVersion no_faults empty_db AggregateUser (aq_ID run_create) = Inr 0"
  "append_guard run_create 0 = None"
  "LatestVersion no_faults created_db AggregateUser (aq_ID run_rename) = Inr 1"
  "append_guard run_rename 1 = None"
  by (code_simp, code_simp, code_simp, code_simp)

lemma race_reachable: "reachable 0 race_sys"
proof -
  have "reachable 0 \<lparr>sy_db = empty_db, sy_clock = 0, sy_tx = Map.empty(0 \<mapsto> run_tx run_create 0 None)\<rparr>"
    by (rule run_steps(2) [OF reach_initial]) simp
  then have "reachable 0 \<lparr>sy_db = empty_db, sy_clock = 0,
      sy_tx = Map.empty(0 \<mapsto> run_tx run_create 0 None, 1 \<mapsto> run_tx run_create 0 None)\<rparr>"
    by (rule run_steps(2)) simp
  then have "reachable 0 \<lparr>sy_db = empty_db, sy_clock = 0, sy_tx = Map.empty(0 \<mapsto> run_tx run_create 0 None,
      1 \<mapsto> run_tx run_create 0 None, 0 \<mapsto> run_tx run_create 0 (Some 0))\<rparr>"
    by (rule run_steps(3)) (simp_all add: run_reads)
  then have "reachable 0 \<lparr>sy_db = empty_db, sy_clock = 0, sy_tx = Map.empty(0 \<mapsto> run_tx run_create 0 None,
      1 \<mapsto> run_tx run_create 0 None, 0 \<mapsto> run_tx run_create 0 (Some 0), 1 \<mapsto> run_tx run_create 0 (Some 0))\<rparr>"
    by (rule run_steps(3)) (simp_all add: run_reads)
  then have "reachable 0 \<lparr>sy_db = race_db, sy_clock = 0, sy_tx = (Map.empty(0 \<mapsto> run_tx run_create 0 None,
      1 \<mapsto> run_tx run_create 0 None, 0 \<mapsto> run_tx run_create 0 (Some 0), 1 \<mapsto> run_tx run_create 0 (Some 0)))(0 := None)\<rparr>"
    unfolding race_db_def by (rule run_steps(4)) simp
  moreover have "(Map.empty(0::nat \<mapsto> a, 1 \<mapsto> b, 0 \<mapsto> c, 1 \<mapsto> e))(0 := None) = Map.empty(1 \<mapsto> e)" for a b c e :: tx
    by (simp add: fun_eq_iff)
  ultimately show ?thesis by (simp only: race_sys_def run_tx_def)
qed

text \<open>
  A rename begins its transaction, ten seconds pass, the user is created, and only then the rename
  reads the current version and writes: its event has the version 2 and the earlier time.
\<close>

definition late_db :: db where
  "late_db = snd (write_event (userCmds 50) no_faults 0 run_rename 1 created_db)"

lemma late_run: "\<exists>s s'. reachable 0 s \<and> sy_db s = created_db \<and> sys_step\<^sup>*\<^sup>* s s' \<and> sy_db s' = late_db"
proof -
  let ?m = "Map.empty(1 \<mapsto> run_tx run_rename 0 None, 0 \<mapsto> run_tx run_create 10000000 None, 0 \<mapsto> run_tx run_create 10000000 (Some 0))"
  have "reachable 0 \<lparr>sy_db = empty_db, sy_clock = 0, sy_tx = Map.empty(1 \<mapsto> run_tx run_rename 0 None)\<rparr>"
    by (rule run_steps(2) [OF reach_initial]) simp
  then have "reachable 0 \<lparr>sy_db = empty_db, sy_clock = 10000000, sy_tx = Map.empty(1 \<mapsto> run_tx run_rename 0 None)\<rparr>"
    by (rule run_steps(1)) simp
  then have "reachable 0 \<lparr>sy_db = empty_db, sy_clock = 10000000,
      sy_tx = Map.empty(1 \<mapsto> run_tx run_rename 0 None, 0 \<mapsto> run_tx run_create 10000000 None)\<rparr>"
    by (rule run_steps(2)) simp
  then have "reachable 0 \<lparr>sy_db = empty_db, sy_clock = 10000000, sy_tx = ?m\<rparr>"
    by (rule run_steps(3)) (simp_all add: run_reads)
  then have "reachable 0 \<lparr>sy_db = created_db, sy_clock = 10000000, sy_tx = ?m(0 := None)\<rparr>" (is "reachable 0 ?s")
    unfolding created_db_def by (rule run_steps(4)) simp
  moreover have "sys_step ?s (?s\<lparr>sy_tx := (sy_tx ?s)(1 \<mapsto> run_tx run_rename 0 (Some 1))\<rparr>)" (is "sys_step ?s ?r")
    using read_version [of ?s 1 "run_tx run_rename 0 None" no_faults 1] run_reads by (simp add: run_tx_def)
  moreover have "sys_step ?r (?r\<lparr>sy_db := late_db, sy_tx := (sy_tx ?r)(1 := None)\<rparr>)" (is "sys_step ?r ?l")
    using write_commit [of ?r 1 "run_tx run_rename 0 (Some 1)" 1 no_faults "fst (write_event (userCmds 50) no_faults 0 run_rename 1 created_db)" late_db]
    by (simp add: run_tx_def late_db_def)
  ultimately show ?thesis
    by (intro exI [of _ ?s] exI [of _ ?l]) (simp add: converse_rtranclp_into_rtranclp [OF _ r_into_rtranclp])
qed

lemma late_reachable: "\<exists>s. reachable 0 s \<and> sy_db s = late_db"
proof -
  obtain s s' where s: "reachable 0 s" "sys_step\<^sup>*\<^sup>* s s'" "sy_db s' = late_db" using late_run by blast
  from s(2,1) have "reachable 0 s'" by (induction rule: rtranclp_induct) (auto intro: more)
  with s(3) show ?thesis by blast
qed

section \<open>Properties\<close>

text \<open>C3: in every reachable state, however commands, builders and publishers interleave: the versions of
  each aggregate are 1, 2, 3 and so on without a gap or a duplicate, no two events have the same
  identity and along each aggregate identities increase, there is exactly one outbox row for each event, the
  read models show every aggregate at its latest version, and no event is from the future. Nothing is said
  of the order of the identities of different aggregates: here a write and its commit are one step, and
  transactions that overlap draw their identities in one order and may end in the other.\<close>

theorem reachable_consistent:
  assumes "reachable t s"
  shows "map ev_version (aggregate_rows ty i (d_events (sy_db s)))
      = map int [1..<Suc (length (aggregate_rows ty i (d_events (sy_db s))))] \<and>
    distinct (map ev_id (d_events (sy_db s))) \<and>
    sorted_wrt (<) (map ev_id (aggregate_rows ty i (d_events (sy_db s)))) \<and>
    map ob_event_id (d_outbox (sy_db s)) = map ev_id (d_events (sy_db s)) \<and>
    (aggregate_type ty \<longrightarrow> read_version ty i (sy_db s) =
       (let n = length (aggregate_rows ty i (d_events (sy_db s))) in if n = 0 then None else Some (int n))) \<and>
    list_all (\<lambda>r. ev_created_at r \<le> sy_clock s) (d_events (sy_db s))"
proof -
  have ok: "sys_ok s" using reachable_ok [OF assms] .
  then have "map (\<lambda>b. (ob_aggregate_type b, ob_aggregate_id b, ob_event_id b)) (d_outbox (sy_db s))
      = map (\<lambda>r. (ev_aggregate_type r, ev_aggregate_id r, ev_id r)) (d_events (sy_db s))"
    by (simp add: sys_ok_def outbox_ok_def)
  from arg_cong [OF this, of "map (\<lambda>(_, _, x). x)"]
  have "map ob_event_id (d_outbox (sy_db s)) = map ev_id (d_events (sy_db s))" by (simp add: comp_def)
  then show ?thesis
    using ok by (simp add: sys_ok_def db_ok_def log_ok_def versions_from_1_def read_model_ok_def del: upt_Suc)
qed

text \<open>C16: history is append-only: from any reachable state, every later log extends the present one, and
  what a query by version reads of an aggregate that has reached that version never changes.\<close>

theorem history_append_only:
  assumes "reachable t s" "sys_step\<^sup>*\<^sup>* s s'" "v \<le> int (length (aggregate_events ty i (d_events (sy_db s))))"
  shows "(\<exists>rows. d_events (sy_db s') = d_events (sy_db s) @ rows) \<and>
    LoadEventsUntil no_faults (sy_db s') ty i (at_version v) = LoadEventsUntil no_faults (sy_db s) ty i (at_version v)"
proof -
  have ok: "sys_ok s" "sys_ok s'" and ext: "log_extends (sy_db s) (sy_db s')"
    using steps_ok [OF assms(2)] reachable_ok [OF assms(1)] by simp_all
  then obtain rows where rows: "d_events (sy_db s') = d_events (sy_db s) @ rows" by (auto simp: log_extends_def)
  have "take (nat v) (aggregate_events ty i (d_events (sy_db s'))) = take (nat v) (aggregate_events ty i (d_events (sy_db s)))"
    using assms(3) by (simp add: rows aggregate_events_append)
  then show ?thesis
    using ok rows by (simp add: LoadEventsUntil_version sys_ok_def db_ok_def)
qed

text \<open>C4: no update is lost: a command in flight that read a version which another command has since
  followed up is refused with a conflict, and writes nothing, when the database answers its insert.\<close>

theorem overtaken_command_refused:
  assumes "reachable t s" "sy_tx s p = Some tx" "tx_current tx = Some v" "\<not> fl CallInsertEvent"
    "d_event_seq (sy_db s) < 9223372036854775807"
    "v < int (length (aggregate_rows (cs_aggregateType (tx_service tx)) (aq_ID (tx_request tx)) (d_events (sy_db s))))"
    "write_event (tx_service tx) fl (tx_start tx) (tx_request tx) v (sy_db s) = (res, d')"
  shows "res = Inl ErrConflict \<and> tables d' = tables (sy_db s)"
proof -
  have "db_ok (sy_db s)" "version_read (tx_service tx) (tx_request tx) v (sy_db s)"
    using reachable_ok [OF assms(1)] assms(2,3) by (auto simp: sys_ok_def)
  from write_event_overtaken [where fl = fl, OF this assms(5,6,4)] assms(7) have "res = Inl ErrConflict"
    by (metis fst_conv)
  then show ?thesis using write_event_Inl assms(7) by blast
qed

lemma reachable_consistent_witness:
  "map ev_version (aggregate_rows AggregateUser ''u1'' (d_events late_db)) = [1, 2] \<and>
   map ob_event_id (d_outbox late_db) = map ev_id (d_events late_db)"
proof -
  obtain s where s: "reachable 0 s" "sy_db s = late_db" using late_reachable by blast
  have "map ev_version (aggregate_rows AggregateUser ''u1'' (d_events late_db)) = [1, 2]" by code_simp
  with reachable_consistent [OF s(1), of AggregateUser "''u1''"] s(2) show ?thesis by simp
qed

lemma history_append_only_witness:
  "\<exists>s s'. reachable 0 s \<and> sys_step\<^sup>*\<^sup>* s s' \<and> length (d_events (sy_db s)) = 1 \<and> length (d_events (sy_db s')) = 2 \<and>
     LoadEventsUntil no_faults (sy_db s') AggregateUser ''u1'' (at_version 1) =
       LoadEventsUntil no_faults (sy_db s) AggregateUser ''u1'' (at_version 1)"
proof -
  obtain s s' where s: "reachable 0 s" "sy_db s = created_db" "sys_step\<^sup>*\<^sup>* s s'" "sy_db s' = late_db"
    using late_run by blast
  have "1 \<le> int (length (aggregate_events AggregateUser ''u1'' (d_events created_db)))"
    "length (d_events created_db) = 1" "length (d_events late_db) = 2" by (code_simp, code_simp, code_simp)
  with history_append_only [OF s(1,3), of 1 AggregateUser "''u1''"] s show ?thesis
    by (intro exI [of _ s] exI [of _ s']) simp
qed

lemma overtaken_command_refused_witness:
  "fst (write_event (userCmds 50) no_faults 0 run_create 0 race_db) = Inl ErrConflict"
proof -
  let ?tx = "\<lparr>tx_service = userCmds 50, tx_request = run_create, tx_start = 0, tx_current = Some 0\<rparr>"
  have "0 < int (length (aggregate_rows AggregateUser ''u1'' (d_events race_db)))"
    "d_event_seq race_db < 9223372036854775807"
    by (code_simp, code_simp)
  moreover have "aq_ID run_create = ''u1''" by (simp add: run_create_def user_request_def)
  ultimately show ?thesis
    using overtaken_command_refused [OF race_reachable, of 1 ?tx 0 no_faults
        "fst (write_event (userCmds 50) no_faults 0 run_create 0 race_db)"
        "snd (write_event (userCmds 50) no_faults 0 run_create 0 race_db)"]
    by (simp add: race_sys_def)
qed

text \<open>The times of an aggregate's events need not follow its versions: there is a run after which the
  rename of a user (version 2) is older than its creation, so that the state at a time between the
  two is a user that was renamed and never created.\<close>

theorem time_order_broken:
  "\<exists>s. reachable 0 s \<and>
     map (\<lambda>r. (ev_version r, ev_created_at r)) (d_events (sy_db s)) = [(1, 10000000), (2, 0)] \<and>
     map_sum id (\<lambda>u. (u_Version u, u_Name u, u_Email u))
       (ReplayUser no_faults (sy_db s) ''u1'' (at_time (GoTime 5000000000 UTC))) = Inr (2, ''Bob'', [])"
proof -
  have "map (\<lambda>r. (ev_version r, ev_created_at r)) (d_events late_db) = [(1, 10000000), (2, 0)]"
    "map_sum id (\<lambda>u. (u_Version u, u_Name u, u_Email u))
       (ReplayUser no_faults late_db ''u1'' (at_time (GoTime 5000000000 UTC))) = Inr (2, ''Bob'', [])"
    by (code_simp, code_simp)
  moreover obtain s where "reachable 0 s" "sy_db s = late_db" using late_reachable by blast
  ultimately show ?thesis by (intro exI [of _ s]) simp
qed

end
