(* ===== verification/Connections.thy ===== *)
theory Connections
  imports System
begin

text \<open>
  The connections of the pool that the running service shares. A command holds the connection of its
  transaction (\<open>Pool().Begin\<close> in \<open>internal/platform/commands.go\<close> and \<open>internal/user/service.go\<close>)
  while \<open>LatestVersion\<close> asks the same pool for another one; the publisher and the cache warmer hold
  the connection of their open query while each row they handle asks for another one. Everything
  else takes one connection at a time. What waits for a connection waits until one is free; a
  client that goes away meanwhile, which ends its command, is left out.
\<close>

section \<open>Steps\<close>

text \<open>
  A round of the publisher is between two rows (with the rows it has not read yet), or it has sent a
  row and wants to mark it. \<open>po_warming\<close> holds the users an open round of the warmer still replays.
\<close>

datatype publishing = Rows "outbox_row list" | Marking outbox_row "outbox_row list"

record pooled =
  po_sys :: sys
  po_publishing :: "publishing option"
  po_warming :: "string list option"

abbreviation po_db :: "pooled \<Rightarrow> db" where
  "po_db s \<equiv> sy_db (po_sys s)"

abbreviation po_tx :: "pooled \<Rightarrow> nat \<rightharpoonup> tx" where
  "po_tx s \<equiv> sy_tx (po_sys s)"

definition set_tx :: "pooled \<Rightarrow> (nat \<rightharpoonup> tx) \<Rightarrow> pooled" where
  "set_tx s m = s\<lparr>po_sys := (po_sys s)\<lparr>sy_tx := m\<rparr>\<rparr>"

definition set_db :: "pooled \<Rightarrow> db \<Rightarrow> pooled" where
  "set_db s d = s\<lparr>po_sys := (po_sys s)\<lparr>sy_db := d\<rparr>\<rparr>"

definition busy :: "pooled \<Rightarrow> nat" where
  "busy s = card (dom (po_tx s)) + (if po_publishing s = None then 0 else 1) + (if po_warming s = None then 0 else 1)"

text \<open>The users among the aggregates the warmer's query selects.\<close>

definition warm_users :: "((string \<times> string) list \<Rightarrow> (string \<times> string) list) \<Rightarrow> db \<Rightarrow> string list" where
  "warm_users plan d = map snd (filter (\<lambda>(ty, i). ty = ''user'')
     (take 50 (plan (remdups (map (\<lambda>r. (ev_aggregate_type r, ev_aggregate_id r)) (d_events d))))))"

definition pool_initial :: "int \<Rightarrow> pooled" where
  "pool_initial t = \<lparr>po_sys = initial_sys t, po_publishing = None, po_warming = None\<rparr>"

inductive pool_step :: "nat \<Rightarrow> pooled \<Rightarrow> pooled \<Rightarrow> bool" for N where
  time_passes: "sy_clock (po_sys s) \<le> t \<Longrightarrow> pool_step N s (s\<lparr>po_sys := (po_sys s)\<lparr>sy_clock := t\<rparr>\<rparr>)"
| command_begins: "busy s < N \<Longrightarrow> po_tx s p = None \<Longrightarrow> service svc \<Longrightarrow>
    pool_step N s (set_tx s ((po_tx s)(p \<mapsto>
      \<lparr>tx_service = svc, tx_request = req, tx_start = sy_clock (po_sys s), tx_current = None\<rparr>)))"
| command_reads: "busy s < N \<Longrightarrow> po_tx s p = Some tx \<Longrightarrow> tx_current tx = None \<Longrightarrow>
    LatestVersion fl (po_db s) (cs_aggregateType (tx_service tx)) (aq_ID (tx_request tx)) = Inr v \<Longrightarrow>
    append_guard (tx_request tx) v = None \<Longrightarrow>
    pool_step N s (set_tx s ((po_tx s)(p \<mapsto> tx\<lparr>tx_current := Some v\<rparr>)))"
| command_refused: "busy s < N \<Longrightarrow> po_tx s p = Some tx \<Longrightarrow> tx_current tx = None \<Longrightarrow>
    LatestVersion fl (po_db s) (cs_aggregateType (tx_service tx)) (aq_ID (tx_request tx)) = r \<Longrightarrow>
    isl r \<or> append_guard (tx_request tx) (projr r) \<noteq> None \<Longrightarrow>
    pool_step N s (set_tx s ((po_tx s)(p := None)))"
| command_writes: "po_tx s p = Some tx \<Longrightarrow> tx_current tx = Some v \<Longrightarrow>
    write_event (tx_service tx) fl (tx_start tx) (tx_request tx) v (po_db s) = (res, d') \<Longrightarrow>
    pool_step N s (set_tx (set_db s d') ((po_tx s)(p := None)))"
| snapshot_saved: "busy s < N \<Longrightarrow> pool_step N s (set_db s (snapshotOne fl (sy_clock (po_sys s)) ty i (po_db s)))"
| user_saved: "busy s < N \<Longrightarrow> pool_step N s (set_db s (user_maybeSnapshot fl (sy_clock (po_sys s)) u (po_db s)))"
| publisher_queries: "busy s < N \<Longrightarrow> po_publishing s = None \<Longrightarrow>
    pool_step N s (s\<lparr>po_publishing := Some (Rows (take 100 (unpublished (po_db s))))\<rparr>)"
| publisher_sends: "po_publishing s = Some (Rows (r # rs)) \<Longrightarrow>
    pool_step N s (s\<lparr>po_publishing := Some (Marking r rs)\<rparr>)"
| publisher_marks: "busy s < N \<Longrightarrow> po_publishing s = Some (Marking r rs) \<Longrightarrow>
    pool_step N s (set_db (s\<lparr>po_publishing := Some (Rows rs)\<rparr>) (if failed then po_db s else mark_published (ob_id r) (po_db s)))"
| publisher_ends: "po_publishing s = Some (Rows rs) \<Longrightarrow> pool_step N s (s\<lparr>po_publishing := None\<rparr>)"
| warmer_queries: "busy s < N \<Longrightarrow> po_warming s = None \<Longrightarrow>
    pool_step N s (s\<lparr>po_warming := Some (warm_users plan (po_db s))\<rparr>)"
| warmer_replays: "busy s < N \<Longrightarrow> po_warming s = Some (i # is) \<Longrightarrow> pool_step N s (s\<lparr>po_warming := Some is\<rparr>)"
| warmer_ends: "po_warming s = Some [] \<Longrightarrow> pool_step N s (s\<lparr>po_warming := None\<rparr>)"

inductive pool_reachable :: "nat \<Rightarrow> int \<Rightarrow> pooled \<Rightarrow> bool" for N t where
  pool_start: "pool_reachable N t (pool_initial t)"
| pool_more: "pool_reachable N t s \<Longrightarrow> pool_step N s s' \<Longrightarrow> pool_reachable N t s'"

text \<open>Every connection is held by something that waits for another one.\<close>

definition full_waiting :: "nat \<Rightarrow> pooled \<Rightarrow> bool" where
  "full_waiting N s \<longleftrightarrow> busy s = N \<and> (\<forall>tx \<in> ran (po_tx s). tx_current tx = None) \<and>
     (\<forall>rs. po_publishing s \<noteq> Some (Rows rs)) \<and> po_warming s \<noteq> Some []"

section \<open>Lemmas\<close>

lemma set_sel [simp]:
  "po_tx (set_tx s m) = m" "po_db (set_tx s m) = po_db s" "sy_clock (po_sys (set_tx s m)) = sy_clock (po_sys s)"
  "po_publishing (set_tx s m) = po_publishing s" "po_warming (set_tx s m) = po_warming s"
  "po_tx (set_db s d) = po_tx s" "po_db (set_db s d) = d" "sy_clock (po_sys (set_db s d)) = sy_clock (po_sys s)"
  "po_publishing (set_db s d) = po_publishing s" "po_warming (set_db s d) = po_warming s"
  by (simp_all add: set_tx_def set_db_def)

text \<open>The pool never gives out more connections than it has.\<close>

lemma card_dom_free: "finite (dom m) \<Longrightarrow> m p \<noteq> None \<Longrightarrow> Suc (card (dom (m(p := None)))) = card (dom m)"
  using card_Suc_Diff1 [of "dom m" p] by (simp add: domIff)

lemma pool_step_bounded:
  assumes "pool_step N s s'" "finite (dom (po_tx s))" "busy s \<le> N"
  shows "finite (dom (po_tx s')) \<and> busy s' \<le> N"
proof -
  note le = card_Diff1_le [of "dom (po_tx s)"]
  note le1 = le [THEN Suc_le_mono [THEN iffD2]]
  note le2 = le1 [THEN Suc_le_mono [THEN iffD2]]
  from assms show ?thesis
    by (cases rule: pool_step.cases)
      (auto simp: busy_def card_insert_if split: if_splits intro: order.trans [OF le] order.trans [OF le1] order.trans [OF le2])
qed

lemma pool_bounded: "pool_reachable N t s \<Longrightarrow> finite (dom (po_tx s)) \<and> busy s \<le> N"
proof (induction rule: pool_reachable.induct)
  case pool_start
  then show ?case by (simp add: pool_initial_def initial_sys_def busy_def)
next
  case (pool_more s s')
  then show ?case using pool_step_bounded by blast
qed

text \<open>Hold and wait: once every connection is held by something that waits, nothing moves but the clock.\<close>

lemma full_waiting_step:
  assumes "full_waiting N s" "pool_step N s s'"
  shows "full_waiting N s' \<and> po_tx s' = po_tx s \<and> po_db s' = po_db s"
  using assms(2,1)
  by (cases rule: pool_step.cases) (auto simp: full_waiting_def busy_def ranI dest: ranI)

lemma full_waiting_forever:
  assumes "(pool_step N)\<^sup>*\<^sup>* s s'" "full_waiting N s"
  shows "full_waiting N s' \<and> po_tx s' = po_tx s \<and> po_db s' = po_db s"
  using assms by (induction rule: rtranclp_induct) (auto dest: full_waiting_step)

text \<open>With a free connection every command can be answered.\<close>

lemma command_step_last:
  assumes "po_tx s p = Some tx" "tx_current tx = Some v"
  shows "\<exists>s'. pool_step N s s' \<and> po_tx s' = (po_tx s)(p := None) \<and>
    po_publishing s' = po_publishing s \<and> po_warming s' = po_warming s"
proof -
  obtain res d' where "write_event (tx_service tx) no_faults (tx_start tx) (tx_request tx) v (po_db s) = (res, d')"
    by force
  from command_writes [OF assms this] show ?thesis
    by (intro exI [of _ "set_tx (set_db s d') ((po_tx s)(p := None))"]) simp
qed

lemma free_connection_answers:
  assumes "busy s < N" "po_tx s p = Some tx"
  shows "\<exists>s'. (pool_step N)\<^sup>*\<^sup>* s s' \<and> po_tx s' p = None"
proof (cases "tx_current tx")
  case (Some v)
  obtain s' where "pool_step N s s'" "po_tx s' = (po_tx s)(p := None)"
    using command_step_last [OF assms(2) Some] by blast
  then show ?thesis by (intro exI [of _ s']) (simp add: r_into_rtranclp)
next
  case None
  define v where "v = max_version (aggregate_rows (cs_aggregateType (tx_service tx)) (aq_ID (tx_request tx)) (d_events (po_db s)))"
  have l: "LatestVersion no_faults (po_db s) (cs_aggregateType (tx_service tx)) (aq_ID (tx_request tx)) = Inr v"
    by (simp add: LatestVersion_def v_def)
  show ?thesis
  proof (cases "append_guard (tx_request tx) v")
    case (Some e)
    then have "pool_step N s (set_tx s ((po_tx s)(p := None)))"
      using command_refused [OF assms None l] by simp
    then have "(pool_step N)\<^sup>*\<^sup>* s (set_tx s ((po_tx s)(p := None)))" by (rule r_into_rtranclp)
    then show ?thesis by (intro exI [of _ "set_tx s ((po_tx s)(p := None))"]) simp
  next
    case g: None
    let ?s = "set_tx s ((po_tx s)(p \<mapsto> tx\<lparr>tx_current := Some v\<rparr>))"
    have r: "pool_step N s ?s" by (rule command_reads [OF assms None l g])
    obtain s' where s': "pool_step N ?s s'" "po_tx s' p = None"
      using command_step_last [of ?s p "tx\<lparr>tx_current := Some v\<rparr>" v N] by auto
    have "(pool_step N)\<^sup>*\<^sup>* s s'" using r s'(1) by (rule converse_rtranclp_into_rtranclp [OF _ r_into_rtranclp])
    with s'(2) show ?thesis by (intro exI [of _ s'] conjI)
  qed
qed

text \<open>While something need not wait, a connection can become free without the command ending otherwise.\<close>

lemma not_waiting_frees:
  assumes "finite (dom (po_tx s))" "busy s \<le> N" "\<not> full_waiting N s" "po_tx s p = Some tx"
  obtains s' where "(pool_step N)\<^sup>*\<^sup>* s s'" "po_tx s' p = None \<or> busy s' < N \<and> po_tx s' p = Some tx"
proof (cases "busy s < N")
  case True
  then show ?thesis using that [of s] assms(4) by simp
next
  case False
  then have full: "busy s = N" using assms(2) by simp
  then consider (reader) q tx' v where "po_tx s q = Some tx'" "tx_current tx' = Some v"
    | (rows) rs where "po_publishing s = Some (Rows rs)" | (warmed) "po_warming s = Some []"
    using assms(3) by (fastforce simp: full_waiting_def ran_def)
  then show ?thesis
  proof cases
    case reader
    from command_step_last [OF this] obtain s' where s': "pool_step N s s'" "po_tx s' = (po_tx s)(q := None)"
      "po_publishing s' = po_publishing s" "po_warming s' = po_warming s" by blast
    then have "Suc (busy s') = N"
      using full card_dom_free [OF assms(1), of q] reader(1) by (simp add: busy_def)
    then show ?thesis using that [of s'] s' assms(4) by (cases "q = p") auto
  next
    case rows
    then have "busy (s\<lparr>po_publishing := None\<rparr>) < N" using full by (auto simp: busy_def)
    then show ?thesis using that [OF r_into_rtranclp [where r = "pool_step N", OF publisher_ends [OF rows]]] assms(4) by simp
  next
    case warmed
    then have "busy (s\<lparr>po_warming := None\<rparr>) < N" using full by (auto simp: busy_def)
    then show ?thesis using that [OF r_into_rtranclp [where r = "pool_step N", OF warmer_ends [OF warmed]]] assms(4) by simp
  qed
qed

text \<open>A client for every connection: all have begun, none has read.\<close>

definition begun :: "int \<Rightarrow> command_service \<Rightarrow> (nat \<Rightarrow> append_request) \<Rightarrow> nat \<Rightarrow> nat \<rightharpoonup> tx" where
  "begun t svc req k p =
     (if p < k then Some \<lparr>tx_service = svc, tx_request = req p, tx_start = t, tx_current = None\<rparr> else None)"

lemma begun_Suc:
  "begun t svc req (Suc k) = (begun t svc req k)(k \<mapsto>
     \<lparr>tx_service = svc, tx_request = req k, tx_start = t, tx_current = None\<rparr>)"
  by (auto simp: begun_def fun_eq_iff)

lemma dom_begun [simp]: "dom (begun t svc req k) = {..<k}"
  by (auto simp: begun_def dom_def)

lemma begun_reachable:
  assumes "service svc" "k \<le> N"
  shows "pool_reachable N t (set_tx (pool_initial t) (begun t svc req k))"
  using assms(2)
proof (induction k)
  case 0
  have "set_tx (pool_initial t) (begun t svc req 0) = pool_initial t"
    by (simp add: set_tx_def pool_initial_def initial_sys_def begun_def [abs_def])
  then show ?case by (simp add: pool_start)
next
  case (Suc k)
  let ?s = "set_tx (pool_initial t) (begun t svc req k)"
  have "busy ?s < N" "po_tx ?s k = None" "sy_clock (po_sys ?s) = t"
    using Suc.prems by (simp_all add: busy_def pool_initial_def initial_sys_def begun_def)
  then have "pool_step N ?s (set_tx ?s ((po_tx ?s)(k \<mapsto>
      \<lparr>tx_service = svc, tx_request = req k, tx_start = t, tx_current = None\<rparr>)))"
    using command_begins [of ?s N k svc "req k"] assms(1) by simp
  moreover have "set_tx ?s m = set_tx (pool_initial t) m" for m by (simp add: set_tx_def)
  ultimately have "pool_step N ?s (set_tx (pool_initial t) (begun t svc req (Suc k)))"
    by (simp only: begun_Suc set_sel)
  moreover have "pool_reachable N t ?s" using Suc by simp
  ultimately show ?case by (rule pool_more [rotated])
qed

lemma begun_full_waiting: "full_waiting k (set_tx (pool_initial t) (begun t svc req k))"
  by (auto simp: full_waiting_def busy_def pool_initial_def ran_def begun_def split: if_splits)

text \<open>However many connections the pool has, as many commands (on whatever aggregates) that begin
  before one of them reads its version bring the service to a state in which every connection is
  held by a command that waits for another one.\<close>

lemma pool_deadlock_reachable:
  "pool_reachable N t (set_tx (pool_initial t) (begun t (userCmds k) req N)) \<and>
   full_waiting N (set_tx (pool_initial t) (begun t (userCmds k) req N))"
  using begun_reachable [of "userCmds k" N N t req] begun_full_waiting by simp

section \<open>Properties\<close>

text \<open>C19: a command in flight can come to an end exactly if not all connections are held by something
  that waits for another one; from such a state on, whatever happens, no command ends or advances
  and the database stays as it is. Such a state is within reach for every number of connections: it
  takes that many commands, on whatever aggregates, that begin before one of them reads its version.\<close>

theorem pool_deadlock_exactly:
  assumes "pool_reachable N t s" "po_tx s p = Some tx"
  shows "((\<exists>s'. (pool_step N)\<^sup>*\<^sup>* s s' \<and> po_tx s' p = None) \<longleftrightarrow> \<not> full_waiting N s) \<and>
    (full_waiting N s \<and> (pool_step N)\<^sup>*\<^sup>* s later \<longrightarrow> po_tx later = po_tx s \<and> po_db later = po_db s) \<and>
    (let together = set_tx (pool_initial t) (begun t (userCmds k) req N)
     in pool_reachable N t together \<and> full_waiting N together)"
proof (intro conjI)
  show "(\<exists>s'. (pool_step N)\<^sup>*\<^sup>* s s' \<and> po_tx s' p = None) \<longleftrightarrow> \<not> full_waiting N s"
  proof
    assume "\<exists>s'. (pool_step N)\<^sup>*\<^sup>* s s' \<and> po_tx s' p = None"
    then obtain s' where "(pool_step N)\<^sup>*\<^sup>* s s'" "po_tx s' p = None" by blast
    then show "\<not> full_waiting N s" using full_waiting_forever [of N s s'] assms(2) by auto
  next
    assume "\<not> full_waiting N s"
    from not_waiting_frees [OF _ _ this assms(2)] pool_bounded [OF assms(1)]
    obtain s1 where s1: "(pool_step N)\<^sup>*\<^sup>* s s1" "po_tx s1 p = None \<or> busy s1 < N \<and> po_tx s1 p = Some tx" by metis
    show "\<exists>s'. (pool_step N)\<^sup>*\<^sup>* s s' \<and> po_tx s' p = None"
    proof (cases "po_tx s1 p")
      case None
      with s1(1) show ?thesis by blast
    next
      case (Some tx1)
      with s1(2) obtain s2 where "(pool_step N)\<^sup>*\<^sup>* s1 s2" "po_tx s2 p = None"
        using free_connection_answers [of s1 N p tx] by auto
      with rtranclp_trans [OF s1(1)] show ?thesis by blast
    qed
  qed
  show "full_waiting N s \<and> (pool_step N)\<^sup>*\<^sup>* s later \<longrightarrow> po_tx later = po_tx s \<and> po_db later = po_db s"
    using full_waiting_forever by blast
  show "let together = set_tx (pool_initial t) (begun t (userCmds k) req N)
     in pool_reachable N t together \<and> full_waiting N together"
    unfolding Let_def by (rule pool_deadlock_reachable)
qed

lemma pool_deadlock_exactly_witness:
  "\<not> (\<exists>s'. (pool_step 4)\<^sup>*\<^sup>* (set_tx (pool_initial 0) (begun 0 (userCmds 50) (\<lambda>_. run_create) 4)) s' \<and> po_tx s' 3 = None) \<and>
   (\<exists>s'. (pool_step 4)\<^sup>*\<^sup>* (set_tx (pool_initial 0) (begun 0 (userCmds 50) (\<lambda>_. run_create) 3)) s' \<and> po_tx s' 2 = None)"
proof -
  let ?s = "\<lambda>k. set_tx (pool_initial 0) (begun 0 (userCmds 50) (\<lambda>_. run_create) k)"
  have "\<not> full_waiting 4 (?s 3)" by (simp add: full_waiting_def busy_def pool_initial_def)
  moreover have "po_tx (?s 4) 3 \<noteq> None" "po_tx (?s 3) 2 \<noteq> None" by (simp_all add: begun_def)
  ultimately show ?thesis
    using pool_deadlock_exactly [OF begun_reachable [of "userCmds 50" 4 4 0 "\<lambda>_. run_create"], of 3]
      pool_deadlock_exactly [OF begun_reachable [of "userCmds 50" 3 4 0 "\<lambda>_. run_create"], of 2]
      begun_full_waiting [of 4 0 "userCmds 50" "\<lambda>_. run_create"] by auto
qed

end
