(* ===== verification/Delivery.thy ===== *)
theory Delivery
  imports Connections "HOL-Library.Sublist"
begin

text \<open>
  What the outbox publisher of \<open>internal/worker/outbox.go\<close> delivers while commands, snapshots and the
  warmer go on: rounds may break off after any row, a mark may fail or be lost, rows may be sent
  again. The messages are the payloads \<open>internal/eventstore/store.go\<close> put into the outbox.
\<close>

section \<open>Messages\<close>

text \<open>What a step sends: the row at which the publisher stood, when it goes on to mark it.\<close>

definition message :: "pooled \<Rightarrow> pooled \<Rightarrow> outbox_row list" where
  "message s s' = (case (po_publishing s, po_publishing s') of
      (Some (Rows (r # rs)), Some (Marking q qs)) \<Rightarrow> [r] | _ \<Rightarrow> [])"

inductive delivering :: "nat \<Rightarrow> int \<Rightarrow> pooled \<Rightarrow> outbox_row list \<Rightarrow> bool" for N t where
  nothing_sent: "delivering N t (pool_initial t) []"
| goes_on: "delivering N t s sent \<Longrightarrow> pool_step N s s' \<Longrightarrow> delivering N t s' (sent @ message s s')"

text \<open>The specification: the message an event gives, and a list without the repeats of what it had before.\<close>

definition event_message :: "event_row \<Rightarrow> json" where
  "event_message r = JObj
     [(''event_id'', JInt (ev_id r)), (''aggregate_type'', JStr (ev_aggregate_type r)),
      (''aggregate_id'', JStr (ev_aggregate_id r)), (''event_type'', JStr (ev_event_type r)),
      (''version'', JInt (ev_version r)), (''payload'', ev_payload r)]"

definition firsts :: "'a list \<Rightarrow> 'a list" where
  "firsts xs = rev (remdups (rev xs))"

definition of_aggregate :: "string \<Rightarrow> string \<Rightarrow> outbox_row \<Rightarrow> bool" where
  "of_aggregate ty i b \<longleftrightarrow> ob_aggregate_type b = ty \<and> ob_aggregate_id b = i"

section \<open>First occurrences and prefixes\<close>

lemma firsts_Nil [simp]: "firsts [] = []"
  by (simp add: firsts_def)

lemma firsts_snoc [simp]: "firsts (xs @ [x]) = firsts xs @ (if x \<in> set xs then [] else [x])"
  by (simp add: firsts_def)

lemma set_firsts [simp]: "set (firsts xs) = set xs"
  by (simp add: firsts_def)

lemma distinct_firsts [simp]: "distinct (firsts xs)"
  by (simp add: firsts_def)

lemma firsts_filter: "firsts (filter P xs) = filter P (firsts xs)"
  by (induction xs rule: rev_induct) simp_all

lemma firsts_map: "inj_on f (set xs) \<Longrightarrow> firsts (map f xs) = map f (firsts xs)"
proof (induction xs rule: rev_induct)
  case (snoc x xs)
  then have "f x \<in> f ` set xs \<longleftrightarrow> x \<in> set xs" by (auto simp: inj_on_def)
  with snoc show ?case by (auto intro: inj_on_subset)
qed simp

lemma prefix_filter: "prefix xs ys \<Longrightarrow> prefix (filter P xs) (filter P ys)"
  by (auto simp: prefix_def)

text \<open>A part of a sorted list that holds all that is before it is a prefix.\<close>

lemma closed_prefix:
  assumes "sorted_wrt (\<lambda>a b. k a < (k b :: int)) xs" "sorted_wrt (\<lambda>a b. k a < k b) ys" "set xs \<subseteq> set ys"
    "\<forall>x \<in> set xs. \<forall>y \<in> set ys. k y < k x \<longrightarrow> y \<in> set xs"
  shows "prefix xs ys"
  using assms
proof (induction ys arbitrary: xs)
  case (Cons y ys)
  show ?case
  proof (cases xs)
    case (Cons x zs)
    have "x = y"
    proof (rule ccontr)
      assume "x \<noteq> y"
      then have "x \<in> set ys" using Cons.prems(3) Cons by auto
      then have "k y < k x" using Cons.prems(2) by simp
      then have "y \<in> set xs" using Cons.prems(4) Cons by simp
      then have "y \<in> set zs" using Cons \<open>x \<noteq> y\<close> by simp
      then show False using Cons.prems(1) Cons \<open>k y < k x\<close> by auto
    qed
    moreover have "prefix zs ys"
    proof (rule Cons.IH)
      show "sorted_wrt (\<lambda>a b. k a < k b) zs" "sorted_wrt (\<lambda>a b. k a < k b) ys" using Cons.prems Cons by simp_all
      have "y \<notin> set zs" using Cons.prems(1) Cons \<open>x = y\<close> by auto
      then show "set zs \<subseteq> set ys" using Cons.prems(3) Cons by auto
      have "y \<notin> set ys" using Cons.prems(2) by auto
      then show "\<forall>x \<in> set zs. \<forall>y \<in> set ys. k y < k x \<longrightarrow> y \<in> set zs"
        using Cons.prems(4) Cons \<open>x = y\<close> by auto
    qed
    ultimately show ?thesis using Cons by simp
  qed simp
qed simp

section \<open>The outbox\<close>

definition outbox_numbered :: "db \<Rightarrow> bool" where
  "outbox_numbered d \<longleftrightarrow> sorted_wrt (\<lambda>a b. ob_id a < ob_id b) (d_outbox d) \<and> (\<forall>b \<in> set (d_outbox d). ob_id b \<le> d_outbox_seq d)"

definition outbox_content :: "db \<Rightarrow> bool" where
  "outbox_content d \<longleftrightarrow> map (\<lambda>b. ((ob_aggregate_type b, ob_aggregate_id b), ob_payload b)) (d_outbox d) =
     map (\<lambda>r. ((ev_aggregate_type r, ev_aggregate_id r), event_message r)) (d_events d)"

lemma new_row_message:
  "event_message (new_event_row now i e) = outbox_payload (event_of now i e) (ae_Payload e)"
  "ev_aggregate_type (new_event_row now i e) = ae_AggregateType e" "ev_aggregate_id (new_event_row now i e) = ae_AggregateID e"
  "se_AggregateType (event_of now i e) = ae_AggregateType e" "se_AggregateID (event_of now i e) = ae_AggregateID e"
  by (simp_all add: event_message_def outbox_payload_def event_of_def new_event_row_def)

lemma store_append_outbox:
  assumes "store_append fl now e d = (r, d1)"
  shows "d_outbox_seq d \<le> d_outbox_seq d1"
    "r = Inr stored \<Longrightarrow> \<exists>b row. d_outbox d1 = d_outbox d @ [b] \<and> ob_id b = d_outbox_seq d1 \<and> d_outbox_seq d < ob_id b \<and>
      \<not> ob_published b \<and> d_events d1 = d_events d @ [row] \<and> ob_payload b = event_message row \<and>
      ob_aggregate_type b = ev_aggregate_type row \<and> ob_aggregate_id b = ev_aggregate_id row"
  using assms
  by (auto simp: store_append_def insert_outbox_def Let_def new_row_message split: if_splits option.splits)

lemma write_event_outbox_rows:
  assumes "service s" "write_event s fl now req v d = (res, d')" "outbox_numbered d" "outbox_content d"
  shows "outbox_numbered d' \<and> outbox_content d' \<and> (\<exists>new. d_outbox d' = d_outbox d @ new \<and> (\<forall>b \<in> set new. \<not> ob_published b))"
proof -
  note p = service_projector [OF assms(1)]
  obtain r1 d1 where a: "store_append fl now (next_event s req v) d = (r1, d1)" by (rule prod.exhaust)
  note seq = store_append_outbox(1) [OF a]
  show ?thesis
  proof (cases res)
    case (Inl x)
    have "d_outbox d' = d_outbox d \<and> d_events d' = d_events d"
      using tables_eqD [OF write_event_Inl] assms(2) Inl by blast
    moreover have "d_outbox_seq d \<le> d_outbox_seq d'"
    proof (cases r1)
      case (Inl y)
      then show ?thesis using assms(2) a seq by (auto simp: write_event_def)
    next
      case (Inr stored)
      obtain r2 d2 where b: "cs_projector s fl stored d1 = (r2, d2)" by (rule prod.exhaust)
      have "d_outbox_seq d2 = d_outbox_seq d1" using projector.seqs_unchanged [OF p b] by simp
      then show ?thesis using assms(2) a b Inr seq by (auto simp: write_event_def split: sum.splits if_splits)
    qed
    ultimately show ?thesis using assms(3,4) by (auto simp: outbox_numbered_def outbox_content_def)
  next
    case (Inr stored)
    obtain d2 where w: "store_append fl now (next_event s req v) d = (Inr stored, d2)" "cs_projector s fl stored d2 = (Inr (), d')"
      using projector.write_event_Inr [OF p refl assms(2) [unfolded Inr]] by metis
    from store_append_outbox(2) [OF w(1) refl] obtain b row where b: "d_outbox d2 = d_outbox d @ [b]"
      "ob_id b = d_outbox_seq d2" "d_outbox_seq d < ob_id b" "\<not> ob_published b" "d_events d2 = d_events d @ [row]"
      "ob_payload b = event_message row" "ob_aggregate_type b = ev_aggregate_type row" "ob_aggregate_id b = ev_aggregate_id row"
      by blast
    have "d_outbox d' = d_outbox d2" "d_events d' = d_events d2" "d_outbox_seq d' = d_outbox_seq d2"
      using projector.outbox_unchanged [OF p w(2)] projector.events_unchanged [OF p w(2)] projector.seqs_unchanged [OF p w(2)]
      by simp_all
    then show ?thesis
      using b assms(3,4) by (fastforce simp: outbox_numbered_def outbox_content_def sorted_wrt_append)
  qed
qed

section \<open>Steps of the pool are steps of the service\<close>

lemma sys_ok_db:
  assumes "sys_ok s" "db_ok d" "outbox_ok d" "read_model_ok d" "d_events d = d_events (sy_db s)"
  shows "sys_ok (s\<lparr>sy_db := d\<rparr>)"
  using assms by (auto simp: sys_ok_def version_read_def)

lemma only_snapshots_sys_ok: "sys_ok s \<Longrightarrow> only_snapshots (sy_db s) d \<Longrightarrow> sys_ok (s\<lparr>sy_db := d\<rparr>)"
  using only_snapshots_keeps [of "sy_db s" d] only_snapshots_db_ok [of "sy_db s" d]
  by (intro sys_ok_db) (auto simp: sys_ok_def only_snapshots_def)

lemma mark_published_sel [simp]:
  "d_events (mark_published i d) = d_events d" "d_event_seq (mark_published i d) = d_event_seq d"
  "d_outbox_seq (mark_published i d) = d_outbox_seq d" "d_users (mark_published i d) = d_users d"
  "d_products (mark_published i d) = d_products d" "d_orders (mark_published i d) = d_orders d"
  by (simp_all add: mark_published_def)

lemma mark_published_sys_ok: "sys_ok s \<Longrightarrow> sys_ok (s\<lparr>sy_db := mark_published i (sy_db s)\<rparr>)"
  using read_version_cong [of "mark_published i (sy_db s)" "sy_db s"]
  by (intro sys_ok_db)
    (auto simp: sys_ok_def db_ok_def outbox_ok_def read_model_ok_def mark_published_def comp_def if_distrib cong: if_cong)

lemma pool_step_sys_ok:
  assumes "pool_step N s s'" "sys_ok (po_sys s)"
  shows "sys_ok (po_sys s')"
  using assms(1)
proof (cases rule: pool_step.cases)
  case (time_passes t)
  then show ?thesis using sys_step_ok [OF assms(2) tick] by simp
next
  case (command_begins p svc req)
  then show ?thesis using sys_step_ok [OF assms(2) begin_tx, of p svc req] by (simp add: set_tx_def)
next
  case (command_reads p tx fl v)
  then show ?thesis using sys_step_ok [OF assms(2) read_version, of p tx fl v] by (simp add: set_tx_def)
next
  case (command_refused p tx fl r)
  then show ?thesis using sys_step_ok [OF assms(2) give_up, of p tx] by (simp add: set_tx_def)
next
  case (command_writes p tx v fl res d')
  then show ?thesis using sys_step_ok [OF assms(2) write_commit, of p tx v fl res d'] by (simp add: set_tx_def set_db_def)
next
  case (snapshot_saved fl ty i)
  then show ?thesis using only_snapshots_sys_ok [OF assms(2) snapshotOne_only] by (simp add: set_db_def)
next
  case (user_saved fl u)
  then show ?thesis using only_snapshots_sys_ok [OF assms(2) user_maybeSnapshot_only] by (simp add: set_db_def)
next
  case (publisher_marks r rs failed)
  then show ?thesis using mark_published_sys_ok [OF assms(2)] assms(2) by (simp add: set_db_def)
qed (use assms(2) in simp_all)

lemma delivering_sys_ok: "delivering N t s sent \<Longrightarrow> sys_ok (po_sys s)"
proof (induction rule: delivering.induct)
  case nothing_sent
  then show ?case using sys_ok_initial by (simp add: pool_initial_def)
next
  case (goes_on s sent s')
  then show ?case using pool_step_sys_ok by blast
qed

section \<open>What was sent so far\<close>

definition unmark :: "outbox_row \<Rightarrow> outbox_row" where
  "unmark b = b\<lparr>ob_published := False\<rparr>"

lemma unmark_sel [simp]: "ob_id (unmark b) = ob_id b" "ob_payload (unmark b) = ob_payload b"
  "ob_aggregate_type (unmark b) = ob_aggregate_type b" "ob_aggregate_id (unmark b) = ob_aggregate_id b"
  "\<not> ob_published b \<Longrightarrow> unmark b = b" "unmark (b\<lparr>ob_published := x\<rparr>) = unmark b"
  by (simp_all add: unmark_def)

definition sendable :: "db \<Rightarrow> outbox_row list" where
  "sendable d = map unmark (d_outbox d)"

abbreviation by_id :: "outbox_row list \<Rightarrow> bool" where
  "by_id \<equiv> sorted_wrt (\<lambda>a b. ob_id a < ob_id b)"

text \<open>Everything before a row that was sent was sent, and everything before a row of the open round was
  sent or comes before it in the round.\<close>

definition closed_under :: "outbox_row list \<Rightarrow> outbox_row set \<Rightarrow> outbox_row list \<Rightarrow> bool" where
  "closed_under all done rs \<longleftrightarrow> set rs \<subseteq> set all \<and>
     (\<forall>r \<in> set rs. \<forall>b \<in> set all. ob_id b < ob_id r \<longrightarrow> b \<in> done \<union> set rs)"

definition open_round :: "publishing option \<Rightarrow> outbox_row list" where
  "open_round p = (case p of None \<Rightarrow> [] | Some (Rows rs) \<Rightarrow> rs | Some (Marking r rs) \<Rightarrow> rs)"

lemma open_round_simps [simp]: "open_round None = []" "open_round (Some (Rows rs)) = rs" "open_round (Some (Marking r rs)) = rs"
  by (simp_all add: open_round_def)

definition delivery_ok :: "pooled \<Rightarrow> outbox_row list \<Rightarrow> bool" where
  "delivery_ok s sent \<longleftrightarrow> outbox_numbered (po_db s) \<and> outbox_content (po_db s) \<and>
     by_id (firsts sent) \<and> closed_under (sendable (po_db s)) {} sent \<and>
     (\<forall>b \<in> set (d_outbox (po_db s)). ob_published b \<longrightarrow> unmark b \<in> set sent) \<and>
     by_id (open_round (po_publishing s)) \<and> closed_under (sendable (po_db s)) (set sent) (open_round (po_publishing s)) \<and>
     (\<forall>r rs. po_publishing s = Some (Marking r rs) \<longrightarrow> r \<in> set sent)"

lemma delivery_ok_initial: "delivery_ok (pool_initial t) []"
  by (simp add: delivery_ok_def pool_initial_def initial_sys_def outbox_numbered_def outbox_content_def closed_under_def)

text \<open>New rows come after all others.\<close>

lemma closed_under_appended:
  assumes "closed_under all done rs" "by_id (all @ new)"
  shows "closed_under (all @ new) done rs"
proof -
  have "b \<notin> set new" if "r \<in> set rs" "ob_id b < ob_id r" for b r
    using that assms by (force simp: closed_under_def sorted_wrt_append)
  then show ?thesis using assms(1) by (auto simp: closed_under_def)
qed

lemma sendable_by_id: "outbox_numbered d \<Longrightarrow> by_id (sendable d)"
  by (simp add: outbox_numbered_def sendable_def sorted_wrt_map)

lemma delivery_ok_appends:
  assumes "delivery_ok s sent" "outbox_numbered (po_db s')" "outbox_content (po_db s')"
    "d_outbox (po_db s') = d_outbox (po_db s) @ new" "\<forall>b \<in> set new. \<not> ob_published b" "po_publishing s' = po_publishing s"
  shows "delivery_ok s' sent"
proof -
  have e: "sendable (po_db s') = sendable (po_db s) @ map unmark new" by (simp add: sendable_def assms(4))
  note c = closed_under_appended [OF _ sendable_by_id [OF assms(2), unfolded e]]
  show ?thesis
    using assms c by (auto simp: delivery_ok_def e)
qed

lemma delivery_ok_same_outbox:
  assumes "delivery_ok s sent" "d_outbox (po_db s') = d_outbox (po_db s)" "d_outbox_seq (po_db s') = d_outbox_seq (po_db s)"
    "d_events (po_db s') = d_events (po_db s)" "po_publishing s' = po_publishing s"
  shows "delivery_ok s' sent"
  using assms by (intro delivery_ok_appends [OF assms(1), of _ "[]"]) (auto simp: delivery_ok_def outbox_numbered_def outbox_content_def)

text \<open>The steps of the publisher.\<close>

lemma unpublished_by_id: "outbox_numbered d \<Longrightarrow> unpublished d = filter (\<lambda>b. \<not> ob_published b) (d_outbox d)"
proof -
  assume "outbox_numbered d"
  then have "sorted_wrt (\<lambda>a b. ob_id a < ob_id b) (filter (\<lambda>b. \<not> ob_published b) (d_outbox d))"
    by (simp add: outbox_numbered_def sorted_wrt_filter)
  then have "sorted (map ob_id (filter (\<lambda>b. \<not> ob_published b) (d_outbox d)))"
    unfolding sorted_map by (rule sorted_wrt_mono_rel [rotated]) simp
  then show ?thesis by (simp add: unpublished_def)
qed

lemma query_closed:
  assumes "outbox_numbered d" "\<forall>b \<in> set (d_outbox d). ob_published b \<longrightarrow> unmark b \<in> done"
  shows "by_id (take k (unpublished d)) \<and> closed_under (sendable d) done (take k (unpublished d))"
proof
  have s: "by_id (unpublished d)" using assms(1) unpublished_by_id [OF assms(1)] by (simp add: outbox_numbered_def sorted_wrt_filter)
  then show "by_id (take k (unpublished d))" by (rule sorted_wrt_take)
  have u: "set (unpublished d) = {b \<in> set (d_outbox d). \<not> ob_published b}" using unpublished_by_id [OF assms(1)] by auto
  show "closed_under (sendable d) done (take k (unpublished d))"
    unfolding closed_under_def
  proof (intro conjI ballI impI)
    show "set (take k (unpublished d)) \<subseteq> set (sendable d)"
      using u by (force simp: sendable_def dest: in_set_takeD)
    fix r b
    assume r: "r \<in> set (take k (unpublished d))" and b: "b \<in> set (sendable d)" "ob_id b < ob_id r"
    then obtain c where c: "c \<in> set (d_outbox d)" "b = unmark c" by (auto simp: sendable_def)
    show "b \<in> done \<union> set (take k (unpublished d))"
    proof (cases "ob_published c")
      case True
      then show ?thesis using assms(2) c by simp
    next
      case False
      then have "c \<in> set (unpublished d)" using c(1) u by simp
      moreover have "c \<notin> set (drop k (unpublished d))"
        using s r b(2) c(2) sorted_wrt_append [of "\<lambda>a b. ob_id a < ob_id b" "take k (unpublished d)" "drop k (unpublished d)"]
        by fastforce
      ultimately have "c \<in> set (take k (unpublished d))" by (metis UnE append_take_drop_id set_append)
      then show ?thesis using False c(2) by simp
    qed
  qed
qed

lemma send_closed:
  assumes "by_id (firsts sent)" "closed_under all {} sent" "by_id all" "by_id (r # rs)" "closed_under all (set sent) (r # rs)"
  shows "by_id (firsts (sent @ [r])) \<and> closed_under all {} (sent @ [r]) \<and> closed_under all (set (sent @ [r])) rs"
proof -
  have later: "\<not> ob_id x < ob_id r" if "x \<in> set rs" for x using assms(4) that by (simp add: less_imp_le linorder_not_less)
  have r: "r \<in> set all" "\<forall>b \<in> set all. ob_id b < ob_id r \<longrightarrow> b \<in> set sent"
    using assms(5) later by (auto simp: closed_under_def)
  have "ob_id b < ob_id r" if "b \<in> set sent" "r \<notin> set sent" for b
  proof -
    have b: "b \<in> set all" "ob_id r < ob_id b \<longrightarrow> r \<in> set sent" using assms(2) that r(1) by (auto simp: closed_under_def)
    moreover have "b = r" if "ob_id b = ob_id r"
    proof -
      have "distinct (map ob_id all)" using assms(3) by (induction all) auto
      then show ?thesis using b(1) r(1) that by (simp add: distinct_map inj_on_def)
    qed
    ultimately show ?thesis using that by (metis linorder_neqE)
  qed
  then have "by_id (firsts (sent @ [r]))" using assms(1) by (simp add: sorted_wrt_append)
  moreover have "closed_under all {} (sent @ [r])" using assms(2) r by (auto simp: closed_under_def)
  moreover have "closed_under all (set (sent @ [r])) rs" using assms(5) by (auto simp: closed_under_def)
  ultimately show ?thesis by simp
qed

lemma sendable_marked [simp]: "sendable (mark_published i d) = sendable d"
  by (simp add: sendable_def mark_published_def)

lemma mark_published_rows: "d_outbox (mark_published i d) = map (\<lambda>c. if ob_id c = i then c\<lparr>ob_published := True\<rparr> else c) (d_outbox d)"
  by (simp add: mark_published_def)

lemma mark_published_set: "b \<in> set (d_outbox (mark_published i d)) \<longleftrightarrow>
    (\<exists>c \<in> set (d_outbox d). b = (if ob_id c = i then c\<lparr>ob_published := True\<rparr> else c))"
  by (simp only: mark_published_rows set_map image_iff)

lemma marked_numbered [simp]: "outbox_numbered (mark_published i d) = outbox_numbered d" "outbox_content (mark_published i d) = outbox_content d"
proof -
  have "map ob_id (d_outbox (mark_published i d)) = map ob_id (d_outbox d)" by (simp add: mark_published_def)
  moreover have "outbox_numbered d \<longleftrightarrow> sorted_wrt (<) (map ob_id (d_outbox d)) \<and> (\<forall>k \<in> set (map ob_id (d_outbox d)). k \<le> d_outbox_seq d)" for d
    by (simp add: outbox_numbered_def sorted_wrt_map)
  ultimately show "outbox_numbered (mark_published i d) = outbox_numbered d" by (simp only: mark_published_sel)
  show "outbox_content (mark_published i d) = outbox_content d"
    by (simp add: outbox_content_def mark_published_def comp_def if_distrib cong: if_cong)
qed

lemma by_id_unique: "by_id all \<Longrightarrow> b \<in> set all \<Longrightarrow> c \<in> set all \<Longrightarrow> ob_id b = ob_id c \<Longrightarrow> b = c"
  by (induction all) auto

lemma by_id_distinct: "by_id all \<Longrightarrow> distinct all"
  by (induction all) auto

lemma mark_published_was_sent:
  assumes "delivery_ok s sent" "r \<in> set sent" "b \<in> set (d_outbox (mark_published (ob_id r) (po_db s)))" "ob_published b"
  shows "unmark b \<in> set sent"
proof -
  obtain c where c: "c \<in> set (d_outbox (po_db s))" "b = (if ob_id c = ob_id r then c\<lparr>ob_published := True\<rparr> else c)"
    using assms(3) unfolding mark_published_set by blast
  show ?thesis
  proof (cases "ob_id c = ob_id r")
    case True
    have "r \<in> set (sendable (po_db s))" "by_id (sendable (po_db s))"
      using assms(1,2) sendable_by_id by (auto simp: delivery_ok_def closed_under_def)
    moreover have "unmark c \<in> set (sendable (po_db s))" using c(1) by (simp add: sendable_def)
    ultimately have "unmark c = r" using by_id_unique True by simp
    then show ?thesis using c(2) True assms(2) by simp
  next
    case False
    then show ?thesis using assms(1,4) c by (simp add: delivery_ok_def)
  qed
qed

lemma snapshotOne_seq: "d_outbox_seq (snapshotOne fl now ty i d) = d_outbox_seq d"
  by (auto simp: snapshotOne_def Save_def Let_def split: sum.split option.split)

lemma user_maybeSnapshot_seq: "d_outbox_seq (user_maybeSnapshot fl now u d) = d_outbox_seq d"
  by (auto simp: user_maybeSnapshot_def Save_def Let_def split: option.split)

lemma pool_step_delivery_ok:
  assumes "delivery_ok s sent" "pool_step N s s'" "sys_ok (po_sys s)"
  shows "delivery_ok s' (sent @ message s s')"
  using assms(2)
proof (cases rule: pool_step.cases)
  case (command_writes p tx v fl res d')
  have svc: "service (tx_service tx)" using assms(3) command_writes(2) by (auto simp: sys_ok_def)
  have n: "outbox_numbered (po_db s)" "outbox_content (po_db s)" using assms(1) by (simp_all add: delivery_ok_def)
  from write_event_outbox_rows [OF svc command_writes(4) n] obtain new where new: "outbox_numbered d'" "outbox_content d'"
    "d_outbox d' = d_outbox (po_db s) @ new" "\<forall>b \<in> set new. \<not> ob_published b" by blast
  show ?thesis
    using delivery_ok_appends [OF assms(1), of s' new] new command_writes(1)
    by (simp add: message_def split: option.split publishing.split list.split)
next
  case (snapshot_saved fl ty i)
  then show ?thesis
    using delivery_ok_same_outbox [OF assms(1), of s'] snapshotOne_only [of "po_db s" fl "sy_clock (po_sys s)" ty i]
    by (simp add: message_def only_snapshots_def snapshotOne_seq split: option.split publishing.split list.split)
next
  case (user_saved fl u)
  then show ?thesis
    using delivery_ok_same_outbox [OF assms(1), of s'] user_maybeSnapshot_only [of "po_db s" fl "sy_clock (po_sys s)" u]
    by (simp add: message_def only_snapshots_def user_maybeSnapshot_seq split: option.split publishing.split list.split)
next
  case publisher_queries
  then show ?thesis
    using assms(1) query_closed [of "po_db s" "set sent" 100] by (simp add: delivery_ok_def message_def)
next
  case (publisher_sends r rs)
  then show ?thesis
    using assms(1) send_closed [of sent "sendable (po_db s)" r rs] sendable_by_id [of "po_db s"]
    by (auto simp: delivery_ok_def message_def)
next
  case (publisher_marks r rs failed)
  have r: "r \<in> set sent" using assms(1) publisher_marks(3) by (simp add: delivery_ok_def)
  show ?thesis
    using assms(1) publisher_marks mark_published_was_sent [OF assms(1) r] by (simp add: delivery_ok_def message_def)
next
  case (publisher_ends rs)
  then show ?thesis using assms(1) by (simp add: delivery_ok_def message_def closed_under_def split: list.split)
qed (use delivery_ok_same_outbox [OF assms(1), of s'] in
     \<open>simp add: message_def split: option.split publishing.split list.split\<close>)+

lemma delivering_ok: "delivering N t s sent \<Longrightarrow> delivery_ok s sent"
proof (induction rule: delivering.induct)
  case nothing_sent
  then show ?case by (rule delivery_ok_initial)
next
  case (goes_on s sent s')
  then show ?case using pool_step_delivery_ok delivering_sys_ok by blast
qed

section \<open>What was sent, by aggregate\<close>

lemma map_filter_pairs:
  assumes "map (\<lambda>x. (k x, f x)) xs = map (\<lambda>y. (k' y, g y)) ys"
  shows "map f (filter (\<lambda>x. P (k x)) xs) = map g (filter (\<lambda>y. P (k' y)) ys)"
proof -
  have e: "map snd (filter (P \<circ> fst) (map (\<lambda>x. (h x, p x)) zs)) = map p (filter (\<lambda>x. P (h x)) zs)" for h p and zs :: "'z list"
    by (induction zs) simp_all
  show ?thesis by (simp only: e [symmetric] assms)
qed

lemma sendable_messages:
  assumes "outbox_content d"
  shows "map ob_payload (filter (of_aggregate ty i) (sendable d)) = map event_message (aggregate_rows ty i (d_events d))"
proof -
  have f: "of_aggregate ty i = (\<lambda>b. ob_aggregate_type b = ty \<and> ob_aggregate_id b = i)" by (simp add: fun_eq_iff of_aggregate_def)
  have "map ob_payload (filter (of_aggregate ty i) (sendable d)) = map ob_payload (filter (of_aggregate ty i) (d_outbox d))"
    by (simp add: sendable_def filter_map comp_def f)
  also have "\<dots> = map event_message (aggregate_rows ty i (d_events d))"
    using map_filter_pairs [OF assms [unfolded outbox_content_def], of "\<lambda>a. fst a = ty \<and> snd a = i"]
    by (simp add: f aggregate_rows_def)
  finally show ?thesis .
qed

lemma messages_distinct:
  assumes "outbox_content d" "db_ok d"
  shows "inj_on ob_payload (set (sendable d))"
proof -
  have "map ob_payload (sendable d) = map event_message (d_events d)"
    using map_filter_pairs [OF assms(1) [unfolded outbox_content_def], of "\<lambda>_. True"] by (simp add: sendable_def comp_def)
  moreover have "distinct (map ev_id (d_events d))"
    using assms(2) by (simp add: db_ok_def log_ok_def)
  then have "distinct (map event_message (d_events d))"
    by (auto simp: distinct_map inj_on_def event_message_def)
  ultimately show ?thesis by (metis distinct_map)
qed

lemma firsts_sent:
  assumes "delivery_ok s sent"
  shows "prefix (firsts sent) (sendable (po_db s))" "set (sendable (po_db s)) = set sent \<union> set (map unmark (unpublished (po_db s)))"
proof -
  have ok: "by_id (firsts sent)" "closed_under (sendable (po_db s)) {} sent" "outbox_numbered (po_db s)"
    "\<forall>b \<in> set (d_outbox (po_db s)). ob_published b \<longrightarrow> unmark b \<in> set sent"
    using assms by (simp_all add: delivery_ok_def)
  show "prefix (firsts sent) (sendable (po_db s))"
    using closed_prefix [OF ok(1) sendable_by_id [OF ok(3)]] ok(2) by (simp add: closed_under_def)
  show "set (sendable (po_db s)) = set sent \<union> set (map unmark (unpublished (po_db s)))"
    using ok(2,4) unpublished_by_id [OF ok(3)] by (auto simp: closed_under_def sendable_def) (metis imageI unmark_sel(5))
qed

lemma delivered_prefix:
  assumes "delivering N t s sent"
  shows "prefix (firsts (map ob_payload (filter (of_aggregate ty i) sent))) (map event_message (aggregate_rows ty i (d_events (po_db s))))"
    "unpublished (po_db s) = [] \<Longrightarrow>
      firsts (map ob_payload (filter (of_aggregate ty i) sent)) = map event_message (aggregate_rows ty i (d_events (po_db s)))"
proof -
  note ok = delivering_ok [OF assms]
  have c: "outbox_content (po_db s)" "outbox_numbered (po_db s)" "set sent \<subseteq> set (sendable (po_db s))"
    using ok by (simp_all add: delivery_ok_def closed_under_def)
  have "db_ok (po_db s)" using delivering_sys_ok [OF assms] by (simp add: sys_ok_def)
  then have "inj_on ob_payload (set (filter (of_aggregate ty i) sent))"
    using messages_distinct [OF c(1)] c(3) by (auto intro: inj_on_subset)
  then have f: "firsts (map ob_payload (filter (of_aggregate ty i) sent)) = map ob_payload (filter (of_aggregate ty i) (firsts sent))"
    by (simp add: firsts_map firsts_filter)
  show "prefix (firsts (map ob_payload (filter (of_aggregate ty i) sent))) (map event_message (aggregate_rows ty i (d_events (po_db s))))"
    unfolding f sendable_messages [OF c(1), symmetric]
    by (rule map_mono_prefix) (rule prefix_filter [OF firsts_sent(1) [OF ok]])
  assume "unpublished (po_db s) = []"
  then have "set (firsts sent) = set (sendable (po_db s))" using firsts_sent(2) [OF ok] by simp
  moreover have "distinct (sendable (po_db s))" using by_id_distinct [OF sendable_by_id [OF c(2)]] by simp
  moreover have "length (firsts sent) = card (set (firsts sent))" by (simp add: distinct_card [symmetric] del: set_firsts)
  ultimately have "firsts sent = sendable (po_db s)"
    using firsts_sent(1) [OF ok] distinct_card [of "sendable (po_db s)"] by (auto simp: prefix_def)
  then show "firsts (map ob_payload (filter (of_aggregate ty i) sent)) = map event_message (aggregate_rows ty i (d_events (po_db s)))"
    unfolding f sendable_messages [OF c(1), symmetric] by simp
qed

text \<open>A run: the creation of a user, whose message is sent twice because the first mark is lost.\<close>

lemma quiet_step: "delivering N t s sent \<Longrightarrow> pool_step N s s' \<Longrightarrow> message s s' = [] \<Longrightarrow> delivering N t s' sent"
  using goes_on by fastforce

lemma sending_round:
  assumes "delivering N t s sent" "Suc (busy s) < N" "po_publishing s = None" "unpublished (po_db s) = [r]"
    "d' = (if failed then po_db s else mark_published (ob_id r) (po_db s))"
  shows "delivering N t (set_db s d') (sent @ [r])"
proof -
  have b: "busy (s\<lparr>po_publishing := Some (Marking r [])\<rparr>) = Suc (busy s)" using assms(3) by (simp add: busy_def)
  have "delivering N t (s\<lparr>po_publishing := Some (Rows [r])\<rparr>) sent"
    using quiet_step [OF assms(1) publisher_queries [OF Suc_lessD [OF assms(2)] assms(3)]] assms(3,4) by (simp add: message_def)
  then have "delivering N t (s\<lparr>po_publishing := Some (Marking r [])\<rparr>) (sent @ [r])"
    using goes_on [OF _ publisher_sends, of N t "s\<lparr>po_publishing := Some (Rows [r])\<rparr>" sent r "[]"] by (simp add: message_def)
  then have "delivering N t (set_db (s\<lparr>po_publishing := Some (Rows [])\<rparr>) d') (sent @ [r])"
    using quiet_step [OF _ publisher_marks [of "s\<lparr>po_publishing := Some (Marking r [])\<rparr>" N r "[]" failed]] assms(2) b assms(5)
    by (cases failed) (simp_all add: message_def)
  moreover have "set_db (s\<lparr>po_publishing := Some (Rows [])\<rparr>) d'\<lparr>po_publishing := None\<rparr> = set_db s d'"
    using assms(3) by (cases s) (simp add: set_db_def)
  ultimately show ?thesis
    using quiet_step [OF _ publisher_ends [of "set_db (s\<lparr>po_publishing := Some (Rows [])\<rparr>) d'" "[]" N]] by (simp add: message_def)
qed

lemma user_created_run: "\<exists>s. delivering 4 0 s [] \<and> po_db s = race_db \<and> po_publishing s = None \<and> busy s = 0"
proof -
  let ?i = "pool_initial 0"
  let ?m = "Map.empty(0::nat \<mapsto> run_tx run_create 0 None)"
  let ?k = "?m(0 \<mapsto> (run_tx run_create 0 None)\<lparr>tx_current := Some 0\<rparr>)"
  have "pool_step 4 ?i (set_tx ?i ((po_tx ?i)(0 \<mapsto> \<lparr>tx_service = userCmds 50, tx_request = run_create, tx_start = sy_clock (po_sys ?i), tx_current = None\<rparr>)))"
    by (rule command_begins) (simp_all add: busy_def pool_initial_def initial_sys_def)
  then have "pool_step 4 ?i (set_tx ?i ?m)" by (simp add: pool_initial_def initial_sys_def run_tx_def)
  then have a: "delivering 4 0 (set_tx ?i ?m) []"
    by (rule quiet_step [OF nothing_sent]) (simp add: message_def pool_initial_def)
  have "pool_step 4 (set_tx ?i ?m) (set_tx (set_tx ?i ?m) ((po_tx (set_tx ?i ?m))(0 \<mapsto> (run_tx run_create 0 None)\<lparr>tx_current := Some 0\<rparr>)))"
    by (rule command_reads [where fl = no_faults]) (use run_reads in \<open>simp_all add: busy_def pool_initial_def initial_sys_def run_tx_def\<close>)
  then have b: "delivering 4 0 (set_tx ?i ?k) []"
    by (intro quiet_step [OF a]) (simp_all add: message_def pool_initial_def set_tx_def)
  have w: "write_event (userCmds 50) no_faults 0 run_create 0 empty_db = (fst (write_event (userCmds 50) no_faults 0 run_create 0 empty_db), race_db)"
    by (simp add: race_db_def)
  have "pool_step 4 (set_tx ?i ?k) (set_tx (set_db (set_tx ?i ?k) race_db) ((po_tx (set_tx ?i ?k))(0 := None)))"
    by (rule command_writes [where tx = "run_tx run_create 0 (Some 0)" and v = 0 and fl = no_faults, OF _ _ w [THEN trans [rotated]]])
      (simp_all add: run_tx_def pool_initial_def initial_sys_def)
  then have "delivering 4 0 (set_tx (set_db (set_tx ?i ?k) race_db) ((po_tx (set_tx ?i ?k))(0 := None))) []"
    by (rule quiet_step [OF b]) (simp add: message_def pool_initial_def)
  then show ?thesis
    by (intro exI [of _ "set_tx (set_db (set_tx ?i ?k) race_db) ((po_tx (set_tx ?i ?k))(0 := None))"])
      (simp add: busy_def pool_initial_def)
qed

lemma race_outbox: "unpublished race_db = d_outbox race_db" "length (d_outbox race_db) = 1"
  "unpublished (mark_published 1 race_db) = []" "map ob_id (d_outbox race_db) = [1]" "length (aggregate_rows AggregateUser ''u1'' (d_events race_db)) = 1"
  by (code_simp, code_simp, code_simp, code_simp, code_simp)

section \<open>Properties\<close>

text \<open>C14: whatever commands, snapshots, lost marks and rounds broken off happen, what was sent about an
  aggregate, each message at its first time, is the beginning of the history of the aggregate, one message for
  each of its events in the order of their versions; and once no row of the outbox is unpublished it is the
  whole history. The order of messages about different aggregates is not part of it (transactions that write
  at the same time may get their outbox numbers in one order and end in the other).\<close>

theorem delivered_in_order:
  assumes "delivering N t s sent"
  shows "let seen = firsts (map ob_payload (filter (of_aggregate ty i) sent));
           history = map event_message (aggregate_rows ty i (d_events (po_db s)))
         in prefix seen history \<and> (unpublished (po_db s) = [] \<longrightarrow> seen = history) \<and>
            versions_from_1 (aggregate_rows ty i (d_events (po_db s)))"
  using delivered_prefix [OF assms] delivering_sys_ok [OF assms] by (simp add: sys_ok_def db_ok_def log_ok_def)

lemma delivered_in_order_witness:
  "\<exists>s r. delivering 4 0 s [r, r] \<and> length (aggregate_rows AggregateUser ''u1'' (d_events (po_db s))) = 1 \<and>
     firsts (map ob_payload (filter (of_aggregate AggregateUser ''u1'') [r, r])) =
       map event_message (aggregate_rows AggregateUser ''u1'' (d_events (po_db s)))"
proof -
  obtain s where s: "delivering 4 0 s []" "po_db s = race_db" "po_publishing s = None" "busy s = 0"
    using user_created_run by blast
  obtain r where r: "d_outbox race_db = [r]" using race_outbox(2) by (auto simp: length_Suc_conv)
  then have i: "ob_id r = 1" using race_outbox(4) by simp
  have b: "busy (set_db s d) = busy s" for d by (simp add: busy_def)
  have "delivering 4 0 (set_db s race_db) [r]"
    using sending_round [OF s(1), of r _ True] s r race_outbox(1) by simp
  then have "delivering 4 0 (set_db (set_db s race_db) (mark_published 1 race_db)) [r, r]"
    using sending_round [of 4 0 "set_db s race_db" "[r]" r "mark_published 1 race_db" False] s r i race_outbox(1) b by simp
  from delivered_in_order [OF this, of AggregateUser "''u1''"] this show ?thesis
    using race_outbox(3,5) by (intro exI [of _ "set_db (set_db s race_db) (mark_published 1 race_db)"] exI [of _ r]) (simp add: Let_def)
qed

end
