(* ===== verification/Sound_Replays.thy ===== *)
theory Sound_Replays
  imports System
begin

text \<open>
  When the answers of the replay engine are those of the log in the running service, with nothing
  assumed about the snapshots: for products and orders always, for users as long as only the builder of
  \<open>internal/worker/outbox.go\<close> writes snapshots and not the goroutine of \<open>internal/user/service.go\<close>,
  or as long as what it saved holds the state its version says (\<open>users_good\<close>). Also what a replay at a
  time answers, and that rounds of the builder change no replay by version or of the present.
\<close>

section \<open>The specification\<close>

text \<open>Replays at a version and of the present are the folds of the log, timestamps as instants.\<close>

definition answers_from_log :: "'a aggregate_ops \<Rightarrow> ('a \<Rightarrow> 'a) \<Rightarrow> string \<Rightarrow>
    (faults \<Rightarrow> db \<Rightarrow> string \<Rightarrow> replay_query \<Rightarrow> 'a result) \<Rightarrow> db \<Rightarrow> bool" where
  "answers_from_log A utc ty replay d \<longleftrightarrow> (\<forall>fl i v. \<not> fl CallLoadEvents \<and> \<not> fl CallLatestSnapshot \<longrightarrow>
     map_sum id utc (replay fl d i (at_version v)) = map_sum id utc (fold_state A i (take (nat v) (aggregate_events ty i (d_events d)))) \<and>
     map_sum id utc (replay fl d i empty_query) = map_sum id utc (fold_state A i (aggregate_events ty i (d_events d))))"

text \<open>Runs in which snapshots change by rounds of the builder only.\<close>

inductive without_user_jobs :: "int \<Rightarrow> sys \<Rightarrow> bool" for t where
  fresh: "without_user_jobs t (initial_sys t)"
| elsewhere: "without_user_jobs t s \<Longrightarrow> sys_step s s' \<Longrightarrow> d_snapshots (sy_db s') = d_snapshots (sy_db s) \<Longrightarrow>
    without_user_jobs t s'"
| built: "without_user_jobs t s \<Longrightarrow> without_user_jobs t (s\<lparr>sy_db := buildSnapshots plan fl (sy_clock s) (sy_db s)\<rparr>)"

lemma without_user_jobs_reachable: "without_user_jobs t s \<Longrightarrow> reachable t s"
  by (induction rule: without_user_jobs.induct) (auto intro: reachable.intros sys_step.snapshots)

text \<open>A service that snapshots every zero events starts no such goroutine.\<close>

lemma no_job_started: "n \<le> 0 \<Longrightarrow> snd (fst (user_append n fl now i expected ty payload meta d)) = None"
  by (auto simp: user_append_def Let_def split: prod.splits sum.splits)

context aggregate
begin

lemma good_answers:
  "db_ok d \<Longrightarrow> good_snapshots A marshal ty d \<Longrightarrow>
     answers_from_log A norm ty (\<lambda>fl d i q. engine_replay A fl d ty i q) d"
  unfolding answers_from_log_def
  by (intro allI impI conjI engine_replay_at_version)
    (auto simp: engine_replay_general [where q = empty_query])

end

section \<open>Steps keep snapshots good\<close>

lemma good_snapshots_log: "good_snapshots A m ty d \<Longrightarrow> d_snapshots d' = d_snapshots d \<Longrightarrow> log_extends d d' \<Longrightarrow> good_snapshots A m ty d'"
  using good_snapshots_append by (auto simp: log_extends_def)

lemma write_event_snapshots:
  assumes "service s" "write_event s fl now req v d = (res, d')" "db_ok d" "version_read s req v d"
  shows "d_snapshots d' = d_snapshots d"
proof (cases res)
  case (Inl x)
  then show ?thesis using tables_eqD [OF write_event_Inl] assms(2) by blast
next
  case (Inr stored)
  then show ?thesis using projector.write_event_appends(5) [OF service_projector [OF assms(1)] refl _ assms(3,4)] assms(2) by blast
qed

lemma sys_step_good:
  assumes "sys_ok s" "sys_step s s'" "good_snapshots A m ty (sy_db s)"
    and one: "\<And>fl now ty' i d. db_ok d \<Longrightarrow> good_snapshots A m ty d \<Longrightarrow> good_snapshots A m ty (snapshotOne fl now ty' i d)"
    and job: "\<And>fl now u d. good_snapshots A m ty d \<Longrightarrow> good_snapshots A m ty (user_maybeSnapshot fl now u d)"
  shows "good_snapshots A m ty (sy_db s')"
  using assms(2)
proof (cases rule: sys_step.cases)
  case (write_commit p tx v fl res d')
  then have "d_snapshots d' = d_snapshots (sy_db s)"
    using assms(1) by (intro write_event_snapshots [of "tx_service tx"]) (auto simp: sys_ok_def)
  then show ?thesis using good_snapshots_log [OF assms(3)] sys_step_log_extends [OF assms(1,2)] write_commit(1) by simp
next
  case (snapshots plan fl)
  then show ?thesis
    using buildSnapshots_keeps [of "good_snapshots A m ty", OF one] assms(1,3) by (simp add: sys_ok_def)
next
  case (user_job fl u)
  then show ?thesis using job [OF assms(3)] by simp
next
  case (publish connected fails fl sent d')
  from publish(2) have "d' = (sy_db s)\<lparr>d_outbox := d_outbox d'\<rparr>"
    by (cases rule: publishBatch_cases) (auto dest: publish_rows_frame)
  then have "d_snapshots d' = d_snapshots (sy_db s)" by (metis db.select_convs(5) db.surjective db.update_convs(3))
  then show ?thesis using good_snapshots_log [OF assms(3)] sys_step_log_extends [OF assms(1,2)] publish(1) by simp
qed (use assms(3) in simp_all)

lemma user_job_other:
  assumes "good_snapshots A m ty d" "ty \<noteq> AggregateUser"
  shows "good_snapshots A m ty (user_maybeSnapshot fl now u d)"
proof (cases "user_MarshalSnapshot u")
  case (Some st)
  let ?d = "snd (Save fl now AggregateUser (u_ID u) (u_Version u) (Some st) d)"
  have saved: "Save fl now AggregateUser (u_ID u) (u_Version u) (Some st) d = (fst (Save fl now AggregateUser (u_ID u) (u_Version u) (Some st) d), ?d)"
    by simp
  have "r \<in> set (d_snapshots d)" if "r \<in> set (d_snapshots ?d)" "ss_aggregate_type r = ty" for r
    using Save_rows [OF saved that(1)] that(2) assms(2) by auto
  moreover have "d_events ?d = d_events d" using Save_others [OF saved] by simp
  ultimately have "good_snapshots A m ty ?d" using assms(1) by (auto simp: good_snapshots_def list_all_iff)
  then show ?thesis by (simp add: user_maybeSnapshot_def Some)
qed (simp add: user_maybeSnapshot_def assms(1))

lemma good_initial: "good_snapshots A m ty (sy_db (initial_sys t))"
  by (simp add: good_snapshots_def initial_sys_def)

lemma reachable_good:
  assumes "reachable t s"
  shows "good_snapshots productAgg product_MarshalSnapshot AggregateProduct (sy_db s) \<and>
    good_snapshots orderAgg order_MarshalSnapshot AggregateOrder (sy_db s)"
  using assms
proof (induction rule: reachable.induct)
  case start
  then show ?case by (simp add: good_initial)
next
  case (more s s')
  note step = sys_step_good [OF reachable_ok [OF more.hyps(1)] more.hyps(2)]
  have "AggregateProduct \<noteq> AggregateUser" "AggregateOrder \<noteq> AggregateUser" by simp_all
  then show ?case
    using more.IH step [OF _ snapshotOne_product_good user_job_other] step [OF _ snapshotOne_order_good user_job_other] by simp
qed

lemma without_user_jobs_good:
  "without_user_jobs t s \<Longrightarrow> good_snapshots userAgg user_MarshalSnapshot AggregateUser (sy_db s)"
proof (induction rule: without_user_jobs.induct)
  case fresh
  then show ?case by (rule good_initial)
next
  case (elsewhere s s')
  then show ?case
    using good_snapshots_log sys_step_log_extends reachable_ok [OF without_user_jobs_reachable] by blast
next
  case (built s plan fl)
  then show ?case
    using buildSnapshots_keeps [of "good_snapshots userAgg user_MarshalSnapshot AggregateUser", OF snapshotOne_user_good]
      reachable_ok [OF without_user_jobs_reachable [OF built.hyps]] by (simp add: sys_ok_def)
qed

text \<open>A run: a user is created and the builder makes its snapshot.\<close>

lemma built_run: "without_user_jobs 0 \<lparr>sy_db = race_db, sy_clock = 0, sy_tx = Map.empty\<rparr>"
proof -
  have db: "d_snapshots race_db = []" by code_simp
  let ?a = "\<lparr>sy_db = empty_db, sy_clock = 0, sy_tx = Map.empty(0 \<mapsto> run_tx run_create 0 None)\<rparr>"
  let ?b = "\<lparr>sy_db = empty_db, sy_clock = 0, sy_tx = Map.empty(0 \<mapsto> run_tx run_create 0 (Some 0))\<rparr>"
  have "sys_step (initial_sys 0) ?a"
    using begin_tx [of "initial_sys 0" 0 "userCmds 50" run_create] by (simp add: initial_sys_def run_tx_def)
  then have "without_user_jobs 0 ?a" by (rule elsewhere [OF fresh]) (simp add: initial_sys_def)
  moreover have "sys_step ?a ?b"
    using read_version [of ?a 0 "run_tx run_create 0 None" no_faults 0] run_reads by (simp add: run_tx_def)
  ultimately have "without_user_jobs 0 ?b" by (rule elsewhere) simp
  moreover have "sys_step ?b \<lparr>sy_db = race_db, sy_clock = 0, sy_tx = Map.empty\<rparr>"
    using write_commit [of ?b 0 "run_tx run_create 0 (Some 0)" 0 no_faults "fst (write_event (userCmds 50) no_faults 0 run_create 0 empty_db)" race_db]
    by (simp add: run_tx_def race_db_def)
  ultimately show ?thesis by (rule elsewhere) (simp add: db)
qed

lemma reachable_sound:
  assumes "reachable t s"
  shows "db_ok (sy_db s)" "products_good (sy_db s)" "orders_good (sy_db s)"
  using reachable_good [OF assms] reachable_ok [OF assms] by (simp_all add: good_defs sys_ok_def)

text \<open>Rounds of the builder keep what replays answer, type by type.\<close>

lemma snapshotOne_keeps_good:
  "db_ok d \<Longrightarrow> users_good d \<Longrightarrow> users_good (snapshotOne fl now ty i d)"
  "db_ok d \<Longrightarrow> products_good d \<Longrightarrow> products_good (snapshotOne fl now ty i d)"
  "db_ok d \<Longrightarrow> orders_good d \<Longrightarrow> orders_good (snapshotOne fl now ty i d)"
  by (simp_all add: good_defs snapshotOne_good)

lemma builder_keeps_good:
  assumes "db_ok d"
  shows "users_good d \<Longrightarrow> users_good (SnapshotBuilder_Run sigs d)"
    "products_good d \<Longrightarrow> products_good (SnapshotBuilder_Run sigs d)"
    "orders_good d \<Longrightarrow> orders_good (SnapshotBuilder_Run sigs d)"
  using SnapshotBuilder_Run_keeps [of users_good d sigs] SnapshotBuilder_Run_keeps [of products_good d sigs]
    SnapshotBuilder_Run_keeps [of orders_good d sigs] snapshotOne_keeps_good assms by simp_all

lemma builder_only: "db_ok d \<Longrightarrow> only_snapshots d (SnapshotBuilder_Run sigs d)"
  using SnapshotBuilder_Run_keeps [of "\<lambda>_. True" d sigs] by simp

lemma replays_same_log:
  assumes "db_ok d" "db_ok d'" "d_events d' = d_events d" "q = at_version v \<or> q = empty_query"
  shows "users_good d \<Longrightarrow> users_good d' \<Longrightarrow>
      map_sum id user_utc (ReplayUser no_faults d' i q) = map_sum id user_utc (ReplayUser no_faults d i q)"
    "products_good d \<Longrightarrow> products_good d' \<Longrightarrow>
      map_sum id product_utc (ReplayProduct no_faults d' i q) = map_sum id product_utc (ReplayProduct no_faults d i q)"
    "orders_good d \<Longrightarrow> orders_good d' \<Longrightarrow>
      map_sum id order_utc (ReplayOrder no_faults d' i q) = map_sum id order_utc (ReplayOrder no_faults d i q)"
  using assms
    user_agg.good_answers [OF assms(1)] user_agg.good_answers [OF assms(2)]
    product_agg.good_answers [OF assms(1)] product_agg.good_answers [OF assms(2)]
    order_agg.good_answers [OF assms(1)] order_agg.good_answers [OF assms(2)]
  unfolding good_defs Replay_defs [abs_def] answers_from_log_def by auto

lemma late_snapshots: "d_snapshots late_db = []"
  by code_simp

section \<open>Properties\<close>

text \<open>C2: in every state the service can reach, replays of products and orders at a version and of the present
  answer with the fold of the log, whatever the builder, the publisher and the interleaved commands did. The
  same holds for users while only the builder writes snapshots, so when the user service starts no goroutine.\<close>

theorem replays_sound:
  assumes "reachable t s"
  shows "answers_from_log productAgg product_utc AggregateProduct ReplayProduct (sy_db s) \<and>
    answers_from_log orderAgg order_utc AggregateOrder ReplayOrder (sy_db s) \<and>
    (without_user_jobs t s \<longrightarrow> answers_from_log userAgg user_utc AggregateUser ReplayUser (sy_db s))"
proof -
  have ok: "db_ok (sy_db s)" using reachable_ok [OF assms] by (simp add: sys_ok_def)
  note r = Replay_defs [abs_def]
  show ?thesis
    unfolding r using reachable_good [OF assms] without_user_jobs_good [of t s] ok
      user_agg.good_answers product_agg.good_answers order_agg.good_answers by blast
qed

lemma replays_sound_witness:
  "\<exists>s. without_user_jobs 0 s \<and> length (d_snapshots (sy_db s)) = 1 \<and>
     map_sum id user_utc (ReplayUser no_faults (sy_db s) ''u1'' (at_version 1)) =
       map_sum id user_utc (fold_state userAgg ''u1'' (take 1 (aggregate_events AggregateUser ''u1'' (d_events (sy_db s)))))"
proof -
  let ?s = "\<lparr>sy_db = race_db, sy_clock = 0, sy_tx = Map.empty\<rparr>"
  have w: "without_user_jobs 0 (?s\<lparr>sy_db := buildSnapshots id no_faults (sy_clock ?s) (sy_db ?s)\<rparr>)"
    by (rule built [OF built_run])
  moreover have "length (d_snapshots (buildSnapshots id no_faults 0 race_db)) = 1" by code_simp
  ultimately show ?thesis
    using replays_sound [OF without_user_jobs_reachable [OF w]]
    by (intro exI [of _ "?s\<lparr>sy_db := buildSnapshots id no_faults (sy_clock ?s) (sy_db ?s)\<rparr>"]) (simp add: answers_from_log_def)
qed

text \<open>C36: a replay at a time gives, in every state the service can reach, for products and orders the fold of
  the events of the latest snapshot, whenever they were stored, and of the later ones stored by that
  time; the same for users as long as their snapshots hold the states their versions say, which can end
  when the user service saves one of its read model; all while the database answers. Those events are
  the ones stored by then exactly when those of the snapshot were (so when there is no snapshot);
  otherwise the state has changes of after the time asked for.\<close>

theorem replay_at_time:
  assumes "reachable t s" "\<not> fl CallLoadEvents" "\<not> fl CallLatestSnapshot"
  shows "map_sum id product_utc (ReplayProduct fl (sy_db s) i (at_time at)) =
      map_sum id product_utc (fold_state productAgg i (applied_at (sy_db s) AggregateProduct i at)) \<and>
    map_sum id order_utc (ReplayOrder fl (sy_db s) i (at_time at)) =
      map_sum id order_utc (fold_state orderAgg i (applied_at (sy_db s) AggregateOrder i at)) \<and>
    (users_good (sy_db s) \<longrightarrow> map_sum id user_utc (ReplayUser fl (sy_db s) i (at_time at)) =
      map_sum id user_utc (fold_state userAgg i (applied_at (sy_db s) AggregateUser i at))) \<and>
    (\<forall>ty. list_all (stored_by at) (take (snapshot_version (sy_db s) ty i) (aggregate_events ty i (d_events (sy_db s)))) \<longleftrightarrow>
      applied_at (sy_db s) ty i at = filter (stored_by at) (aggregate_events ty i (d_events (sy_db s))))"
  using replay_time_fold [OF reachable_sound(1) [OF assms(1)] assms(2,3)] reachable_sound(2,3) [OF assms(1)] applied_at_iff
  by blast

lemma late_built: "snapshot_version (buildSnapshots id no_faults now late_db) AggregateUser ''u1'' = 2"
  by code_simp

lemma late_users_good: "users_good late_db"
  by (simp add: users_good_def good_snapshots_def late_snapshots)

lemma replay_at_time_witness:
  "\<exists>now. map_sum id (\<lambda>u. (u_Name u, u_Version u)) (ReplayUser no_faults late_db ''u1'' (at_time (GoTime 5000000000 UTC))) = Inr (''Bob'', 2) \<and>
     map_sum id user_utc (ReplayUser no_faults (buildSnapshots id no_faults now late_db) ''u1'' (at_time (GoTime 5000000000 UTC))) =
       map_sum id user_utc (fold_state userAgg ''u1'' (aggregate_events AggregateUser ''u1'' (d_events late_db))) \<and>
     map_sum id user_utc (ReplayUser no_faults late_db ''u1'' (at_time (GoTime 5000000000 UTC))) =
       map_sum id user_utc (fold_state userAgg ''u1'' (filter (stored_by (GoTime 5000000000 UTC)) (aggregate_events AggregateUser ''u1'' (d_events late_db))))"
proof -
  obtain s where s: "reachable 0 s" "sy_db s = late_db" using late_reachable by blast
  let ?d = "buildSnapshots id no_faults (sy_clock s) late_db"
  have r: "reachable 0 (s\<lparr>sy_db := ?d\<rparr>)" using more [OF s(1) sys_step.snapshots [of s id no_faults]] s(2) by simp
  have ok: "db_ok late_db" using reachable_sound(1) [OF s(1)] s(2) by simp
  have good: "users_good ?d" "d_events ?d = d_events late_db"
    using buildSnapshots_keeps [of users_good no_faults "sy_clock s" late_db id] snapshotOne_keeps_good(1) late_users_good ok
    by (simp_all add: only_snapshots_def)
  have n: "length (aggregate_events AggregateUser ''u1'' (d_events late_db)) = 2" by code_simp
  have "map_sum id (\<lambda>u. (u_Name u, u_Version u)) (ReplayUser no_faults late_db ''u1'' (at_time (GoTime 5000000000 UTC))) = Inr (''Bob'', 2)"
    by code_simp
  moreover have "applied_at ?d AggregateUser ''u1'' at = aggregate_events AggregateUser ''u1'' (d_events late_db)" for at
    using n by (simp add: applied_at_def late_built good(2) Let_def)
  moreover have "snapshot_version late_db AggregateUser ''u1'' = 0" by code_simp
  ultimately show ?thesis
    using replay_at_time [OF r, of no_faults "''u1''" "GoTime 5000000000 UTC"] replay_at_time [OF s(1), of no_faults "''u1''" "GoTime 5000000000 UTC"]
      s(2) good(1) late_users_good
    by (intro exI [of _ "sy_clock s"]) (simp add: applied_at_def Let_def)
qed

text \<open>C24: however often the snapshot builder runs from a state the service can reach, and whatever fails in its
  rounds, it changes nothing but the snapshots, and every replay of products and orders by version and of
  the present answers as before it ran; so does every such replay of users as long as their snapshots hold the
  states their versions say. (Where the user service has saved one that does not, a round can bring a
  lost field back.)\<close>

theorem snapshot_builder_transparent:
  assumes "reachable t s" "q = at_version v \<or> q = empty_query"
  shows "let d = sy_db s; d' = SnapshotBuilder_Run sigs d
    in only_snapshots d d' \<and>
       map_sum id product_utc (ReplayProduct no_faults d' i q) = map_sum id product_utc (ReplayProduct no_faults d i q) \<and>
       map_sum id order_utc (ReplayOrder no_faults d' i q) = map_sum id order_utc (ReplayOrder no_faults d i q) \<and>
       (users_good d \<longrightarrow> users_good d' \<and>
          map_sum id user_utc (ReplayUser no_faults d' i q) = map_sum id user_utc (ReplayUser no_faults d i q))"
proof -
  let ?d = "sy_db s" and ?d' = "SnapshotBuilder_Run sigs (sy_db s)"
  note ok = reachable_sound [OF assms(1)]
  have o: "only_snapshots ?d ?d'" by (rule builder_only [OF ok(1)])
  then have d': "db_ok ?d'" "d_events ?d' = d_events ?d"
    using only_snapshots_db_ok ok(1) by (auto simp: only_snapshots_def)
  show ?thesis
    using o ok builder_keeps_good [OF ok(1)] replays_same_log [OF ok(1) d' assms(2)] by (simp add: Let_def)
qed

lemma snapshot_builder_transparent_witness:
  "length (d_snapshots (SnapshotBuilder_Run [Tick (id, no_faults, 20000000), Tick (id, no_faults, 50000000)] late_db)) = 1 \<and>
   map_sum id user_utc (ReplayUser no_faults (SnapshotBuilder_Run [Tick (id, no_faults, 20000000), Tick (id, no_faults, 50000000)] late_db) ''u1'' (at_version 1)) =
     map_sum id user_utc (ReplayUser no_faults late_db ''u1'' (at_version 1))"
proof
  show "length (d_snapshots (SnapshotBuilder_Run [Tick (id, no_faults, 20000000), Tick (id, no_faults, 50000000)] late_db)) = 1"
    by code_simp
  obtain s where s: "reachable 0 s" "sy_db s = late_db" using late_reachable by blast
  show "map_sum id user_utc (ReplayUser no_faults (SnapshotBuilder_Run [Tick (id, no_faults, 20000000), Tick (id, no_faults, 50000000)] late_db) ''u1'' (at_version 1)) =
     map_sum id user_utc (ReplayUser no_faults late_db ''u1'' (at_version 1))"
    using snapshot_builder_transparent [OF s(1), of "at_version 1" 1 "[Tick (id, no_faults, 20000000), Tick (id, no_faults, 50000000)]" "''u1''"] s(2) late_users_good
    by (simp add: Let_def del: SnapshotBuilder_Run.simps)
qed

end
