(* ===== verification/Read_Model.thy ===== *)
theory Read_Model
  imports System
begin

text \<open>
  What the read models of \<open>internal/projection\<close> show in every state the service can reach: not the
  aggregate but its last event, applied alone to a new aggregate, with the time of creation its
  first event gave.
\<close>

section \<open>A projected event\<close>

definition user_project :: "stored_event \<Rightarrow> user_row option" where
  "user_project e =
     (case user_Apply e (user_New (se_AggregateID e)) of
        Inl _ \<Rightarrow> None
      | Inr u \<Rightarrow> Some \<lparr>ur_name = u_Name u, ur_email = u_Email u, ur_version = u_Version u, ur_deleted = u_Deleted u,
          ur_created_at = to_micros (u_CreatedAt u), ur_updated_at = to_micros (u_UpdatedAt u)\<rparr>)"

definition product_project :: "stored_event \<Rightarrow> product_row option" where
  "product_project e =
     (case product_Apply e (product_New (se_AggregateID e)) of
        Inl _ \<Rightarrow> None
      | Inr p \<Rightarrow> Some \<lparr>pr_name = p_Name p, pr_description = p_Description p, pr_price_cents = p_PriceCents p,
          pr_currency = p_Currency p, pr_version = p_Version p, pr_deleted = p_Deleted p,
          pr_created_at = to_micros (p_CreatedAt p), pr_updated_at = to_micros (p_UpdatedAt p)\<rparr>)"

definition order_project :: "stored_event \<Rightarrow> order_row option" where
  "order_project e =
     (case order_Apply e (order_New (se_AggregateID e)) of
        Inl _ \<Rightarrow> None
      | Inr ord \<Rightarrow> Some \<lparr>or_user_id = o_UserID ord, or_status = o_Status ord, or_total_cents = o_TotalCents ord,
          or_currency = o_Currency ord, or_items = items_json (o_Items ord), or_version = o_Version ord,
          or_cancelled = o_Cancelled ord, or_created_at = to_micros (o_CreatedAt ord),
          or_updated_at = to_micros (o_UpdatedAt ord)\<rparr>)"

text \<open>The specification: the last event alone; \<open>keep\<close> puts the time of creation of the first into it.\<close>

definition last_alone :: "(stored_event \<Rightarrow> 'r option) \<Rightarrow> ('r \<Rightarrow> 'r \<Rightarrow> 'r) \<Rightarrow> stored_event list \<Rightarrow> 'r option" where
  "last_alone project keep es =
     (if es = [] then None
      else case (project (hd es), project (last es)) of (Some first, Some r) \<Rightarrow> Some (keep first r) | _ \<Rightarrow> None)"

definition keep_user :: "user_row \<Rightarrow> user_row \<Rightarrow> user_row" where
  "keep_user old new = new\<lparr>ur_created_at := ur_created_at old\<rparr>"

definition keep_product :: "product_row \<Rightarrow> product_row \<Rightarrow> product_row" where
  "keep_product old new = new\<lparr>pr_created_at := pr_created_at old\<rparr>"

definition keep_order :: "order_row \<Rightarrow> order_row \<Rightarrow> order_row" where
  "keep_order old new = new\<lparr>or_created_at := or_created_at old\<rparr>"

section \<open>What a table of the read side promises\<close>

locale read_table =
  fixes ty :: string and rows :: "db \<Rightarrow> string \<Rightarrow> 'r option"
    and project :: "stored_event \<Rightarrow> 'r option" and keep :: "'r \<Rightarrow> 'r \<Rightarrow> 'r"
  assumes rows_cong: "d_users d = d_users d' \<Longrightarrow> d_products d = d_products d' \<Longrightarrow> d_orders d = d_orders d' \<Longrightarrow>
      rows d = rows d'"
    and own: "service s \<Longrightarrow> cs_aggregateType s = ty \<Longrightarrow> cs_projector s fl e d = (Inr (), d') \<Longrightarrow>
      \<exists>r. project e = Some r \<and> rows d' = (rows d)(se_AggregateID e \<mapsto>
        (case rows d (se_AggregateID e) of None \<Rightarrow> r | Some old \<Rightarrow> keep old r))"
    and other: "service s \<Longrightarrow> cs_aggregateType s \<noteq> ty \<Longrightarrow> cs_projector s fl e d = (Inr (), d') \<Longrightarrow> rows d' = rows d"
    and empty: "rows empty_db i = None"
    and keep_self: "keep r r = r" and keep_keep: "keep (keep a b) c = keep a c"
begin

definition exact :: "db \<Rightarrow> bool" where
  "exact d \<longleftrightarrow> (\<forall>i. rows d i = last_alone project keep (aggregate_events ty i (d_events d)) \<and>
     list_all (\<lambda>e. project e \<noteq> None) (aggregate_events ty i (d_events d)))"

lemma exact_cong:
  "d_events d' = d_events d \<Longrightarrow> d_users d' = d_users d \<Longrightarrow> d_products d' = d_products d \<Longrightarrow> d_orders d' = d_orders d \<Longrightarrow>
     exact d \<Longrightarrow> exact d'"
  using rows_cong [of d' d] by (simp add: exact_def)

lemma last_alone_total: "list_all (\<lambda>e. project e \<noteq> None) es \<Longrightarrow> es \<noteq> [] \<Longrightarrow> last_alone project keep es \<noteq> None"
  by (auto simp: last_alone_def list_all_iff split: option.splits) (metis hd_in_set last_in_set option.distinct(1))+

lemma last_alone_snoc:
  assumes "project e = Some r" "rows d i = last_alone project keep es" "es \<noteq> [] \<Longrightarrow> rows d i \<noteq> None"
  shows "last_alone project keep (es @ [e]) = Some (case rows d i of None \<Rightarrow> r | Some old \<Rightarrow> keep old r)"
  using assms by (cases "es = []") (auto simp: last_alone_def keep_self keep_keep split: option.splits)

lemma exact_write:
  assumes s: "service s" and w: "write_event s fl now req n d = (res, d')"
    and d: "db_ok d" "version_read s req n d" "exact d"
  shows "exact d'"
proof (cases res)
  case (Inl x)
  then show ?thesis using w tables_eqD [OF write_event_Inl] exact_cong d(3) by metis
next
  case (Inr stored)
  note p = service_projector [OF s]
  note a = projector.write_event_appends [OF p refl w [unfolded Inr] d(1,2)]
  obtain d1 where d1: "store_append fl now (next_event s req n) d = (Inr stored, d1)"
    "cs_projector s fl stored d1 = (Inr (), d')"
    using projector.write_event_Inr [OF p refl w [unfolded Inr]] by metis
  have st: "se_AggregateID stored = aq_ID req" by (simp add: a(2) event_of_def next_event_def)
  have r1: "rows d1 = rows d" using d1(1) by (auto elim!: store_append_Inr intro: rows_cong)
  have ev: "aggregate_events ty i (d_events d') = aggregate_events ty i (d_events d) @
      (if cs_aggregateType s = ty \<and> aq_ID req = i then [stored] else [])" for i
    by (simp add: a(4) a(2) aggregate_events_new_row) (simp add: next_event_def)
  show ?thesis
  proof (cases "cs_aggregateType s = ty")
    case True
    from own [OF s True d1(2)] obtain r where r: "project stored = Some r"
      "rows d' = (rows d)(aq_ID req \<mapsto> (case rows d (aq_ID req) of None \<Rightarrow> r | Some old \<Rightarrow> keep old r))"
      by (auto simp: st r1)
    have "rows d i = last_alone project keep (aggregate_events ty i (d_events d))"
      "aggregate_events ty i (d_events d) \<noteq> [] \<Longrightarrow> rows d i \<noteq> None"
      "list_all (\<lambda>e. project e \<noteq> None) (aggregate_events ty i (d_events d))" for i
      using d(3) last_alone_total by (simp_all add: exact_def)
    note this last_alone_snoc [OF r(1) this(1,2)]
    with r True show ?thesis by (simp add: exact_def ev)
  next
    case False
    then show ?thesis using other [OF s False d1(2)] d(3) by (simp add: exact_def ev r1)
  qed
qed

text \<open>Every step of the service keeps the table exact.\<close>

lemma exact_step:
  assumes "sys_ok s" "sys_step s s'" "exact (sy_db s)"
  shows "exact (sy_db s')"
  using assms(1,2)
proof (cases rule: sys_step_db)
  case (written p tx v fl res)
  show ?thesis by (rule exact_write [OF written(4,3,6,5) assms(3)])
next
  case saved
  then show ?thesis using exact_cong assms(3) by (simp add: only_snapshots_def)
next
  case (published connected fails fl sent)
  then have "sy_db s' = (sy_db s)\<lparr>d_outbox := d_outbox (sy_db s')\<rparr>"
    by (cases rule: publishBatch_cases) (auto dest: publish_rows_frame)
  then have "d_events (sy_db s') = d_events (sy_db s)" "d_users (sy_db s') = d_users (sy_db s)"
    "d_products (sy_db s') = d_products (sy_db s)" "d_orders (sy_db s') = d_orders (sy_db s)"
    by (metis db.select_convs db.surjective db.update_convs(3))+
  then show ?thesis using exact_cong assms(3) by blast
qed (use assms(3) in simp)

lemma exact_reachable: "reachable t s \<Longrightarrow> exact (sy_db s)"
proof (induction rule: reachable.induct)
  case start
  then show ?case using empty by (simp add: initial_sys_def exact_def last_alone_def aggregate_events_def map_filter_simps)
next
  case (more s s')
  then show ?case using exact_step reachable_ok by blast
qed

end

lemmas read_table_defs = service_def userCmds_def productCmds_def orderCmds_def projector_defs

lemma service_type:
  "service s \<Longrightarrow> cs_aggregateType s = AggregateUser \<Longrightarrow> cs_projector s = UserProjector_Apply"
  "service s \<Longrightarrow> cs_aggregateType s = AggregateProduct \<Longrightarrow> cs_projector s = ProductProjector_Apply"
  "service s \<Longrightarrow> cs_aggregateType s = AggregateOrder \<Longrightarrow> cs_projector s = OrderProjector_Apply"
  by (auto simp: service_def userCmds_def productCmds_def orderCmds_def)

lemma UserProjector_row:
  assumes "UserProjector_Apply fl e d = (Inr (), d')"
  shows "\<exists>r. user_project e = Some r \<and> d_users d' = (d_users d)(se_AggregateID e \<mapsto>
    (case d_users d (se_AggregateID e) of None \<Rightarrow> r | Some old \<Rightarrow> keep_user old r))"
proof -
  obtain u where u: "user_Apply e (user_New (se_AggregateID e)) = Inr u" "d' = upsert_user u d"
    using assms by (auto simp: UserProjector_Apply_def split: sum.splits if_splits)
  then show ?thesis
    using user_Apply_version [OF u(1)] by (simp add: user_project_def upsert_user_def keep_user_def split: option.split)
qed

lemma ProductProjector_row:
  assumes "ProductProjector_Apply fl e d = (Inr (), d')"
  shows "\<exists>r. product_project e = Some r \<and> d_products d' = (d_products d)(se_AggregateID e \<mapsto>
    (case d_products d (se_AggregateID e) of None \<Rightarrow> r | Some old \<Rightarrow> keep_product old r))"
proof -
  obtain p where p: "product_Apply e (product_New (se_AggregateID e)) = Inr p" "d' = upsert_product p d"
    using assms by (auto simp: ProductProjector_Apply_def split: sum.splits if_splits)
  then show ?thesis
    using product_Apply_version [OF p(1)] by (simp add: product_project_def upsert_product_def keep_product_def split: option.split)
qed

lemma OrderProjector_row:
  assumes "OrderProjector_Apply fl e d = (Inr (), d')"
  shows "\<exists>r. order_project e = Some r \<and> d_orders d' = (d_orders d)(se_AggregateID e \<mapsto>
    (case d_orders d (se_AggregateID e) of None \<Rightarrow> r | Some old \<Rightarrow> keep_order old r))"
proof -
  obtain ord where ord: "order_Apply e (order_New (se_AggregateID e)) = Inr ord" "d' = upsert_order ord d"
    using assms by (auto simp: OrderProjector_Apply_def split: sum.splits if_splits)
  then show ?thesis
    using order_Apply_version [OF ord(1)] by (simp add: order_project_def upsert_order_def keep_order_def split: option.split)
qed

interpretation user_table: read_table AggregateUser d_users user_project keep_user
proof
  show "service s \<Longrightarrow> cs_aggregateType s = AggregateUser \<Longrightarrow> cs_projector s fl e d = (Inr (), d') \<Longrightarrow>
      \<exists>r. user_project e = Some r \<and> d_users d' = (d_users d)(se_AggregateID e \<mapsto>
        (case d_users d (se_AggregateID e) of None \<Rightarrow> r | Some old \<Rightarrow> keep_user old r))" for s fl e d d'
    using UserProjector_row service_type(1) by metis
qed (auto simp: read_table_defs keep_user_def split: sum.splits if_splits)

interpretation product_table: read_table AggregateProduct d_products product_project keep_product
proof
  show "service s \<Longrightarrow> cs_aggregateType s = AggregateProduct \<Longrightarrow> cs_projector s fl e d = (Inr (), d') \<Longrightarrow>
      \<exists>r. product_project e = Some r \<and> d_products d' = (d_products d)(se_AggregateID e \<mapsto>
        (case d_products d (se_AggregateID e) of None \<Rightarrow> r | Some old \<Rightarrow> keep_product old r))" for s fl e d d'
    using ProductProjector_row service_type(2) by metis
qed (auto simp: read_table_defs keep_product_def split: sum.splits if_splits)

interpretation order_table: read_table AggregateOrder d_orders order_project keep_order
proof
  show "service s \<Longrightarrow> cs_aggregateType s = AggregateOrder \<Longrightarrow> cs_projector s fl e d = (Inr (), d') \<Longrightarrow>
      \<exists>r. order_project e = Some r \<and> d_orders d' = (d_orders d)(se_AggregateID e \<mapsto>
        (case d_orders d (se_AggregateID e) of None \<Rightarrow> r | Some old \<Rightarrow> keep_order old r))" for s fl e d d'
    using OrderProjector_row service_type(3) by metis
qed (auto simp: read_table_defs keep_order_def split: sum.splits if_splits)

section \<open>The snapshot made of the read model\<close>

lemma Save_only_state:
  assumes "Save fl now ty i v (Some st) d = (Inr (), d')" "r \<in> set (d_snapshots d')" "same_snapshot ty i v r"
  shows "ss_state r = st"
proof (cases "list_ex (same_snapshot ty i v) (d_snapshots d)")
  case True
  then have "d_snapshots d' = map (\<lambda>r. if same_snapshot ty i v r then r\<lparr>ss_state := st\<rparr> else r) (d_snapshots d)"
    using assms(1) by (auto simp: Save_def Let_def split: if_splits option.splits)
  with assms(2) obtain c where "r = (if same_snapshot ty i v c then c\<lparr>ss_state := st\<rparr> else c)"
    by (simp only: set_map) blast
  with assms(3) show ?thesis by (simp split: if_splits)
next
  case False
  then obtain n where "d_snapshots d' = d_snapshots d @ [\<lparr>ss_id = n, ss_aggregate_type = ty, ss_aggregate_id = i,
      ss_version = v, ss_state = st, ss_created_at = now\<rparr>]"
    using assms(1) by (auto simp: Save_def Let_def split: if_splits option.splits)
  then show ?thesis using assms(2,3) False by (auto simp: list_ex_iff)
qed

lemma Save_latest:
  assumes "Save fl now ty i v (Some st) d = (Inr (), d')" "\<forall>r \<in> set (snapshot_rows ty i (d_snapshots d)). ss_version r \<le> v"
  shows "\<exists>sn. Latest no_faults d' ty i = Inr (Some sn) \<and> sn_Version sn = v \<and> sn_State sn = st"
proof -
  obtain r0 where r0: "r0 \<in> set (d_snapshots d')" "same_snapshot ty i v r0" using Save_stored [OF assms(1)] by blast
  then have "snapshot_rows ty i (d_snapshots d') \<noteq> []" by (auto simp: snapshot_rows_iff same_snapshot_def dest!: arg_cong [where f = set])
  then obtain sn where sn: "Latest no_faults d' ty i = Inr (Some sn)"
    using Latest_cases [of no_faults d' ty i] Latest_None [of no_faults d' ty i] by metis
  from Latest_SomeD [OF this] obtain r where r: "r \<in> set (snapshot_rows ty i (d_snapshots d'))" "sn = scan_snapshot r"
    "\<And>r'. r' \<in> set (snapshot_rows ty i (d_snapshots d')) \<Longrightarrow> ss_version r' \<le> ss_version r" by blast
  have "v \<le> ss_version r" using r(3) [of r0] r0 by (simp add: snapshot_rows_iff same_snapshot_def)
  moreover have "ss_version r \<le> v"
    using r(1) Save_rows [OF assms(1), of r] assms(2) by (auto simp: snapshot_rows_iff)
  ultimately have v: "ss_version r = v" by simp
  then have "ss_state r = st"
    using r(1) Save_only_state [OF assms(1), of r] by (simp add: snapshot_rows_iff same_snapshot_def)
  with v sn r(2) show ?thesis by (simp add: scan_snapshot_def)
qed

lemma Save_succeeds:
  assumes "d_snapshot_seq d < 9223372036854775807"
  shows "\<exists>d'. Save no_faults now ty i v (Some st) d = (Inr (), d')"
  using assms by (cases "list_ex (same_snapshot ty i v) (d_snapshots d)") (simp_all add: Save_def nextval_def Let_def)

text \<open>A snapshot at the last version is all a replay of the present looks at.\<close>

lemma replay_from_last:
  assumes "log_ok (d_events d)" "Latest no_faults d AggregateUser i = Inr (Some sn)"
    "sn_Version sn = int (length (aggregate_events AggregateUser i (d_events d)))"
    "user_UnmarshalSnapshot (sn_State sn) (user_New i) = Some u" "u_Version u \<noteq> 0"
  shows "ReplayUser no_faults d i empty_query = Inr u"
proof -
  let ?es = "aggregate_events AggregateUser i (d_events d)"
  have "filter (\<lambda>e. sn_Version sn < se_Version e) ?es = []"
    using numbered_filter_gt [OF numbered_aggregate_events [OF assms(1)], of "sn_Version sn"] assms(3) by simp
  moreover have "LoadEventsUntil no_faults d AggregateUser i empty_query = Inr ?es"
    using LoadEventsUntil_query [OF assms(1), of no_faults] by simp
  ultimately show ?thesis
    using assms(2,4,5)
    by (simp add: ReplayUser_def engine_replay_def replay_start_def use_snapshot_def empty_query_def apply_events_filter userAgg_def)
qed

lemma user_row_version:
  assumes "last_alone user_project keep_user es = Some r" "numbered es"
  shows "ur_version r = int (length es)" "es \<noteq> []"
proof -
  show "es \<noteq> []" using assms(1) by (auto simp: last_alone_def)
  then show "ur_version r = int (length es)"
    using assms numbered_last [OF assms(2)]
    by (auto simp: last_alone_def user_project_def keep_user_def dest!: user_Apply_version split: option.splits sum.splits)
qed

section \<open>Properties\<close>

text \<open>C13: in every state the service can reach, the read model knows exactly the aggregates of the log, and
  what it shows of each is the last event alone, applied to a new aggregate: whatever the events
  before it said is forgotten, except for the time of creation.\<close>

theorem read_model_exact:
  assumes "reachable t s"
  shows "d_users (sy_db s) i = last_alone user_project keep_user (aggregate_events AggregateUser i (d_events (sy_db s))) \<and>
    d_products (sy_db s) i = last_alone product_project keep_product (aggregate_events AggregateProduct i (d_events (sy_db s))) \<and>
    d_orders (sy_db s) i = last_alone order_project keep_order (aggregate_events AggregateOrder i (d_events (sy_db s)))"
  using user_table.exact_reachable [OF assms] product_table.exact_reachable [OF assms] order_table.exact_reachable [OF assms]
  by (simp add: user_table.exact_def product_table.exact_def order_table.exact_def)

lemma read_model_exact_witness:
  "map_option (\<lambda>r. (ur_name r, ur_email r, ur_version r, ur_created_at r)) (d_users late_db ''u1'') =
     Some (''Bob'', [], 2, 10000000) \<and>
   map_sum id (\<lambda>u. (u_Name u, u_Email u)) (ReplayUser no_faults late_db ''u1'' empty_query) = Inr (''Bob'', ''a@x'')"
proof -
  obtain s where s: "reachable 0 s" "sy_db s = late_db" using late_reachable by blast
  have "map_option (\<lambda>r. (ur_name r, ur_email r, ur_version r, ur_created_at r))
      (last_alone user_project keep_user (aggregate_events AggregateUser ''u1'' (d_events late_db))) = Some (''Bob'', [], 2, 10000000)"
    by code_simp
  moreover have "map_sum id (\<lambda>u. (u_Name u, u_Email u)) (ReplayUser no_faults late_db ''u1'' empty_query) = Inr (''Bob'', ''a@x'')"
    by code_simp
  ultimately show ?thesis using read_model_exact [OF s(1), of "''u1''"] s(2) by simp
qed

text \<open>C37: the snapshot the user service saves is made of that read model. In every reachable state, once it
  is saved (and none has a later version), a replay of the present is the row of the read model instead of the
  fold of the log: name and email as the last event alone has them, no address and no avatar ever.\<close>

theorem service_snapshot_forgets:
  assumes "reachable t s" "UserProjector_GetCurrent no_faults (sy_db s) i = Inr u" "user_MarshalSnapshot u \<noteq> None"
    "\<forall>r \<in> set (snapshot_rows AggregateUser i (d_snapshots (sy_db s))). ss_version r \<le> u_Version u"
    "d_snapshot_seq (sy_db s) < 9223372036854775807"
  shows "ReplayUser no_faults (user_maybeSnapshot no_faults now u (sy_db s)) i empty_query = Inr (user_utc u) \<and>
    (\<exists>r. last_alone user_project keep_user (aggregate_events AggregateUser i (d_events (sy_db s))) = Some r \<and>
      u_Name u = ur_name r \<and> u_Email u = ur_email r \<and> u_Address u = [] \<and> u_Avatar u = [])"
proof -
  let ?d = "sy_db s" and ?es = "aggregate_events AggregateUser i (d_events (sy_db s))"
  have ok: "db_ok ?d" using reachable_ok [OF assms(1)] by (simp add: sys_ok_def)
  have log: "log_ok (d_events ?d)" by (rule db_ok_log [OF ok])
  obtain row where row: "d_users ?d i = Some row" and u: "u = \<lparr>u_ID = i, u_Name = ur_name row, u_Email = ur_email row,
      u_Address = [], u_Avatar = [], u_Deleted = ur_deleted row, u_Version = ur_version row,
      u_CreatedAt = from_micros (ur_created_at row), u_UpdatedAt = from_micros (ur_updated_at row)\<rparr>"
    using assms(2) by (auto simp: UserProjector_GetCurrent_def split: if_splits option.splits)
  have r: "last_alone user_project keep_user ?es = Some row"
    using user_table.exact_reachable [OF assms(1)] row by (simp add: user_table.exact_def)
  note v = user_row_version [OF r numbered_aggregate_events [OF log]]
  have "u_Version u = int (length ?es)" using v(1) u by simp
  moreover have "in_i64 (int (length ?es))"
    using length_aggregate_rows [of AggregateUser i "d_events ?d"] length_aggregate_events [OF log, of AggregateUser i] ok
    by (simp add: db_ok_def in_i64_def)
  ultimately have l: "user_local u" "u_Version u = int (length ?es)"
    by (simp_all add: user_local_def u from_micros_def)
  obtain st where st: "user_MarshalSnapshot u = Some st" using assms(3) by blast
  obtain d' where d': "Save no_faults now AggregateUser (u_ID u) (u_Version u) (Some st) ?d = (Inr (), d')"
    using Save_succeeds [OF assms(5)] by blast
  then have s': "user_maybeSnapshot no_faults now u ?d = d'" by (simp add: user_maybeSnapshot_def st)
  have i: "u_ID u = i" by (simp add: u)
  from Save_latest [OF d' [unfolded i] assms(4)] obtain sn where
    sn: "Latest no_faults d' AggregateUser i = Inr (Some sn)" "sn_Version sn = u_Version u" "sn_State sn = st" by blast
  have ev: "d_events d' = d_events ?d" using Save_others [OF d'] by simp
  have "ReplayUser no_faults d' i empty_query = Inr (user_utc u)"
    using replay_from_last [of d' i sn "user_utc u"] log sn l v(2) user_snapshot_roundtrip [OF st l(1), of i]
    by (simp add: ev user_utc_def)
  with r u s' show ?thesis by simp
qed

lemma service_snapshot_forgets_witness:
  "\<exists>u. UserProjector_GetCurrent no_faults late_db ''u1'' = Inr u \<and>
    map_sum id u_Email (ReplayUser no_faults late_db ''u1'' empty_query) = Inr ''a@x'' \<and>
    map_sum id u_Email (ReplayUser no_faults (user_maybeSnapshot no_faults 3000000 u late_db) ''u1'' empty_query) = Inr []"
proof -
  obtain s where s: "reachable 0 s" "sy_db s = late_db" using late_reachable by blast
  have c: "map_sum id (\<lambda>u. (u_Email u, user_MarshalSnapshot u \<noteq> None)) (UserProjector_GetCurrent no_faults late_db ''u1'') = Inr ([], True)"
    "snapshot_rows AggregateUser ''u1'' (d_snapshots late_db) = []" "d_snapshot_seq late_db < 9223372036854775807"
    "map_sum id u_Email (ReplayUser no_faults late_db ''u1'' empty_query) = Inr ''a@x''"
    by (code_simp, code_simp, code_simp, code_simp)
  then obtain u where u: "UserProjector_GetCurrent no_faults late_db ''u1'' = Inr u" "u_Email u = []" "user_MarshalSnapshot u \<noteq> None"
    by (cases "UserProjector_GetCurrent no_faults late_db ''u1''") auto
  from service_snapshot_forgets [OF s(1), of "''u1''" u 3000000] u c s(2) show ?thesis
    by (simp add: user_utc_def)
qed

end
