(* ===== verification/Linearizable.thy ===== *)
theory Linearizable
  imports Read_Model
begin

text \<open>
  What the write side promises, without its tables, transactions and background jobs: a log of
  events for each aggregate, to which each command that succeeds adds one event in one atomic step, the
  one its guards allow at that moment. The running service refines this specification.
\<close>

section \<open>The specification\<close>

type_synonym event_log = "string \<times> string \<Rightarrow> stored_event list"

text \<open>An atomic command: \<open>now\<close> is the time and \<open>k\<close> the identity its event gets.\<close>

definition spec_command :: "command_service \<Rightarrow> append_request \<Rightarrow> int \<Rightarrow> i64 \<Rightarrow> event_log \<Rightarrow> error + event_log" where
  "spec_command svc req now k L =
     (let key = (cs_aggregateType svc, aq_ID req); n = int (length (L key))
      in case append_guard req n of
           Some e \<Rightarrow> Inl e
         | None \<Rightarrow> Inr (L(key := L key @ [event_of now k (next_event svc req n)])))"

text \<open>The log a database holds.\<close>

definition abstract_log :: "db \<Rightarrow> event_log" where
  "abstract_log d = (\<lambda>(ty, i). aggregate_events ty i (d_events d))"

section \<open>Lemmas\<close>

lemma abstract_log_cong: "d_events d' = d_events d \<Longrightarrow> abstract_log d' = abstract_log d"
  by (simp add: abstract_log_def)

text \<open>A command that has read its version passed its guards then.\<close>

lemma reachable_guard:
  "reachable t s \<Longrightarrow> sy_tx s p = Some tx \<Longrightarrow> tx_current tx = Some v \<Longrightarrow> append_guard (tx_request tx) v = None"
proof (induction arbitrary: p tx v rule: reachable.induct)
  case start
  then show ?case by (simp add: initial_sys_def)
next
  case (more s s')
  from more.hyps(2) more.prems more.IH show ?case
    by (cases rule: sys_step.cases) (auto split: if_splits)
qed

text \<open>The write of a command is the atomic command of the specification.\<close>

lemma write_event_spec:
  assumes "service s" "db_ok d" "version_read s req n d" "append_guard req n = None"
    "write_event s fl now req n d = (Inr stored, d')"
  shows "spec_command s req now (d_event_seq d + 1) (abstract_log d) = Inr (abstract_log d')"
proof -
  note a = projector.write_event_appends [OF service_projector [OF assms(1)] refl assms(5,2,3)]
  have n: "int (length (aggregate_events (cs_aggregateType s) (aq_ID req) (d_events d))) = n"
    using a(1) assms(2) by (simp add: length_aggregate_events db_ok_def)
  have "abstract_log d' (ty, i) = ((abstract_log d)((cs_aggregateType s, aq_ID req) :=
      aggregate_events (cs_aggregateType s) (aq_ID req) (d_events d) @ [event_of now (d_event_seq d + 1) (next_event s req n)])) (ty, i)"
    for ty i
    unfolding abstract_log_def a(4) by (simp add: aggregate_events_new_row) (simp add: next_event_def)
  then have "abstract_log d' = (abstract_log d)((cs_aggregateType s, aq_ID req) :=
      aggregate_events (cs_aggregateType s) (aq_ID req) (d_events d) @ [event_of now (d_event_seq d + 1) (next_event s req n)])"
    by (auto simp: fun_eq_iff)
  with n assms(4) show ?thesis by (simp add: spec_command_def Let_def abstract_log_def)
qed

section \<open>Properties\<close>

text \<open>C5: the service refines the specification: from every reachable state, each step of commands, snapshot
  builders and publishers either leaves the log of every aggregate as it is, or is the write of one
  command in flight, and adds to the log what the atomic command adds there at that moment, although
  the command checked its guards earlier, against a version it read on another connection.\<close>

theorem commands_linearizable:
  assumes "reachable t s" "sys_step s s'"
  shows "abstract_log (sy_db s') = abstract_log (sy_db s) \<or>
    (\<exists>p tx. sy_tx s p = Some tx \<and>
      spec_command (tx_service tx) (tx_request tx) (tx_start tx) (d_event_seq (sy_db s) + 1) (abstract_log (sy_db s)) =
        Inr (abstract_log (sy_db s')))"
proof -
  have ok: "sys_ok s" by (rule reachable_ok [OF assms(1)])
  from this assms(2) show ?thesis
  proof (cases rule: sys_step_db)
    case (written p tx v fl res)
    show ?thesis
    proof (cases res)
      case (Inl e)
      then show ?thesis using tables_eqD [OF write_event_Inl] written(3) abstract_log_cong by blast
    next
      case (Inr stored)
      show ?thesis
        using write_event_spec [OF written(4,6,5) reachable_guard [OF assms(1) written(1,2)] written(3) [unfolded Inr]]
          written(1) by blast
    qed
  next
    case same
    then show ?thesis by simp
  next
    case saved
    then show ?thesis using abstract_log_cong [of "sy_db s'" "sy_db s"] by (simp add: only_snapshots_def)
  next
    case (published connected fails fl sent)
    then show ?thesis using publishBatch_keeps(4) [OF published] abstract_log_cong [of "sy_db s'" "sy_db s"] by simp
  qed
qed

lemma commands_linearizable_witness:
  "spec_command (userCmds 50) run_create 0 1 (abstract_log empty_db) = Inr (abstract_log race_db)"
proof -
  let ?s = "\<lparr>sy_db = empty_db, sy_clock = 0, sy_tx = Map.empty(0 \<mapsto> run_tx run_create 0 None, 0 \<mapsto> run_tx run_create 0 (Some 0))\<rparr>"
  let ?s' = "?s\<lparr>sy_db := race_db, sy_tx := (sy_tx ?s)(0 := None)\<rparr>"
  have "reachable 0 \<lparr>sy_db = empty_db, sy_clock = 0, sy_tx = Map.empty(0 \<mapsto> run_tx run_create 0 None)\<rparr>"
    by (rule run_steps(2) [OF reach_initial]) simp
  then have r: "reachable 0 ?s" by (rule run_steps(3)) (simp_all add: run_reads)
  have "write_event (userCmds 50) no_faults 0 run_create 0 empty_db = (fst (write_event (userCmds 50) no_faults 0 run_create 0 empty_db), race_db)"
    by (simp add: race_db_def)
  then have w: "sys_step ?s ?s'"
    by (intro write_commit [of ?s 0 "run_tx run_create 0 (Some 0)" 0 no_faults]) (simp_all add: run_tx_def)
  have "length (abstract_log race_db (AggregateUser, ''u1'')) = 1" "length (abstract_log empty_db (AggregateUser, ''u1'')) = 0"
    by (code_simp, code_simp)
  then have "abstract_log race_db \<noteq> abstract_log empty_db" by (metis zero_neq_one)
  with commands_linearizable [OF r w] show ?thesis by (auto simp: run_tx_def split: if_splits)
qed

end
