(* ===== verification/Replayable.thy ===== *)
theory Replayable
  imports Read_Model
begin

text \<open>
  Events the service has accepted can always be replayed: whether an event applies depends on the
  event alone, and the projector of \<open>internal/projection\<close> has applied it once before its
  transaction was committed.
\<close>

section \<open>Aggregates whose events apply always or never\<close>

locale total_aggregate = aggregate +
  assumes Apply_total: "isl (ag_Apply A e a) = isl (ag_Apply A e a')"
    and marshal_New: "marshal (ag_New A i) \<noteq> None"
    and marshal_Apply: "ag_Apply A e a = Inr b \<Longrightarrow> marshal a \<noteq> None \<Longrightarrow> fmt_rfc3339 (se_CreatedAt e) \<noteq> None \<Longrightarrow>
      marshal b \<noteq> None"
begin

definition applicable :: "stored_event \<Rightarrow> bool" where
  "applicable e \<longleftrightarrow> \<not> isl (ag_Apply A e (ag_New A (se_AggregateID e)))"

lemma apply_all_total: "list_all applicable es \<Longrightarrow> \<exists>b. apply_all A es a = Inr b"
proof (induction es arbitrary: a)
  case (Cons e es)
  then have "\<not> isl (ag_Apply A e a)" using Apply_total by (auto simp: applicable_def)
  then obtain c where "ag_Apply A e a = Inr c" by (cases "ag_Apply A e a") simp_all
  then show ?case using Cons by simp
qed simp

lemma apply_all_marshals:
  "apply_all A es a = Inr b \<Longrightarrow> marshal a \<noteq> None \<Longrightarrow> list_all (\<lambda>e. fmt_rfc3339 (se_CreatedAt e) \<noteq> None) es \<Longrightarrow>
     marshal b \<noteq> None"
proof (induction es arbitrary: a)
  case (Cons e es)
  then obtain c where c: "ag_Apply A e a = Inr c" "apply_all A es c = Inr b" by (auto split: sum.splits)
  have "marshal c \<noteq> None" by (rule marshal_Apply [OF c(1) Cons.prems(2)]) (use Cons.prems(3) in simp)
  with Cons.IH [OF c(2)] Cons.prems(3) show ?case by simp
qed simp

lemma fold_state_total:
  assumes "list_all applicable es" "es \<noteq> []"
  shows "\<exists>a. fold_state A i es = Inr a \<and>
    (list_all (\<lambda>e. fmt_rfc3339 (se_CreatedAt e) \<noteq> None) es \<longrightarrow> marshal a \<noteq> None)"
proof -
  obtain a where a: "apply_all A es (ag_New A i) = Inr a" using apply_all_total [OF assms(1)] by blast
  then show ?thesis using apply_all_marshals [OF a marshal_New] assms(2) by (auto simp: fold_state_def)
qed

end

lemma fmt_zero_time: "fmt_rfc3339 zero_time \<noteq> None"
  by code_simp

lemma recalcTotal_times [simp]:
  "o_CreatedAt (recalcTotal ord) = o_CreatedAt ord" "o_UpdatedAt (recalcTotal ord) = o_UpdatedAt ord"
  by (simp_all add: recalcTotal_def)

lemma user_Apply_total: "isl (user_Apply e a) = isl (user_Apply e a')"
  by (simp add: user_Apply_def Let_def split: option.split)

lemma user_Apply_times:
  "pred_sum (\<lambda>_. True) (\<lambda>b. u_UpdatedAt b = se_CreatedAt e \<and> u_CreatedAt b \<in> {u_CreatedAt a, se_CreatedAt e}) (user_Apply e a)"
  by (simp add: user_Apply_def Let_def split: option.split)

lemma user_marshals:
  "user_MarshalSnapshot a \<noteq> None \<longleftrightarrow> fmt_rfc3339 (u_CreatedAt a) \<noteq> None \<and> fmt_rfc3339 (u_UpdatedAt a) \<noteq> None"
  by (auto simp: user_MarshalSnapshot_def split: option.splits)

lemma product_Apply_total: "isl (product_Apply e a) = isl (product_Apply e a')"
  by (simp add: product_Apply_def Let_def split: option.split)

lemma product_Apply_times:
  "pred_sum (\<lambda>_. True) (\<lambda>b. p_UpdatedAt b = se_CreatedAt e \<and> p_CreatedAt b \<in> {p_CreatedAt a, se_CreatedAt e}) (product_Apply e a)"
  by (simp add: product_Apply_def Let_def split: option.split)

lemma product_marshals:
  "product_MarshalSnapshot a \<noteq> None \<longleftrightarrow> fmt_rfc3339 (p_CreatedAt a) \<noteq> None \<and> fmt_rfc3339 (p_UpdatedAt a) \<noteq> None"
  by (auto simp: product_MarshalSnapshot_def split: option.splits)

lemma order_Apply_total: "isl (order_Apply e a) = isl (order_Apply e a')"
  by (simp add: order_Apply_def Let_def split: option.split)

lemma order_Apply_times:
  "pred_sum (\<lambda>_. True) (\<lambda>b. o_UpdatedAt b = se_CreatedAt e \<and> o_CreatedAt b \<in> {o_CreatedAt a, se_CreatedAt e}) (order_Apply e a)"
  by (simp add: order_Apply_def Let_def split: option.split)

lemma order_marshals:
  "order_MarshalSnapshot a \<noteq> None \<longleftrightarrow> fmt_rfc3339 (o_CreatedAt a) \<noteq> None \<and> fmt_rfc3339 (o_UpdatedAt a) \<noteq> None"
  by (auto simp: order_MarshalSnapshot_def split: option.splits)

interpretation user_total: total_aggregate userAgg user_MarshalSnapshot user_utc user_local
proof unfold_locales
  show "isl (ag_Apply userAgg e a) = isl (ag_Apply userAgg e a')" for e a a'
    using user_Apply_total by (simp add: agg_defs)
  show "user_MarshalSnapshot (ag_New userAgg i) \<noteq> None" for i
    unfolding user_marshals using fmt_zero_time by (simp add: agg_defs user_New_def)
  show "ag_Apply userAgg e a = Inr b \<Longrightarrow> user_MarshalSnapshot a \<noteq> None \<Longrightarrow> fmt_rfc3339 (se_CreatedAt e) \<noteq> None \<Longrightarrow>
      user_MarshalSnapshot b \<noteq> None" for e a b
    unfolding user_marshals using user_Apply_times [of e a] by (auto simp: agg_defs)
qed

interpretation product_total: total_aggregate productAgg product_MarshalSnapshot product_utc product_local
proof unfold_locales
  show "isl (ag_Apply productAgg e a) = isl (ag_Apply productAgg e a')" for e a a'
    using product_Apply_total by (simp add: agg_defs)
  show "product_MarshalSnapshot (ag_New productAgg i) \<noteq> None" for i
    unfolding product_marshals using fmt_zero_time by (simp add: agg_defs product_New_def)
  show "ag_Apply productAgg e a = Inr b \<Longrightarrow> product_MarshalSnapshot a \<noteq> None \<Longrightarrow> fmt_rfc3339 (se_CreatedAt e) \<noteq> None \<Longrightarrow>
      product_MarshalSnapshot b \<noteq> None" for e a b
    unfolding product_marshals using product_Apply_times [of e a] by (auto simp: agg_defs)
qed

interpretation order_total: total_aggregate orderAgg order_MarshalSnapshot order_utc order_local
proof unfold_locales
  show "isl (ag_Apply orderAgg e a) = isl (ag_Apply orderAgg e a')" for e a a'
    using order_Apply_total by (simp add: agg_defs)
  show "order_MarshalSnapshot (ag_New orderAgg i) \<noteq> None" for i
    unfolding order_marshals using fmt_zero_time by (simp add: agg_defs order_New_def)
  show "ag_Apply orderAgg e a = Inr b \<Longrightarrow> order_MarshalSnapshot a \<noteq> None \<Longrightarrow> fmt_rfc3339 (se_CreatedAt e) \<noteq> None \<Longrightarrow>
      order_MarshalSnapshot b \<noteq> None" for e a b
    unfolding order_marshals using order_Apply_times [of e a] by (auto simp: agg_defs)
qed

section \<open>Every event of a reachable state applies\<close>

lemma projected_applicable:
  "user_project e \<noteq> None \<Longrightarrow> user_total.applicable e"
  "product_project e \<noteq> None \<Longrightarrow> product_total.applicable e"
  "order_project e \<noteq> None \<Longrightarrow> order_total.applicable e"
  unfolding user_total.applicable_def product_total.applicable_def order_total.applicable_def
  by (auto simp: user_project_def product_project_def order_project_def agg_defs split: sum.splits)

lemma reachable_applicable:
  assumes "reachable t s"
  shows "list_all user_total.applicable (aggregate_events AggregateUser i (d_events (sy_db s)))"
    "list_all product_total.applicable (aggregate_events AggregateProduct i (d_events (sy_db s)))"
    "list_all order_total.applicable (aggregate_events AggregateOrder i (d_events (sy_db s)))"
  using user_table.exact_reachable [OF assms] product_table.exact_reachable [OF assms] order_table.exact_reachable [OF assms]
  by (auto simp: user_table.exact_def product_table.exact_def order_table.exact_def list_all_iff projected_applicable)

section \<open>Properties\<close>

text \<open>C15: no accepted event can make an aggregate unreadable: in every state the service can reach, the
  events of each user, product and order that has any fold to a state, and while the times of its
  events have years of four digits that state can be marshalled for an answer or a snapshot.\<close>

theorem accepted_events_replay:
  assumes "reachable t s"
  shows "(let es = aggregate_events AggregateUser i (d_events (sy_db s)) in es \<noteq> [] \<longrightarrow>
      (\<exists>u. fold_state userAgg i es = Inr u \<and>
        (list_all (\<lambda>e. fmt_rfc3339 (se_CreatedAt e) \<noteq> None) es \<longrightarrow> user_MarshalSnapshot u \<noteq> None))) \<and>
    (let es = aggregate_events AggregateProduct i (d_events (sy_db s)) in es \<noteq> [] \<longrightarrow>
      (\<exists>p. fold_state productAgg i es = Inr p \<and>
        (list_all (\<lambda>e. fmt_rfc3339 (se_CreatedAt e) \<noteq> None) es \<longrightarrow> product_MarshalSnapshot p \<noteq> None))) \<and>
    (let es = aggregate_events AggregateOrder i (d_events (sy_db s)) in es \<noteq> [] \<longrightarrow>
      (\<exists>ord. fold_state orderAgg i es = Inr ord \<and>
        (list_all (\<lambda>e. fmt_rfc3339 (se_CreatedAt e) \<noteq> None) es \<longrightarrow> order_MarshalSnapshot ord \<noteq> None)))"
  unfolding Let_def
  using user_total.fold_state_total [OF reachable_applicable(1) [OF assms]]
    product_total.fold_state_total [OF reachable_applicable(2) [OF assms]]
    order_total.fold_state_total [OF reachable_applicable(3) [OF assms]]
  by blast

lemma accepted_events_replay_witness:
  "\<exists>u. fold_state userAgg ''u1'' (aggregate_events AggregateUser ''u1'' (d_events late_db)) = Inr u \<and>
     user_MarshalSnapshot u \<noteq> None"
proof -
  obtain s where s: "reachable 0 s" "sy_db s = late_db" using late_reachable by blast
  have "aggregate_events AggregateUser ''u1'' (d_events late_db) \<noteq> []" by code_simp
  moreover have "list_all (\<lambda>e. fmt_rfc3339 (se_CreatedAt e) \<noteq> None) (aggregate_events AggregateUser ''u1'' (d_events late_db))"
    by code_simp
  ultimately show ?thesis using accepted_events_replay [OF s(1), of "''u1''"] s(2) by (auto simp: Let_def)
qed

end
