(* ===== verification/Catch_Up.thy ===== *)
theory Catch_Up
  imports Replayable
begin

text \<open>
  The snapshot builder of \<open>internal/worker/outbox.go\<close> comes to rest: without failures, a round of it
  takes up to twenty aggregates of each type off the list of those without a snapshot of their
  latest version, until nothing is left to do.
\<close>

section \<open>Aggregates that can be snapshotted\<close>

text \<open>The events of every aggregate of the type apply, and the state they lead to can be marshalled.\<close>

definition foldable :: "'a aggregate_ops \<Rightarrow> ('a \<Rightarrow> json option) \<Rightarrow> string \<Rightarrow> db \<Rightarrow> bool" where
  "foldable A marshal ty d \<longleftrightarrow> (\<forall>i. aggregate_rows ty i (d_events d) \<noteq> [] \<longrightarrow>
     (case apply_all A (aggregate_events ty i (d_events d)) (ag_New A i) of
        Inl x \<Rightarrow> False | Inr a \<Rightarrow> marshal a \<noteq> None))"

definition all_foldable :: "db \<Rightarrow> bool" where
  "all_foldable d \<longleftrightarrow> foldable userAgg user_MarshalSnapshot AggregateUser d \<and>
     foldable productAgg product_MarshalSnapshot AggregateProduct d \<and>
     foldable orderAgg order_MarshalSnapshot AggregateOrder d"

text \<open>There is a snapshot of the latest version.\<close>

definition covered :: "string \<Rightarrow> db \<Rightarrow> string \<Rightarrow> bool" where
  "covered ty d i \<longleftrightarrow> list_ex (\<lambda>s. snapshot_current ty d s \<and> ss_aggregate_id s = i) (d_snapshots d)"

lemma ids_to_snapshot_covered:
  "ids_to_snapshot ty d = filter (\<lambda>i. \<not> covered ty d i)
     (remdups (map ev_aggregate_id (filter (\<lambda>r. ev_aggregate_type r = ty) (d_events d))))"
  by (simp add: ids_to_snapshot_def covered_def)

lemma ids_to_snapshot_rows: "i \<in> set (ids_to_snapshot ty d) \<Longrightarrow> aggregate_rows ty i (d_events d) \<noteq> []"
  by (auto simp: ids_to_snapshot_def aggregate_rows_def filter_empty_conv)

section \<open>Snapshots are never lost\<close>

definition snapshot_keys :: "db \<Rightarrow> (string \<times> string \<times> i64) set" where
  "snapshot_keys d = (\<lambda>s. (ss_aggregate_type s, ss_aggregate_id s, ss_version s)) ` set (d_snapshots d)"

definition keeps_snapshots :: "db \<Rightarrow> db \<Rightarrow> bool" where
  "keeps_snapshots d d' \<longleftrightarrow> d_events d' = d_events d \<and> snapshot_keys d \<subseteq> snapshot_keys d'"

lemma keeps_snapshots_refl [simp]: "keeps_snapshots d d"
  by (simp add: keeps_snapshots_def)

lemma keeps_snapshots_trans: "keeps_snapshots d d' \<Longrightarrow> keeps_snapshots d' d'' \<Longrightarrow> keeps_snapshots d d''"
  unfolding keeps_snapshots_def by auto

lemma covered_keys:
  "covered ty d i \<longleftrightarrow> aggregate_rows ty i (d_events d) \<noteq> [] \<and>
     (\<exists>v \<ge> max_version (aggregate_rows ty i (d_events d)). (ty, i, v) \<in> snapshot_keys d)"
  by (force simp: covered_def snapshot_current_def list_ex_iff snapshot_keys_def)

lemma covered_keeps: "keeps_snapshots d d' \<Longrightarrow> covered ty d i \<Longrightarrow> covered ty d' i"
  unfolding covered_keys keeps_snapshots_def by auto

lemma snapshot_keys_map:
  "(\<And>s. (ss_aggregate_type (f s), ss_aggregate_id (f s), ss_version (f s)) = (ss_aggregate_type s, ss_aggregate_id s, ss_version s)) \<Longrightarrow>
     (\<lambda>s. (ss_aggregate_type s, ss_aggregate_id s, ss_version s)) ` f ` S =
     (\<lambda>s. (ss_aggregate_type s, ss_aggregate_id s, ss_version s)) ` S"
  by (simp add: image_image)

lemma Save_keeps:
  assumes "Save fl now ty i v st d = (res, d')"
  shows "keeps_snapshots d d'"
proof -
  have "(\<lambda>s. (ss_aggregate_type s, ss_aggregate_id s, ss_version s)) ` (\<lambda>r. if same_snapshot ty i v r then r\<lparr>ss_state := x\<rparr> else r) ` S =
     (\<lambda>s. (ss_aggregate_type s, ss_aggregate_id s, ss_version s)) ` S" for x S
    by (rule snapshot_keys_map) simp
  then show ?thesis
    using assms by (auto simp: Save_def Let_def keeps_snapshots_def snapshot_keys_def split: if_splits option.splits)
qed

lemma Save_seq: "Save fl now ty i v st d = (res, d') \<Longrightarrow> d_snapshot_seq d' \<le> d_snapshot_seq d + 1"
  by (auto simp: Save_def Let_def split: if_splits option.splits)

text \<open>What remains to be done can only shrink, by what was covered.\<close>

lemma ids_to_snapshot_shrinks:
  assumes "keeps_snapshots d d'" "distinct xs" "set xs \<subseteq> set (ids_to_snapshot ty d)" "\<forall>i \<in> set xs. covered ty d' i"
  shows "length (ids_to_snapshot ty d') \<le> length (ids_to_snapshot ty d) - length xs"
proof -
  have d: "distinct (ids_to_snapshot ty e)" for e by (simp add: ids_to_snapshot_def)
  have "set (ids_to_snapshot ty d') \<subseteq> set (ids_to_snapshot ty d) - set xs"
    using assms(1,4) covered_keeps [OF assms(1)] by (auto simp: ids_to_snapshot_covered keeps_snapshots_def)
  then have "card (set (ids_to_snapshot ty d')) \<le> card (set (ids_to_snapshot ty d) - set xs)" by (simp add: card_mono)
  also have "\<dots> = card (set (ids_to_snapshot ty d)) - card (set xs)" using assms(3) by (simp add: card_Diff_subset)
  finally show ?thesis using assms(2) d by (simp add: distinct_card)
qed

section \<open>One aggregate\<close>

context aggregate
begin

lemma replay_save_covers:
  assumes "db_ok d" "good_snapshots A marshal ty d" "foldable A marshal ty d"
    "aggregate_rows ty i (d_events d) \<noteq> []" "d_snapshot_seq d < 9223372036854775807"
  shows "\<exists>a d'. engine_replay A no_faults d ty i empty_query = Inr a \<and>
    Save no_faults now ty i (ag_currentVersion A a) (marshal a) d = (Inr (), d') \<and> covered ty d' i"
proof -
  let ?es = "aggregate_events ty i (d_events d)"
  have log: "log_ok (d_events d)" by (rule db_ok_log [OF assms(1)])
  have len: "length ?es = length (aggregate_rows ty i (d_events d))"
    by (rule length_aggregate_events [OF log])
  obtain b where b: "apply_all A ?es (ag_New A i) = Inr b" "marshal b \<noteq> None"
  proof -
    have "case apply_all A ?es (ag_New A i) of Inl x \<Rightarrow> False | Inr a \<Rightarrow> marshal a \<noteq> None"
      using assms(3,4) by (simp add: foldable_def)
    then show ?thesis using that by (simp split: sum.splits)
  qed
  have ne: "?es \<noteq> []" using len assms(4) by auto
  have "map_sum id norm (engine_replay A no_faults d ty i empty_query) = Inr (norm b)"
    using engine_replay_general [OF assms(1) _ _ assms(2), of no_faults i empty_query] b(1) ne by (simp add: fold_state_def)
  then obtain a where a: "engine_replay A no_faults d ty i empty_query = Inr a"
    by (cases "engine_replay A no_faults d ty i empty_query") auto
  from replay_current [OF assms(1,2) a] b(1) have m: "marshal a \<noteq> None" "ag_currentVersion A a = int (length ?es)"
    using b(2) by (metis sum.inject(2))+
  then obtain st where st: "marshal a = Some st" by blast
  obtain d' where s: "Save no_faults now ty i (ag_currentVersion A a) (marshal a) d = (Inr (), d')"
  proof -
    have "fst (Save no_faults now ty i (ag_currentVersion A a) (marshal a) d) = Inr ()"
      using assms(5) by (simp add: Save_def Let_def st nextval_def)
    then show ?thesis using that by (metis prod.collapse)
  qed
  from Save_stored [OF s [unfolded st]] obtain r where r: "r \<in> set (d_snapshots d')" "same_snapshot ty i (ag_currentVersion A a) r"
    by blast
  have "max_version (aggregate_rows ty i (d_events d)) = ag_currentVersion A a"
    using log m(2) len by (simp add: log_ok_def max_version_from_1)
  then have "covered ty d' i"
    using r Save_others [OF s] assms(4) by (auto simp: covered_def snapshot_current_def list_ex_iff same_snapshot_def)
  then show ?thesis using a s by blast
qed

end

section \<open>One round\<close>

text \<open>What a round needs, and keeps, but for the identities its saves draw.\<close>

definition can_snapshot :: "db \<Rightarrow> bool" where
  "can_snapshot d \<longleftrightarrow> db_ok d \<and> all_good_snapshots d \<and> all_foldable d"

lemma can_snapshot_keeps:
  assumes "can_snapshot d"
  shows "can_snapshot (snapshotOne fl now ty i d)"
proof -
  note o = snapshotOne_only [of d fl now ty i]
  have "d_events (snapshotOne fl now ty i d) = d_events d" using o by (simp add: only_snapshots_def)
  then show ?thesis
    using assms snapshotOne_good [of d fl now ty i] only_snapshots_db_ok [OF o]
    by (simp add: can_snapshot_def all_good_snapshots_def all_foldable_def foldable_def)
qed

lemma snapshotOne_covers:
  assumes "can_snapshot d" "aggregate_type ty" "aggregate_rows ty i (d_events d) \<noteq> []"
    "d_snapshot_seq d < 9223372036854775807"
  shows "covered ty (snapshotOne no_faults now ty i d) i \<and> keeps_snapshots d (snapshotOne no_faults now ty i d) \<and>
    d_snapshot_seq (snapshotOne no_faults now ty i d) \<le> d_snapshot_seq d + 1"
proof -
  have ok: "db_ok d" "good_snapshots userAgg user_MarshalSnapshot AggregateUser d"
    "good_snapshots productAgg product_MarshalSnapshot AggregateProduct d"
    "good_snapshots orderAgg order_MarshalSnapshot AggregateOrder d"
    "foldable userAgg user_MarshalSnapshot AggregateUser d"
    "foldable productAgg product_MarshalSnapshot AggregateProduct d"
    "foldable orderAgg order_MarshalSnapshot AggregateOrder d"
    using assms(1) by (simp_all add: can_snapshot_def all_good_snapshots_def all_foldable_def)
  consider "ty = AggregateUser" | "ty = AggregateProduct" | "ty = AggregateOrder"
    using assms(2) by (auto simp: aggregate_type_def)
  then obtain v st d' where s: "Save no_faults now ty i v st d = (Inr (), d')" "covered ty d' i"
    "snapshotOne no_faults now ty i d = snd (Save no_faults now ty i v st d)"
  proof cases
    case 1
    obtain a d' where "engine_replay userAgg no_faults d ty i empty_query = Inr a"
      "Save no_faults now ty i (ag_currentVersion userAgg a) (user_MarshalSnapshot a) d = (Inr (), d')" "covered ty d' i"
      using user_agg.replay_save_covers [OF ok(1,2,5) assms(3) [unfolded 1] assms(4), of now] 1 by blast
    then show ?thesis using that 1 by (simp add: snapshotOne_def ReplayUser_def) (simp add: agg_defs)
  next
    case 2
    obtain a d' where "engine_replay productAgg no_faults d ty i empty_query = Inr a"
      "Save no_faults now ty i (ag_currentVersion productAgg a) (product_MarshalSnapshot a) d = (Inr (), d')" "covered ty d' i"
      using product_agg.replay_save_covers [OF ok(1,3,6) assms(3) [unfolded 2] assms(4), of now] 2 by blast
    then show ?thesis using that 2 by (simp add: snapshotOne_def ReplayProduct_def) (simp add: agg_defs)
  next
    case 3
    obtain a d' where "engine_replay orderAgg no_faults d ty i empty_query = Inr a"
      "Save no_faults now ty i (ag_currentVersion orderAgg a) (order_MarshalSnapshot a) d = (Inr (), d')" "covered ty d' i"
      using order_agg.replay_save_covers [OF ok(1,4,7) assms(3) [unfolded 3] assms(4), of now] 3 by blast
    then show ?thesis using that 3 by (simp add: snapshotOne_def ReplayOrder_def) (simp add: agg_defs)
  qed
  then show ?thesis using Save_keeps [OF s(1)] Save_seq [OF s(1)] by simp
qed

lemma fold_covers:
  assumes "can_snapshot d" "aggregate_type ty" "\<forall>i \<in> set xs. aggregate_rows ty i (d_events d) \<noteq> []"
    "d_snapshot_seq d + int (length xs) \<le> 9223372036854775807"
  shows "let d' = fold (snapshotOne no_faults now ty) xs d
    in can_snapshot d' \<and> (\<forall>i \<in> set xs. covered ty d' i) \<and> keeps_snapshots d d' \<and>
       d_snapshot_seq d' \<le> d_snapshot_seq d + int (length xs)"
  using assms(1,3,4)
proof (induction xs arbitrary: d)
  case (Cons x xs)
  let ?d = "snapshotOne no_faults now ty x d"
  note c = snapshotOne_covers [OF Cons.prems(1) assms(2), of x now]
  have 1: "covered ty ?d x" "keeps_snapshots d ?d" "d_snapshot_seq ?d \<le> d_snapshot_seq d + 1" using c Cons.prems by simp_all
  have "d_events ?d = d_events d" using 1(2) by (simp add: keeps_snapshots_def)
  with Cons.IH [OF can_snapshot_keeps [OF Cons.prems(1)], of no_faults now ty x] Cons.prems 1(3)
  have 2: "let d' = fold (snapshotOne no_faults now ty) xs ?d
    in can_snapshot d' \<and> (\<forall>i \<in> set xs. covered ty d' i) \<and> keeps_snapshots ?d d' \<and>
       d_snapshot_seq d' \<le> d_snapshot_seq ?d + int (length xs)" by simp
  then show ?case
    using covered_keeps [OF _ 1(1)] keeps_snapshots_trans [OF 1(2)] 1(3) by (auto simp: Let_def)
qed (simp add: Let_def)

text \<open>A round for one type takes twenty off its list and puts none on another.\<close>

definition permutes :: "(string list \<Rightarrow> string list) \<Rightarrow> bool" where
  "permutes plan \<longleftrightarrow> (\<forall>xs. distinct xs \<longrightarrow> distinct (plan xs) \<and> set (plan xs) = set xs)"

lemma build_type_shrinks:
  assumes "can_snapshot d" "aggregate_type ty" "permutes plan" "d_snapshot_seq d + 20 \<le> 9223372036854775807"
  shows "let d' = build_type plan no_faults now ty d
    in can_snapshot d' \<and> keeps_snapshots d d' \<and> d_snapshot_seq d' \<le> d_snapshot_seq d + 20 \<and>
       length (ids_to_snapshot ty d') \<le> length (ids_to_snapshot ty d) - 20"
proof -
  let ?ids = "ids_to_snapshot ty d" and ?xs = "take 20 (plan (ids_to_snapshot ty d))"
  have d: "distinct (plan ?ids)" "set (plan ?ids) = set ?ids"
    using assms(3) by (simp_all add: permutes_def ids_to_snapshot_def)
  have sub: "set ?xs \<subseteq> set ?ids" using d(2) in_set_takeD by fastforce
  then have rows: "\<forall>i \<in> set ?xs. aggregate_rows ty i (d_events d) \<noteq> []" using ids_to_snapshot_rows by blast
  have "length (plan ?ids) = length ?ids" using d distinct_card [of ?ids] distinct_card [of "plan ?ids"]
    by (simp add: ids_to_snapshot_def)
  then have len: "length ?xs = min 20 (length ?ids)" by simp
  define d' where "d' = build_type plan no_faults now ty d"
  then have d': "d' = fold (snapshotOne no_faults now ty) ?xs d" by (simp add: build_type_def)
  have f: "can_snapshot d'" "\<forall>i \<in> set ?xs. covered ty d' i" "keeps_snapshots d d'"
    "d_snapshot_seq d' \<le> d_snapshot_seq d + int (length ?xs)"
    using fold_covers [OF assms(1,2) rows, of now] assms(4) len by (simp_all add: Let_def d')
  have "length (ids_to_snapshot ty d') \<le> length ?ids - length ?xs"
    by (rule ids_to_snapshot_shrinks [OF f(3) _ sub f(2)]) (simp add: d(1))
  moreover have "length ?xs \<le> 20" "length ?ids - length ?xs = length ?ids - 20" unfolding len by linarith+
  ultimately show ?thesis using f by (simp add: Let_def flip: d'_def)
qed

lemma ids_keep: "keeps_snapshots d d' \<Longrightarrow> length (ids_to_snapshot ty d') \<le> length (ids_to_snapshot ty d)"
  using ids_to_snapshot_shrinks [of d d' "[]" ty] by simp

lemma buildSnapshots_shrinks:
  assumes "can_snapshot d" "permutes plan" "d_snapshot_seq d + 60 \<le> 9223372036854775807"
  shows "let d' = buildSnapshots plan no_faults now d
    in can_snapshot d' \<and> d_snapshot_seq d' \<le> d_snapshot_seq d + 60 \<and>
       (\<forall>ty. aggregate_type ty \<longrightarrow> length (ids_to_snapshot ty d') \<le> length (ids_to_snapshot ty d) - 20)"
proof -
  define d1 where "d1 = build_type plan no_faults now ''user'' d"
  define d2 where "d2 = build_type plan no_faults now ''product'' d1"
  define d3 where "d3 = build_type plan no_faults now ''order'' d2"
  note b = build_type_shrinks [OF _ _ assms(2), unfolded Let_def, where now = now]
  have 1: "can_snapshot d1" "keeps_snapshots d d1" "d_snapshot_seq d1 \<le> d_snapshot_seq d + 20"
    "length (ids_to_snapshot ''user'' d1) \<le> length (ids_to_snapshot ''user'' d) - 20"
    using b [of d "''user''"] assms by (simp_all add: aggregate_type_def flip: d1_def)
  have 2: "can_snapshot d2" "keeps_snapshots d1 d2" "d_snapshot_seq d2 \<le> d_snapshot_seq d1 + 20"
    "length (ids_to_snapshot ''product'' d2) \<le> length (ids_to_snapshot ''product'' d1) - 20"
    using b [of d1 "''product''"] assms(3) 1 by (simp_all add: aggregate_type_def flip: d2_def)
  have 3: "can_snapshot d3" "keeps_snapshots d2 d3" "d_snapshot_seq d3 \<le> d_snapshot_seq d2 + 20"
    "length (ids_to_snapshot ''order'' d3) \<le> length (ids_to_snapshot ''order'' d2) - 20"
    using b [of d2 "''order''"] assms(3) 1 2 by (simp_all add: aggregate_type_def flip: d3_def)
  have d3: "buildSnapshots plan no_faults now d = d3" by (simp add: buildSnapshots_def d1_def d2_def d3_def)
  have "length (ids_to_snapshot ty d3) \<le> length (ids_to_snapshot ty d) - 20" if "aggregate_type ty" for ty
    using that 1(4) 2(4) 3(4) ids_keep [OF 1(2), of ty] ids_keep [OF 2(2), of ty] ids_keep [OF 3(2), of ty]
    unfolding aggregate_type_def by (elim disjE) (hypsubst, linarith)+
  with 1 2 3 show ?thesis by (simp add: Let_def d3)
qed

text \<open>A round with nothing to do does nothing.\<close>

lemma buildSnapshots_rests:
  assumes "\<And>ty. aggregate_type ty \<Longrightarrow> ids_to_snapshot ty d = []" "permutes plan"
  shows "buildSnapshots plan fl now d = d"
proof -
  have "plan [] = []" using assms(2) by (auto simp: permutes_def dest: spec [of _ "[]"])
  then show ?thesis
    using assms(1) by (simp add: buildSnapshots_def build_type_def aggregate_type_def)
qed

text \<open>In a reachable state every aggregate is foldable, while the times have years of four digits.\<close>

definition times_show :: "db \<Rightarrow> bool" where
  "times_show d \<longleftrightarrow> (\<forall>ty i. list_all (\<lambda>e. fmt_rfc3339 (se_CreatedAt e) \<noteq> None) (aggregate_events ty i (d_events d)))"

lemma fold_state_foldable:
  assumes "log_ok (d_events d)" "times_show d"
    and "\<And>i. aggregate_events ty i (d_events d) \<noteq> [] \<Longrightarrow> \<exists>a. fold_state A i (aggregate_events ty i (d_events d)) = Inr a \<and>
      (list_all (\<lambda>e. fmt_rfc3339 (se_CreatedAt e) \<noteq> None) (aggregate_events ty i (d_events d)) \<longrightarrow> marshal a \<noteq> None)"
  shows "foldable A marshal ty d"
  unfolding foldable_def
proof (intro allI impI)
  fix i
  assume rows: "aggregate_rows ty i (d_events d) \<noteq> []"
  then have ne: "aggregate_events ty i (d_events d) \<noteq> []"
    using length_aggregate_events [OF assms(1), of ty i] by auto
  from assms(3) [OF this] assms(2)
  obtain a where a: "fold_state A i (aggregate_events ty i (d_events d)) = Inr a" "marshal a \<noteq> None"
    by (auto simp: times_show_def)
  with ne show "case apply_all A (aggregate_events ty i (d_events d)) (ag_New A i) of
      Inl x \<Rightarrow> False | Inr a \<Rightarrow> marshal a \<noteq> None"
    by (simp add: fold_state_def split: sum.splits)
qed

lemma reachable_can_snapshot:
  assumes "reachable t s" "all_good_snapshots (sy_db s)" "times_show (sy_db s)"
  shows "can_snapshot (sy_db s)"
proof -
  have ok: "db_ok (sy_db s)" using reachable_ok [OF assms(1)] by (simp add: sys_ok_def)
  note f = fold_state_foldable [OF db_ok_log [OF ok] assms(3)]
  note a = reachable_applicable [OF assms(1)]
  show ?thesis
    using ok assms(2) f [OF user_total.fold_state_total [OF a(1)]] f [OF product_total.fold_state_total [OF a(2)]]
      f [OF order_total.fold_state_total [OF a(3)]]
    by (simp add: can_snapshot_def all_foldable_def)
qed

section \<open>Properties\<close>

text \<open>C25: without failures the snapshot builder comes to rest, whatever order the database picks the
  aggregates in: after as many ticks as it takes at twenty aggregates of each type a tick, every
  aggregate has a snapshot of its latest version, and every further round, failures or not, changes
  nothing. It takes good snapshots, events that can be replayed and marshalled, as those of reachable
  states can (\<open>reachable_can_snapshot\<close>), and a sequence of snapshots that does not run out.\<close>

theorem snapshot_builder_rests:
  assumes "can_snapshot d" "list_all (\<lambda>s. \<exists>plan now. s = Tick (plan, no_faults, now) \<and> permutes plan) sigs"
    and "d_snapshot_seq d + 60 * int (length sigs) \<le> 9223372036854775807"
    and "length (ids_to_snapshot AggregateUser d) \<le> 20 * length sigs"
      "length (ids_to_snapshot AggregateProduct d) \<le> 20 * length sigs"
      "length (ids_to_snapshot AggregateOrder d) \<le> 20 * length sigs"
  shows "ids_to_snapshot AggregateUser (SnapshotBuilder_Run sigs d) = [] \<and>
    ids_to_snapshot AggregateProduct (SnapshotBuilder_Run sigs d) = [] \<and>
    ids_to_snapshot AggregateOrder (SnapshotBuilder_Run sigs d) = [] \<and>
    (permutes plan \<longrightarrow> buildSnapshots plan fl now (SnapshotBuilder_Run sigs d) = SnapshotBuilder_Run sigs d)"
proof -
  have "length (ids_to_snapshot ty (SnapshotBuilder_Run sigs d)) \<le> length (ids_to_snapshot ty d) - 20 * length sigs"
    if "aggregate_type ty" for ty
    using assms(1-3)
  proof (induction sigs d rule: SnapshotBuilder_Run.induct)
    case (3 plan fl now sigs d)
    then have p: "fl = no_faults" "permutes plan" by auto
    note b = buildSnapshots_shrinks [OF "3.prems"(1) p(2), of now, unfolded Let_def]
    have s: "d_snapshot_seq d + 60 \<le> 9223372036854775807" using "3.prems"(3) by simp
    have "length (ids_to_snapshot ty (SnapshotBuilder_Run sigs (buildSnapshots plan fl now d)))
        \<le> length (ids_to_snapshot ty (buildSnapshots plan fl now d)) - 20 * length sigs"
      by (rule "3.IH") (use b [OF s] "3.prems" p in simp_all)
    moreover have "length (ids_to_snapshot ty (buildSnapshots plan fl now d)) \<le> length (ids_to_snapshot ty d) - 20"
      using b [OF s] p(1) that by simp
    ultimately show ?case by simp
  qed auto
  then have rest: "ids_to_snapshot ty (SnapshotBuilder_Run sigs d) = []" if "aggregate_type ty" for ty
    using that assms(4-6) unfolding aggregate_type_def by fastforce
  moreover have "buildSnapshots plan fl now (SnapshotBuilder_Run sigs d) = SnapshotBuilder_Run sigs d" if "permutes plan"
    using buildSnapshots_rests [OF rest that] .
  ultimately show ?thesis by (simp add: aggregate_type_def)
qed

lemma snapshot_builder_rests_witness:
  "ids_to_snapshot AggregateUser (SnapshotBuilder_Run [Tick (\<lambda>xs. xs, no_faults, 3000000)] (sample_db [sample_snapshot1])) = [] \<and>
   ids_to_snapshot AggregateUser (sample_db [sample_snapshot1]) = [''u1'']"
proof -
  let ?d = "sample_db [sample_snapshot1]"
  have rows: "aggregate_rows AggregateUser i (d_events ?d) \<noteq> [] \<Longrightarrow> i = ''u1''"
    "aggregate_rows AggregateProduct i (d_events ?d) = []" "aggregate_rows AggregateOrder i (d_events ?d) = []" for i
    by (simp_all add: sample_db_def aggregate_rows_def new_event_row_def sample_created_def sample_renamed_def split: if_splits)
  have "(case apply_all userAgg (aggregate_events AggregateUser ''u1'' (d_events ?d)) (ag_New userAgg ''u1'') of
        Inl x \<Rightarrow> False | Inr a \<Rightarrow> user_MarshalSnapshot a \<noteq> None)" by code_simp
  with rows have "all_foldable ?d" by (auto simp: all_foldable_def foldable_def)
  then have "can_snapshot ?d" by (simp add: can_snapshot_def sample_db_ok sample_all_good)
  moreover have "permutes (\<lambda>xs. xs)" by (simp add: permutes_def)
  moreover have "ids_to_snapshot AggregateUser ?d = [''u1'']" "ids_to_snapshot AggregateProduct ?d = []"
    "ids_to_snapshot AggregateOrder ?d = []" "d_snapshot_seq ?d \<le> 100"
    by (code_simp, code_simp, code_simp, code_simp)
  ultimately show ?thesis
    using snapshot_builder_rests [of ?d "[Tick (\<lambda>xs. xs, no_faults, 3000000)]" "\<lambda>xs. xs" no_faults 0] by simp
qed

end
