(* ===== verification/Temporal_Query.thy ===== *)
theory Temporal_Query
  imports Domain
begin

text \<open>
  \<open>internal/temporal/query.go\<close>: replay queries from the text of request parameters. An error is
  reported beside the query as far as it was built.
\<close>

section \<open>Operations\<close>

definition ParseReplayQuery :: "string \<Rightarrow> string \<Rightarrow> replay_query \<times> bool" where
  "ParseReplayQuery at version =
     (case (if at = [] then Some None else map_option Some (parse_rfc3339 at)) of
        None \<Rightarrow> (empty_query, False)
      | Some t \<Rightarrow> (let q = empty_query\<lparr>rq_At := t\<rparr>
          in if version = [] then (q, True)
             else (case parse_int64 version of
                     None \<Rightarrow> (q, False)
                   | Some n \<Rightarrow> (q\<lparr>rq_Version := Some n\<rparr>, True))))"

text \<open>The second component says that there was no error.\<close>

definition ParseBound :: "string \<Rightarrow> replay_query \<times> bool" where
  "ParseBound value =
     (if value = [] then (empty_query, True)
      else if has_prefix value ''v'' then
        (case parse_int64 (trim_prefix value ''v'') of
           None \<Rightarrow> (empty_query, False)
         | Some n \<Rightarrow> (at_version n, True))
      else (case parse_int64 value of
              Some n \<Rightarrow> (at_version n, True)
            | None \<Rightarrow> (case parse_rfc3339 value of
                  None \<Rightarrow> (empty_query, False)
                | Some t \<Rightarrow> (at_time t, True))))"

section \<open>Lemmas\<close>

lemma digits_val_all_digits: "digits_val acc s = Some n \<Longrightarrow> list_all is_digit s"
  by (induction s arbitrary: acc) (auto split: if_splits)

lemma show_int_Cons:
  obtains c cs where "show_int n = c # cs" "is_digit c \<or> c = CHR ''-''"
proof -
  obtain c cs where "show_nat \<bar>n\<bar> = c # cs" "is_digit c" using show_nat_Cons [of "\<bar>n\<bar>"] by auto
  then show ?thesis using that by (cases "n < 0") (auto simp: show_int_def)
qed

lemma no_prefix_v: "is_digit c \<or> c = CHR ''-'' \<Longrightarrow> \<not> has_prefix (c # cs) ''v''"
  by (auto simp: is_digit_def byte_val_def)

text \<open>An RFC 3339 text starts with a digit and is not a number.\<close>

lemma fmt_rfc3339_text:
  assumes "fmt_rfc3339 t = Some s"
  obtains c cs where "s = c # cs" "is_digit c" "parse_int64 s = None"
proof -
  obtain y rest where s: "s = pad 4 y @ CHR ''-'' # rest"
    using assms by (auto simp: fmt_rfc3339_def Let_def split: prod.splits if_splits)
  obtain c cs where c: "pad 4 y = c # cs" by (metis length_0_conv list.exhaust pad_length zero_neq_numeral)
  have "is_digit c" using pad_digits [of 4 y] c by simp
  moreover have "\<not> list_all is_digit s" unfolding s by (simp add: is_digit_def byte_val_def)
  then have "digits_val 0 s = None" using digits_val_all_digits by (cases "digits_val 0 s") auto
  then have "parse_int64 s = None"
    using is_digit_not_sign [OF \<open>is_digit c\<close>] c s by (simp add: parse_int64_def parse_uint_def)
  ultimately show ?thesis using that c s by simp
qed

section \<open>Properties\<close>

text \<open>A bound written as a version number, with or without the letter v, or as the RFC 3339 text of a
  time, is parsed to the query for that version or that instant.\<close>

theorem parse_bound_roundtrip:
  assumes "in_i64 n" "fmt_rfc3339 t = Some s" "zone_offset (t_loc t) = 0"
  shows "ParseBound (show_int n) = (at_version n, True) \<and>
    ParseBound (CHR ''v'' # show_int n) = (at_version n, True) \<and>
    ParseBound s = (at_time (in_utc t), True)"
proof -
  obtain c cs where c: "show_int n = c # cs" "is_digit c \<or> c = CHR ''-''" by (rule show_int_Cons)
  have "\<not> has_prefix (show_int n) ''v''" unfolding c(1) by (rule no_prefix_v [OF c(2)])
  then have "ParseBound (show_int n) = (at_version n, True)"
    using c(1) parse_int64_show_int [OF assms(1)] by (simp add: ParseBound_def)
  moreover have "ParseBound (CHR ''v'' # show_int n) = (at_version n, True)"
    using parse_int64_show_int [OF assms(1)] trim_prefix_append [of "''v''" "show_int n"]
    by (simp add: ParseBound_def)
  moreover obtain d ds where d: "s = d # ds" "is_digit d" "parse_int64 s = None"
    by (rule fmt_rfc3339_text [OF assms(2)])
  have "\<not> has_prefix s ''v''" unfolding d(1) by (rule no_prefix_v) (simp add: d(2))
  then have "ParseBound s = (at_time (in_utc t), True)"
    using d(1,3) parse_fmt_rfc3339 [OF assms(2,3)] by (simp add: ParseBound_def)
  ultimately show ?thesis by simp
qed

lemma parse_bound_roundtrip_witness:
  "ParseBound (show_int 12) = (at_version 12, True) \<and>
   ParseBound ''1970-01-01T00:00:01Z'' = (at_time (GoTime 1000000000 UTC), True)"
proof -
  have "fmt_rfc3339 (GoTime 1000000000 UTC) = Some ''1970-01-01T00:00:01Z''" by code_simp
  from parse_bound_roundtrip [OF _ this, of 12] show ?thesis by (simp add: in_utc_def)
qed

text \<open>The parameters of a query are both kept, an absent one is no bound, and a text that is no time
  or no 64-bit number is an error.\<close>

theorem parse_replay_query_cases:
  "ParseReplayQuery [] [] = (empty_query, True) \<and>
   (\<forall>n. in_i64 n \<longrightarrow> ParseReplayQuery [] (show_int n) = (at_version n, True)) \<and>
   (\<forall>s t. s \<noteq> [] \<and> parse_rfc3339 s = Some t \<longrightarrow> ParseReplayQuery s [] = (at_time t, True)) \<and>
   (\<forall>s t n. s \<noteq> [] \<and> parse_rfc3339 s = Some t \<and> in_i64 n \<longrightarrow>
      ParseReplayQuery s (show_int n) = (\<lparr>rq_At = Some t, rq_Version = Some n, rq_UntilID = None\<rparr>, True)) \<and>
   (\<forall>s v. s \<noteq> [] \<and> parse_rfc3339 s = None \<longrightarrow> \<not> snd (ParseReplayQuery s v)) \<and>
   (\<forall>v. v \<noteq> [] \<and> parse_int64 v = None \<longrightarrow> \<not> snd (ParseReplayQuery [] v))"
proof -
  have "show_int n \<noteq> []" for n using show_int_Cons [of n] by fastforce
  then show ?thesis
    by (auto simp: ParseReplayQuery_def at_version_def at_time_def empty_query_def parse_int64_show_int Let_def
        split: option.split)
qed

lemma parse_replay_query_cases_witness:
  "ParseReplayQuery [] (show_int 7) = (at_version 7, True) \<and> \<not> snd (ParseReplayQuery [] ''seven'')"
proof -
  have "parse_int64 ''seven'' = None" by code_simp
  with parse_replay_query_cases show ?thesis by simp
qed

end
