(* ===== verification/Replay_Cache.thy ===== *)
theory Replay_Cache
  imports Workers Temporal_Query
begin

text \<open>
  \<open>internal/cache/redis.go\<close>: the cache of replayed users. Redis is a map from keys to documents; an
  entry may disappear at any time (its time to live runs out), and a read or a write may fail.
\<close>

section \<open>Operations\<close>

type_synonym redis = "string \<rightharpoonup> json"

definition cacheKey :: "string \<Rightarrow> string \<Rightarrow> replay_query \<Rightarrow> string" where
  "cacheKey aggregateType i query =
     ''replay:'' @ aggregateType @ '':'' @ i @
       (case rq_Version query of
          Some v \<Rightarrow> '':v:'' @ show_int v
        | None \<Rightarrow> (case rq_At query of
              Some t \<Rightarrow> '':at:'' @ show_int (unix_nano t)
            | None \<Rightarrow> '':current''))"

text \<open>
  \<open>present\<close> is \<open>c.client != nil\<close>; \<open>get_ok\<close> and \<open>set_ok\<close> say whether Redis answers. A document that
  does not decode into a new user is ignored.
\<close>

definition cache_ReplayUser :: "bool \<Rightarrow> bool \<Rightarrow> bool \<Rightarrow> faults \<Rightarrow> db \<Rightarrow> string \<Rightarrow> replay_query \<Rightarrow> redis
    \<Rightarrow> user result \<times> redis" where
  "cache_ReplayUser present get_ok set_ok fl d i query r =
     (if \<not> present then (ReplayUser fl d i query, r)
      else (let key = cacheKey ''user'' i query;
                hit = (if get_ok then Option.bind (r key) (\<lambda>raw. user_UnmarshalSnapshot raw (user_New [])) else None)
            in case hit of
                 Some u \<Rightarrow> (Inr u, r)
               | None \<Rightarrow> (case ReplayUser fl d i query of
                     Inl e \<Rightarrow> (Inl e, r)
                   | Inr u \<Rightarrow> (Inr u, (case user_MarshalSnapshot u of
                         None \<Rightarrow> r
                       | Some raw \<Rightarrow> if set_ok then r(key \<mapsto> raw) else r)))))"

section \<open>Lemmas\<close>

text \<open>What a key says of a query: the version, else the time as nanoseconds, else the present.\<close>

datatype key_part = KeyVersion i64 | KeyTime i64 | KeyCurrent

definition key_part :: "replay_query \<Rightarrow> key_part" where
  "key_part q = (case rq_Version q of Some v \<Rightarrow> KeyVersion v
     | None \<Rightarrow> (case rq_At q of Some t \<Rightarrow> KeyTime (unix_nano t) | None \<Rightarrow> KeyCurrent))"

definition key_suffix :: "key_part \<Rightarrow> string" where
  "key_suffix k = (case k of KeyVersion v \<Rightarrow> '':v:'' @ show_int v
     | KeyTime n \<Rightarrow> '':at:'' @ show_int n | KeyCurrent \<Rightarrow> '':current'')"

lemma cacheKey_suffix: "cacheKey ty i q = ''replay:'' @ ty @ '':'' @ i @ key_suffix (key_part q)"
  by (simp add: cacheKey_def key_suffix_def key_part_def split: option.split)

text \<open>The text after the last colon, and what is before it, are determined by the whole.\<close>

lemma first_sep_unique:
  "s @ c # xs = t @ c # ys \<Longrightarrow> c \<notin> set s \<Longrightarrow> c \<notin> set t \<Longrightarrow> s = t \<and> xs = ys"
proof (induction s arbitrary: t)
  case Nil
  then show ?case by (cases t) auto
next
  case (Cons a s)
  then show ?case by (cases t) auto
qed

lemma last_colon_unique:
  assumes "xs @ CHR '':'' # s = ys @ CHR '':'' # t" "CHR '':'' \<notin> set s" "CHR '':'' \<notin> set t"
  shows "xs = ys \<and> s = t"
proof -
  have "rev s @ CHR '':'' # rev xs = rev t @ CHR '':'' # rev ys"
    using arg_cong [OF assms(1), of rev] by simp
  from first_sep_unique [OF this] assms(2,3) show ?thesis by simp
qed

lemma show_int_not_current: "show_int n \<noteq> ''current''"
proof -
  obtain c cs where "show_int n = c # cs" "is_digit c \<or> c = CHR ''-''" by (rule show_int_Cons)
  then show ?thesis by (auto simp: is_digit_def byte_val_def)
qed

lemma key_suffix_inj:
  assumes "i @ key_suffix a = j @ key_suffix b"
  shows "i = j \<and> a = b"
proof -
  have no: "CHR '':'' \<notin> set ''current''" by simp
  note nc = show_int_no_colon
  note ne = show_int_not_current
  show ?thesis
  proof (cases a; cases b)
    fix v w assume ab: "a = KeyVersion v" "b = KeyVersion w"
    then have "(i @ '':v'') @ CHR '':'' # show_int v = (j @ '':v'') @ CHR '':'' # show_int w"
      using assms by (simp add: key_suffix_def)
    from last_colon_unique [OF this nc nc] ab show ?thesis by simp
  next
    fix v w assume ab: "a = KeyVersion v" "b = KeyTime w"
    then have "(i @ '':v'') @ CHR '':'' # show_int v = (j @ '':at'') @ CHR '':'' # show_int w"
      using assms by (simp add: key_suffix_def)
    from last_colon_unique [OF this nc nc] have "last (i @ '':v'') = last (j @ '':at'')" by metis
    then show ?thesis by simp
  next
    fix v w assume ab: "a = KeyTime v" "b = KeyVersion w"
    then have "(i @ '':at'') @ CHR '':'' # show_int v = (j @ '':v'') @ CHR '':'' # show_int w"
      using assms by (simp add: key_suffix_def)
    from last_colon_unique [OF this nc nc] have "last (i @ '':at'') = last (j @ '':v'')" by metis
    then show ?thesis by simp
  next
    fix v w assume ab: "a = KeyTime v" "b = KeyTime w"
    then have "(i @ '':at'') @ CHR '':'' # show_int v = (j @ '':at'') @ CHR '':'' # show_int w"
      using assms by (simp add: key_suffix_def)
    from last_colon_unique [OF this nc nc] ab show ?thesis by simp
  next
    fix v assume ab: "a = KeyVersion v" "b = KeyCurrent"
    then have "(i @ '':v'') @ CHR '':'' # show_int v = j @ CHR '':'' # ''current''"
      using assms by (simp add: key_suffix_def)
    from last_colon_unique [OF this nc no] ne show ?thesis by blast
  next
    fix v assume ab: "a = KeyTime v" "b = KeyCurrent"
    then have "(i @ '':at'') @ CHR '':'' # show_int v = j @ CHR '':'' # ''current''"
      using assms by (simp add: key_suffix_def)
    from last_colon_unique [OF this nc no] ne show ?thesis by blast
  next
    fix v assume ab: "a = KeyCurrent" "b = KeyVersion v"
    then have "i @ CHR '':'' # ''current'' = (j @ '':v'') @ CHR '':'' # show_int v"
      using assms by (simp add: key_suffix_def)
    from last_colon_unique [OF this no nc] ne show ?thesis by metis
  next
    fix v assume ab: "a = KeyCurrent" "b = KeyTime v"
    then have "i @ CHR '':'' # ''current'' = (j @ '':at'') @ CHR '':'' # show_int v"
      using assms by (simp add: key_suffix_def)
    from last_colon_unique [OF this no nc] ne show ?thesis by metis
  qed (use assms in \<open>simp add: key_suffix_def\<close>)
qed

section \<open>Properties\<close>

text \<open>Two users or two queries share a cache key exactly when the user is the same and the queries
  agree on the version, or have none and agree on the time in wrapped nanoseconds, or have neither;
  an identifier that contains colons cannot forge another one's key. What the key leaves out is the
  time beside a version, and the event identity always.\<close>

theorem cache_key_collisions:
  "cacheKey ty i q = cacheKey ty j q' \<longleftrightarrow> i = j \<and>
     (case (rq_Version q, rq_Version q') of
        (Some v, Some w) \<Rightarrow> v = w
      | (None, None) \<Rightarrow> (case (rq_At q, rq_At q') of
            (Some t, Some u) \<Rightarrow> unix_nano t = unix_nano u
          | (None, None) \<Rightarrow> True
          | _ \<Rightarrow> False)
      | _ \<Rightarrow> False)"
proof -
  have "cacheKey ty i q = cacheKey ty j q' \<longleftrightarrow> i = j \<and> key_part q = key_part q'"
    using key_suffix_inj [of i "key_part q" j "key_part q'"] by (auto simp: cacheKey_suffix)
  then show ?thesis
    by (auto simp: key_part_def split: option.splits)
qed

text \<open>A cached answer is returned by the next call with the same key, its timestamps in UTC.\<close>

lemma cache_hit:
  assumes "cache_ReplayUser True get_ok True fl d i q r = (Inr u, r')" "r (cacheKey ''user'' i q) = None"
    "user_local u" "user_MarshalSnapshot u \<noteq> None" "cacheKey ''user'' i q' = cacheKey ''user'' i q"
  shows "cache_ReplayUser True True set_ok fl' d' i q' r' = (Inr (user_utc u), r')"
proof -
  obtain raw where raw: "user_MarshalSnapshot u = Some raw" using assms(4) by blast
  then have "r' = r(cacheKey ''user'' i q \<mapsto> raw)"
    using assms(1,2) by (auto simp: cache_ReplayUser_def Let_def split: sum.splits option.splits if_splits)
  then show ?thesis
    using user_snapshot_roundtrip [OF raw assms(3), of "[]"] assms(5) by (simp add: cache_ReplayUser_def Let_def)
qed

lemma cache_miss:
  "cache_ReplayUser True get_ok set_ok fl d i q r = (Inr u, r') \<Longrightarrow> r (cacheKey ''user'' i q) = None \<Longrightarrow>
     ReplayUser fl d i q = Inr u"
  by (auto simp: cache_ReplayUser_def Let_def split: sum.splits option.splits if_splits)

text \<open>C34: an answer of the cache for a version the user had reached, computed and stored when the snapshots of
  users hold the states their versions say, stays right: in every later database (more events, other
  snapshots) whose snapshots of users still do, the cache returns what a fresh replay returns, in UTC.
  (Where the user service has saved a snapshot of that version in between, the two can differ.)\<close>

theorem cached_version_stays_right:
  assumes "db_ok d" "users_good d" "v \<le> int (length (aggregate_events AggregateUser i (d_events d)))"
    "cache_ReplayUser True get_ok True no_faults d i (at_version v) r = (Inr u, r')"
    "r (cacheKey ''user'' i (at_version v)) = None" "user_MarshalSnapshot u \<noteq> None"
    "db_ok d'" "users_good d'" "d_events d' = d_events d @ rows"
  shows "fst (cache_ReplayUser True True set_ok no_faults d' i (at_version v) r')
    = map_sum id user_utc (ReplayUser no_faults d' i (at_version v))"
proof -
  have u: "ReplayUser no_faults d i (at_version v) = Inr u" by (rule cache_miss [OF assms(4,5)])
  have "user_local u"
    using assms(2) u unfolding users_good_def ReplayUser_def
    by (blast intro: user_agg.engine_replay_ok [OF assms(1)])
  then have hit: "fst (cache_ReplayUser True True set_ok no_faults d' i (at_version v) r') = Inr (user_utc u)"
    using cache_hit [OF assms(4,5) _ assms(6) refl] by simp
  have rep: "map_sum id user_utc (ReplayUser no_faults d i (at_version v)) = map_sum id user_utc
      (fold_state userAgg i (take (nat v) (aggregate_events AggregateUser i (d_events d))))"
    if "db_ok d" "users_good d" for d
    using replay_version_fold(1) [of d no_faults] that by simp
  have "take (nat v) (aggregate_events AggregateUser i (d_events d')) = take (nat v) (aggregate_events AggregateUser i (d_events d))"
    using assms(3,9) by (simp add: aggregate_events_append)
  then have "map_sum id user_utc (ReplayUser no_faults d' i (at_version v)) = map_sum id user_utc (ReplayUser no_faults d i (at_version v))"
    using rep [OF assms(1,2)] rep [OF assms(7,8)] by simp
  with u hit show ?thesis by simp
qed

lemma cached_version_stays_right_witness:
  "\<exists>r. fst (cache_ReplayUser True True True no_faults (sample_db [sample_snapshot2]) ''u1'' (at_version 1) r)
     = map_sum id user_utc (ReplayUser no_faults (sample_db [sample_snapshot2]) ''u1'' (at_version 1)) \<and>
     r (cacheKey ''user'' ''u1'' (at_version 1)) \<noteq> None"
proof -
  let ?a = "cache_ReplayUser True True True no_faults (sample_db []) ''u1'' (at_version 1) Map.empty"
  have c: "\<not> isl (fst ?a)" "user_MarshalSnapshot (projr (fst ?a)) \<noteq> None"
    "snd ?a (cacheKey ''user'' ''u1'' (at_version 1)) \<noteq> None"
    by (code_simp, code_simp, code_simp)
  then obtain u r where a: "?a = (Inr u, r)" by (cases ?a; cases "fst ?a") auto
  have "d_events (sample_db [sample_snapshot2]) = d_events (sample_db [])" by (simp add: sample_db_def)
  with cached_version_stays_right [OF sample_db_ok _ _ a, of "sample_db [sample_snapshot2]" "[]" True] c a show ?thesis
    by (intro exI [of _ r]) (simp add: sample_db_ok sample_all_good [unfolded all_good_iff] sample_events)
qed

text \<open>The sample log before the rename.\<close>

definition sample_before :: db where
  "sample_before = (sample_db [])\<lparr>d_events := [new_event_row 1000000 1 sample_created], d_event_seq := 1\<rparr>"

text \<open>What the key leaves out, the cache gets wrong. An answer for a version that does not exist yet,
  or for the present, is returned unchanged after the user was renamed; and a query for a version and
  a time is answered with the entry of the version alone.\<close>

theorem cache_serves_other_state:
  "(let (a, r) = cache_ReplayUser True True True no_faults sample_before ''u1'' empty_query Map.empty
    in map_sum id u_Name (fst (cache_ReplayUser True True True no_faults (sample_db []) ''u1'' empty_query r)) = Inr ''Ann'' \<and>
       map_sum id u_Name (ReplayUser no_faults (sample_db []) ''u1'' empty_query) = Inr ''Bob'') \<and>
   (let (a, r) = cache_ReplayUser True True True no_faults sample_before ''u1'' (at_version 2) Map.empty
    in map_sum id u_Name (fst (cache_ReplayUser True True True no_faults (sample_db []) ''u1'' (at_version 2) r)) = Inr ''Ann'' \<and>
       map_sum id u_Name (ReplayUser no_faults (sample_db []) ''u1'' (at_version 2)) = Inr ''Bob'') \<and>
   (let (a, r) = cache_ReplayUser True True True no_faults (sample_db []) ''u1'' (at_version 2) Map.empty;
        q = (at_version 2)\<lparr>rq_At := Some (GoTime 1500000000 UTC)\<rparr>
    in map_sum id u_Name (fst (cache_ReplayUser True True True no_faults (sample_db []) ''u1'' q r)) = Inr ''Bob'' \<and>
       map_sum id u_Name (ReplayUser no_faults (sample_db []) ''u1'' q) = Inr ''Ann'')"
  by (intro conjI) code_simp+

end
