(* ===== verification/Diff_Engine.thy ===== *)
theory Diff_Engine
  imports User_Aggregate Product_Aggregate Order_Aggregate
begin

text \<open>
  \<open>internal/diff/engine.go\<close>: the comparison of two \<open>map[string]any\<close>. Go visits the keys of a map
  in an order it does not fix: \<open>to_order\<close> and \<open>from_order\<close> are the orders of one execution.
\<close>

section \<open>Operations\<close>

definition compare_to :: "(string \<rightharpoonup> anyval) \<Rightarrow> (string \<rightharpoonup> anyval) \<Rightarrow> string \<Rightarrow> diff_result \<Rightarrow> diff_result" where
  "compare_to from_map to_map k result =
     (case to_map k of
        None \<Rightarrow> result
      | Some toVal \<Rightarrow> (case from_map k of
            None \<Rightarrow> result\<lparr>dr_Changed := dr_Changed result @ [k],
                dr_Fields := (dr_Fields result)(k \<mapsto> \<lparr>fc_From = None, fc_To = Some toVal\<rparr>)\<rparr>
          | Some fromVal \<Rightarrow>
              if fromVal \<noteq> toVal then
                result\<lparr>dr_Changed := dr_Changed result @ [k],
                  dr_Fields := (dr_Fields result)(k \<mapsto> \<lparr>fc_From = Some fromVal, fc_To = Some toVal\<rparr>)\<rparr>
              else result))"

text \<open>After the first loop \<open>seen\<close> holds exactly the keys of \<open>to\<close>.\<close>

definition compare_from :: "(string \<rightharpoonup> anyval) \<Rightarrow> (string \<rightharpoonup> anyval) \<Rightarrow> string \<Rightarrow> diff_result \<Rightarrow> diff_result" where
  "compare_from from_map to_map k result =
     (if to_map k \<noteq> None then result
      else (case from_map k of
              None \<Rightarrow> result
            | Some fromVal \<Rightarrow> result\<lparr>dr_Changed := dr_Changed result @ [k],
                dr_Fields := (dr_Fields result)(k \<mapsto> \<lparr>fc_From = Some fromVal, fc_To = None\<rparr>)\<rparr>))"

definition Compare :: "string list \<Rightarrow> string list \<Rightarrow> (string \<rightharpoonup> anyval) \<Rightarrow> (string \<rightharpoonup> anyval) \<Rightarrow> diff_result" where
  "Compare from_order to_order from_map to_map =
     fold (compare_from from_map to_map) from_order
       (fold (compare_to from_map to_map) to_order
         \<lparr>dr_Changed = [], dr_From = from_map, dr_To = to_map, dr_Fields = Map.empty\<rparr>)"

section \<open>Lemmas\<close>

text \<open>An order in which the keys of a map may be visited.\<close>

definition key_order :: "string list \<Rightarrow> (string \<rightharpoonup> 'v) \<Rightarrow> bool" where
  "key_order ks m \<longleftrightarrow> distinct ks \<and> set ks = dom m"

definition change_at :: "(string \<rightharpoonup> anyval) \<Rightarrow> (string \<rightharpoonup> anyval) \<Rightarrow> string \<Rightarrow> field_change option" where
  "change_at from_map to_map k =
     (if from_map k = to_map k then None else Some \<lparr>fc_From = from_map k, fc_To = to_map k\<rparr>)"

lemma compare_to_step:
  "compare_to f t k r = (if t k \<noteq> None \<and> f k \<noteq> t k
     then r\<lparr>dr_Changed := dr_Changed r @ [k], dr_Fields := (dr_Fields r)(k := change_at f t k)\<rparr> else r)"
  by (auto simp: compare_to_def change_at_def split: option.split)

lemma compare_from_step:
  "compare_from f t k r = (if t k = None \<and> f k \<noteq> t k
     then r\<lparr>dr_Changed := dr_Changed r @ [k], dr_Fields := (dr_Fields r)(k := change_at f t k)\<rparr> else r)"
  by (auto simp: compare_from_def change_at_def split: option.split)

text \<open>A loop that records the keys which satisfy \<open>P\<close>.\<close>

lemma fold_record:
  assumes "\<And>k r. step k r = (if P k then r\<lparr>dr_Changed := dr_Changed r @ [k],
     dr_Fields := (dr_Fields r)(k := c k)\<rparr> else r)"
  shows "fold step ks r = r\<lparr>dr_Changed := dr_Changed r @ filter P ks,
     dr_Fields := (\<lambda>k. if k \<in> set ks \<and> P k then c k else dr_Fields r k)\<rparr>"
proof (induction ks arbitrary: r)
  case (Cons k ks)
  show ?case
    unfolding fold_simps comp_apply Cons.IH
    by (cases r) (auto simp: assms fun_eq_iff)
qed simp

lemma Compare_eq:
  "Compare from_order to_order f t =
     \<lparr>dr_Changed = filter (\<lambda>k. t k \<noteq> None \<and> f k \<noteq> t k) to_order @ filter (\<lambda>k. t k = None \<and> f k \<noteq> t k) from_order,
      dr_From = f, dr_To = t,
      dr_Fields = (\<lambda>k. if k \<in> set from_order \<and> t k = None \<and> f k \<noteq> t k \<or> k \<in> set to_order \<and> t k \<noteq> None \<and> f k \<noteq> t k
                      then change_at f t k else None)\<rparr>"
  by (auto simp: Compare_def fold_record [OF compare_to_step] fold_record [OF compare_from_step] fun_eq_iff)

lemma Compare_changed:
  assumes "key_order from_order f" "key_order to_order t"
  shows "set (dr_Changed (Compare from_order to_order f t)) = {k. f k \<noteq> t k}"
proof -
  have "k \<in> set to_order \<longleftrightarrow> t k \<noteq> None" "k \<in> set from_order \<longleftrightarrow> f k \<noteq> None" for k
    using assms by (auto simp: key_order_def)
  then have "k \<in> set (dr_Changed (Compare from_order to_order f t)) \<longleftrightarrow> f k \<noteq> t k" for k
    by (cases "f k"; cases "t k") (simp_all add: Compare_eq)
  then show ?thesis by blast
qed

section \<open>Properties\<close>

text \<open>Whatever order the maps are visited in, the diff names each key whose values differ exactly
  once, gives its value on both sides (nil where the key is missing), and reports nothing else.\<close>

theorem compare_exact:
  assumes "key_order from_order f" "key_order to_order t"
  shows "let r = Compare from_order to_order f t
    in set (dr_Changed r) = {k. f k \<noteq> t k} \<and> distinct (dr_Changed r) \<and>
       dr_Fields r = change_at f t \<and> dr_From r = f \<and> dr_To r = t"
proof -
  have "k \<in> set to_order \<longleftrightarrow> t k \<noteq> None" "k \<in> set from_order \<longleftrightarrow> f k \<noteq> None" for k
    using assms by (auto simp: key_order_def)
  then show ?thesis
    using assms by (auto simp: Let_def Compare_eq key_order_def change_at_def fun_eq_iff)
qed

lemma compare_exact_witness:
  "set (dr_Changed (Compare [''a'', ''b''] [''c'', ''a''] [''a'' \<mapsto> AInt 1, ''b'' \<mapsto> AInt 2] [''a'' \<mapsto> AInt 1, ''c'' \<mapsto> AInt 3]))
     = {k. [''a'' \<mapsto> AInt 1, ''b'' \<mapsto> AInt 2] k \<noteq> [''a'' \<mapsto> AInt 1, ''c'' \<mapsto> AInt 3] k}"
  using compare_exact [of "[''a'', ''b'']" "[''a'' \<mapsto> AInt 1, ''b'' \<mapsto> AInt 2]" "[''c'', ''a'']" "[''a'' \<mapsto> AInt 1, ''c'' \<mapsto> AInt 3]"]
  by (simp add: key_order_def Let_def insert_commute)

text \<open>A diff is empty exactly when the two sides are equal, and exchanging the sides exchanges the
  two values of every change.\<close>

theorem compare_empty_and_swap:
  assumes "key_order from_order f" "key_order to_order t"
  shows "(dr_Changed (Compare from_order to_order f t) = [] \<longleftrightarrow> f = t) \<and>
    dr_Fields (Compare to_order from_order t f) =
      (\<lambda>k. map_option (\<lambda>c. \<lparr>fc_From = fc_To c, fc_To = fc_From c\<rparr>) (dr_Fields (Compare from_order to_order f t) k)) \<and>
    set (dr_Changed (Compare to_order from_order t f)) = set (dr_Changed (Compare from_order to_order f t))"
proof -
  have a: "k \<in> set to_order \<longleftrightarrow> t k \<noteq> None" "k \<in> set from_order \<longleftrightarrow> f k \<noteq> None" for k
    using assms by (auto simp: key_order_def)
  have "dr_Changed (Compare from_order to_order f t) = [] \<longleftrightarrow> (\<forall>k. f k = t k)"
    using a by (fastforce simp: Compare_eq filter_empty_conv)
  then show ?thesis
    using a by (auto simp: Compare_eq change_at_def fun_eq_iff)
qed

lemma compare_empty_and_swap_witness:
  "dr_Changed (Compare [''a''] [''a''] [''a'' \<mapsto> AInt 1] [''a'' \<mapsto> AInt 1]) = []"
  using compare_empty_and_swap [of "[''a'']" "[''a'' \<mapsto> AInt 1]" "[''a'']" "[''a'' \<mapsto> AInt 1]"]
  by (simp add: key_order_def)

lemma user_ToMap_utc_at:
  "user_ToMap u ''created_at'' = Some (ATime (u_CreatedAt u)) \<and>
   user_ToMap u ''updated_at'' = Some (ATime (u_UpdatedAt u)) \<and>
   user_ToMap (user_utc u) ''created_at'' = Some (ATime (in_utc (u_CreatedAt u))) \<and>
   user_ToMap (user_utc u) ''updated_at'' = Some (ATime (in_utc (u_UpdatedAt u))) \<and>
   (k \<noteq> ''created_at'' \<longrightarrow> k \<noteq> ''updated_at'' \<longrightarrow> user_ToMap (user_utc u) k = user_ToMap u k)"
  by (simp add: user_ToMap_def user_utc_def)

text \<open>The diff of one and the same user read once from the database and once from a snapshot or the
  cache names the two timestamps, although they are the same instants: \<open>DeepEqual\<close> sees that one is
  in the local zone and the other in UTC.\<close>

theorem diff_sees_locations:
  assumes "t_loc (u_CreatedAt u) = Local" "t_loc (u_UpdatedAt u) = Local"
    "key_order from_order (user_ToMap u)" "key_order to_order (user_ToMap (user_utc u))"
  shows "set (dr_Changed (Compare from_order to_order (user_ToMap u) (user_ToMap (user_utc u))))
    = {''created_at'', ''updated_at''}"
proof -
  have "t_loc (in_utc x) = UTC" for x by (simp add: in_utc_def)
  with assms(1,2) have "u_CreatedAt u \<noteq> in_utc (u_CreatedAt u)" "u_UpdatedAt u \<noteq> in_utc (u_UpdatedAt u)"
    by (metis location.distinct(1))+
  then have "{k. user_ToMap u k \<noteq> user_ToMap (user_utc u) k} = {''created_at'', ''updated_at''}"
    using user_ToMap_utc_at [of u] by fastforce
  then show ?thesis using Compare_changed [OF assms(3,4)] by simp
qed

definition user_keys :: "string list" where
  "user_keys = [''id'', ''name'', ''email'', ''address'', ''avatar'', ''deleted'', ''version'', ''created_at'', ''updated_at'']"

lemma user_keys_order: "key_order user_keys (user_ToMap u)"
proof -
  have "dom (user_ToMap u) = set (rev user_keys)"
    by (simp add: user_ToMap_def user_keys_def)
  moreover have "distinct user_keys" by code_simp
  ultimately show ?thesis by (simp only: key_order_def set_rev)
qed

lemma diff_sees_locations_witness:
  "let u = (user_New ''u1'')\<lparr>u_CreatedAt := from_micros 1, u_UpdatedAt := from_micros 2\<rparr>
   in set (dr_Changed (Compare user_keys user_keys (user_ToMap u) (user_ToMap (user_utc u)))) = {''created_at'', ''updated_at''}"
  unfolding Let_def
  by (rule diff_sees_locations [OF _ _ user_keys_order user_keys_order]) (simp_all add: from_micros_def)

end
