(* ===== verification/Http_Api.thy ===== *)
theory Http_Api
  imports Commands Replay_Cache Diff_Engine
begin

text \<open>
  \<open>internal/api/helpers.go\<close>, \<open>users.go\<close> and \<open>catalog.go\<close>: the handlers of the REST API. A request
  is what the handlers read of it; a response is its status and the value handed to the encoder.
\<close>

section \<open>Requests and responses\<close>

text \<open>
  \<open>hr_body\<close> is the first JSON document of the body, \<open>None\<close> when there is none or it is not JSON;
  \<open>hr_has_body\<close> is \<open>r.ContentLength > 0\<close>; absent headers and parameters are empty.
\<close>

record http_request =
  hr_id :: string
  hr_body :: "json option"
  hr_has_body :: bool
  hr_header :: "string \<Rightarrow> string"
  hr_param :: "string \<Rightarrow> string"

datatype payload =
    PError string
  | PRaw json
  | PUser user
  | PProduct product
  | POrder order
  | PEvents "stored_event list"
  | PTimeline "timeline_entry list"
  | PDiff diff_result
  | PMap "(string \<times> string) list"

record response =
  rs_status :: int
  rs_payload :: payload

text \<open>
  The surroundings of one request: which database calls fail, the start of its transaction and the
  time of its clock, the snapshot interval, whether there is a cache and it answers, whether
  idempotency is configured, the orders in which the maps of a diff and the rows of a search come,
  and the text of the library's error for a parameter that does not parse.
\<close>

record env =
  en_fl :: faults
  en_now :: int
  en_snapshotN :: i64
  en_redis :: bool
  en_get_ok :: bool
  en_set_ok :: bool
  en_idempotency :: bool
  en_keys :: "(string \<rightharpoonup> anyval) \<Rightarrow> string list"
  en_plan :: "event_row list \<Rightarrow> event_row list"
  en_error_text :: "http_request \<Rightarrow> string"

section \<open>Helpers\<close>

definition writeJSON :: "int \<Rightarrow> payload \<Rightarrow> response" where
  "writeJSON status v = \<lparr>rs_status = status, rs_payload = v\<rparr>"

definition writeRawJSON :: "int \<Rightarrow> json \<Rightarrow> response" where
  "writeRawJSON status raw = \<lparr>rs_status = status, rs_payload = PRaw raw\<rparr>"

definition writeError :: "int \<Rightarrow> string \<Rightarrow> response" where
  "writeError status msg = writeJSON status (PError msg)"

text \<open>\<open>json.NewDecoder(r.Body).Decode(&req)\<close>: the request as far as it was decoded, and whether
  there was no error.\<close>

definition decode_body :: "'r fdec \<Rightarrow> 'r \<Rightarrow> http_request \<Rightarrow> 'r \<times> bool" where
  "decode_body d zero r = (case hr_body r of
       None \<Rightarrow> (zero, False)
     | Some v \<Rightarrow> (case d v zero of (x, st) \<Rightarrow> (x, st = DecOk)))"

definition api_parseReplayQuery :: "http_request \<Rightarrow> replay_query \<times> bool" where
  "api_parseReplayQuery r =
     (let at = hr_param r ''at''; version = hr_param r ''version'' in
      case (if at = [] then Some None else map_option Some (parse_rfc3339 at)) of
        None \<Rightarrow> (empty_query, False)
      | Some t \<Rightarrow>
          if version = [] then (empty_query\<lparr>rq_At := t\<rparr>, True)
          else (case parse_int64 version of
                  None \<Rightarrow> (empty_query\<lparr>rq_At := t\<rparr>, False)
                | Some n \<Rightarrow> (empty_query\<lparr>rq_At := t, rq_Version := Some n\<rparr>, True)))"

definition isTemporal :: "replay_query \<Rightarrow> bool" where
  "isTemporal q \<longleftrightarrow> rq_At q \<noteq> None \<or> rq_Version q \<noteq> None"

definition parseTimeOrVersionParam :: "http_request \<Rightarrow> string \<Rightarrow> replay_query \<times> bool" where
  "parseTimeOrVersionParam r key =
     (let v = hr_param r key in
      if v = [] then (empty_query, True)
      else if has_prefix v ''v'' then
        (case parse_int64 (trim_prefix v ''v'') of None \<Rightarrow> (empty_query, False) | Some n \<Rightarrow> (at_version n, True))
      else (case parse_int64 v of
              Some n \<Rightarrow> (at_version n, True)
            | None \<Rightarrow> (case parse_rfc3339 v of None \<Rightarrow> (empty_query, False) | Some t \<Rightarrow> (at_time t, True))))"

definition parseExpectedVersion :: "http_request \<Rightarrow> i64 option" where
  "parseExpectedVersion r =
     (let v = (if hr_header r ''If-Match'' = [] then hr_param r ''expected_version'' else hr_header r ''If-Match'')
      in if v = [] then None else parse_int64 (trim_prefix v ''v''))"

definition extractMetadata :: "http_request \<Rightarrow> event_metadata" where
  "extractMetadata r = \<lparr>md_Actor = hr_header r ''X-Actor'', md_CorrelationID = hr_header r ''X-Correlation-ID'',
     md_TraceID = hr_header r ''X-Trace-ID'', md_IdempotencyKey = hr_header r ''Idempotency-Key''\<rparr>"

definition checkIdempotency :: "env \<Rightarrow> http_request \<Rightarrow> db \<Rightarrow> (json \<times> int) option" where
  "checkIdempotency en r d =
     (let key = hr_header r ''Idempotency-Key''
      in if key = [] \<or> \<not> en_idempotency en then None
         else (case Idempotency_Get (en_fl en) (en_now en) d key of
                 Inl e \<Rightarrow> None
               | Inr hit \<Rightarrow> hit))"

text \<open>A body that cannot be marshalled is not stored. The time to live is 24 hours.\<close>

definition storeIdempotency :: "env \<Rightarrow> http_request \<Rightarrow> json option \<Rightarrow> int \<Rightarrow> db \<Rightarrow> db" where
  "storeIdempotency en r body status d =
     (let key = hr_header r ''Idempotency-Key''
      in if key = [] \<or> \<not> en_idempotency en then d
         else (case body of
                 None \<Rightarrow> d
               | Some raw \<Rightarrow> snd (Idempotency_Store (en_fl en) (en_now en) key raw status (24 * 3600 * 1000000) d)))"

definition handleCommandError :: "error \<Rightarrow> response" where
  "handleCommandError err = (case err of
       ErrConflict \<Rightarrow> writeError 409 ''aggregate conflict: version already exists''
     | ErrVersionMismatch \<Rightarrow> writeError 412 ''expected version mismatch''
     | ErrNotFound \<Rightarrow> writeError 404 ''aggregate not found''
     | _ \<Rightarrow> writeError 500 ''internal error'')"

definition handleQueryError :: "error \<Rightarrow> response" where
  "handleQueryError err =
     (if err = ErrNotFound then writeError 404 ''aggregate not found'' else writeError 500 ''internal error'')"

definition entityHistory :: "env \<Rightarrow> http_request \<Rightarrow> string \<Rightarrow> db \<Rightarrow> response" where
  "entityHistory en r aggregateType d =
     (case History (en_fl en) d aggregateType (hr_id r) of
        Inl e \<Rightarrow> writeError 500 ''failed to load history''
      | Inr events \<Rightarrow> if events = [] then writeError 404 ''not found'' else writeJSON 200 (PEvents events))"

definition entityTimeline :: "env \<Rightarrow> http_request \<Rightarrow> string \<Rightarrow> db \<Rightarrow> response" where
  "entityTimeline en r aggregateType d =
     (case Timeline (en_fl en) d aggregateType (hr_id r) of
        Inl e \<Rightarrow> writeError 500 ''failed to load timeline''
      | Inr entries \<Rightarrow> if entries = [] then writeError 404 ''not found'' else writeJSON 200 (PTimeline entries))"

text \<open>A time bound of a search: \<open>None\<close> for an error.\<close>

definition search_bound :: "string \<Rightarrow> gotime option option" where
  "search_bound v = (if v = [] then Some None else map_option Some (parse_rfc3339 v))"

definition searchEvents :: "env \<Rightarrow> http_request \<Rightarrow> db \<Rightarrow> response" where
  "searchEvents en r d =
     (case search_bound (hr_param r ''from'') of
        None \<Rightarrow> writeError 400 ''invalid from''
      | Some from_t \<Rightarrow> (case search_bound (hr_param r ''to'') of
          None \<Rightarrow> writeError 400 ''invalid to''
        | Some to_t \<Rightarrow> (case Search (en_plan en) (en_fl en) d
              \<lparr>sf_AggregateType = hr_param r ''aggregate_type'', sf_AggregateID = hr_param r ''aggregate_id'',
               sf_EventType = hr_param r ''event_type'', sf_Actor = hr_param r ''actor'',
               sf_CorrelationID = hr_param r ''correlation_id'', sf_From = from_t, sf_To = to_t\<rparr> of
            Inl e \<Rightarrow> writeError 500 ''search failed''
          | Inr events \<Rightarrow> writeJSON 200 (PEvents events))))"

record replay_request =
  rr_At :: "gotime option"
  rr_Version :: "i64 option"

definition replay_request_fields :: "(string \<times> replay_request fdec) list" where
  "replay_request_fields =
     [(''at'', dec_field rr_At rr_At_update (dec_ptr zero_time dec_time)),
      (''version'', dec_field rr_Version rr_Version_update (dec_ptr 0 dec_int64))]"

text \<open>The body of a replay request; an error of the decoder is ignored.\<close>

definition replay_body :: "http_request \<Rightarrow> replay_query" where
  "replay_body r =
     (let req = (if hr_has_body r
                 then fst (decode_body (dec_struct replay_request_fields) \<lparr>rr_At = None, rr_Version = None\<rparr> r)
                 else \<lparr>rr_At = None, rr_Version = None\<rparr>)
      in \<lparr>rq_At = rr_At req, rq_Version = rr_Version req, rq_UntilID = None\<rparr>)"

section \<open>Users\<close>

record create_user_request =
  cur_ID :: string
  cur_Name :: string
  cur_Email :: string

record update_user_request =
  upr_Name :: "string option"
  upr_Email :: "string option"
  upr_Address :: "string option"
  upr_Avatar :: "string option"

definition create_user_fields :: "(string \<times> create_user_request fdec) list" where
  "create_user_fields =
     [(''id'', dec_field cur_ID cur_ID_update dec_string),
      (''name'', dec_field cur_Name cur_Name_update dec_string),
      (''email'', dec_field cur_Email cur_Email_update dec_string)]"

definition update_user_fields :: "(string \<times> update_user_request fdec) list" where
  "update_user_fields =
     [(''name'', dec_field upr_Name upr_Name_update (dec_ptr [] dec_string)),
      (''email'', dec_field upr_Email upr_Email_update (dec_ptr [] dec_string)),
      (''address'', dec_field upr_Address upr_Address_update (dec_ptr [] dec_string)),
      (''avatar'', dec_field upr_Avatar upr_Avatar_update (dec_ptr [] dec_string))]"

text \<open>
  The answer of a user command: beside the response, the user the snapshot goroutine of the service
  is started with, if it is.
\<close>

definition user_answer :: "env \<Rightarrow> http_request \<Rightarrow> int \<Rightarrow> (user result \<times> user option) \<times> db
    \<Rightarrow> (response \<times> user option) \<times> db" where
  "user_answer en r status res =
     (case res of
        ((Inl e, job), d') \<Rightarrow> ((handleCommandError e, job), d')
      | ((Inr u, job), d') \<Rightarrow>
          ((writeJSON status (PUser u), job), storeIdempotency en r (user_MarshalSnapshot u) status d'))"

definition createUser :: "env \<Rightarrow> http_request \<Rightarrow> db \<Rightarrow> (response \<times> user option) \<times> db" where
  "createUser en r d =
     (case decode_body (dec_struct create_user_fields) \<lparr>cur_ID = [], cur_Name = [], cur_Email = []\<rparr> r of
        (req, ok) \<Rightarrow>
          if \<not> ok then ((writeError 400 ''invalid json'', None), d)
          else if cur_ID req = [] \<or> cur_Name req = [] \<or> cur_Email req = []
          then ((writeError 400 ''id, name, and email are required'', None), d)
          else (case checkIdempotency en r d of
                  Some (body, status) \<Rightarrow> ((writeRawJSON status body, None), d)
                | None \<Rightarrow> user_answer en r 201 (user_Create (en_snapshotN en) (en_fl en) (en_now en)
                    \<lparr>ucc_ID = cur_ID req, ucc_Name = cur_Name req, ucc_Email = cur_Email req,
                     ucc_ExpectedVersion = None, ucc_Metadata = extractMetadata r\<rparr> d)))"

definition updateUser :: "env \<Rightarrow> http_request \<Rightarrow> db \<Rightarrow> (response \<times> user option) \<times> db" where
  "updateUser en r d =
     (case decode_body (dec_struct update_user_fields)
         \<lparr>upr_Name = None, upr_Email = None, upr_Address = None, upr_Avatar = None\<rparr> r of
        (req, ok) \<Rightarrow>
          if \<not> ok then ((writeError 400 ''invalid json'', None), d)
          else (case checkIdempotency en r d of
                  Some (body, status) \<Rightarrow> ((writeRawJSON status body, None), d)
                | None \<Rightarrow> user_answer en r 200 (user_Update (en_snapshotN en) (en_fl en) (en_now en)
                    \<lparr>uuc_ID = hr_id r, uuc_Name = upr_Name req, uuc_Email = upr_Email req,
                     uuc_Address = upr_Address req, uuc_Avatar = upr_Avatar req,
                     uuc_ExpectedVersion = parseExpectedVersion r, uuc_Metadata = extractMetadata r\<rparr> d)))"

definition deleteUser :: "env \<Rightarrow> http_request \<Rightarrow> db \<Rightarrow> (response \<times> user option) \<times> db" where
  "deleteUser en r d =
     (case checkIdempotency en r d of
        Some (body, status) \<Rightarrow> ((writeRawJSON status body, None), d)
      | None \<Rightarrow> user_answer en r 200 (user_Delete (en_snapshotN en) (en_fl en) (en_now en)
          \<lparr>udc_ID = hr_id r, udc_ExpectedVersion = parseExpectedVersion r, udc_Metadata = extractMetadata r\<rparr> d))"

text \<open>The queries on users also return the cache they leave behind.\<close>

definition api_ReplayUser :: "env \<Rightarrow> db \<Rightarrow> string \<Rightarrow> replay_query \<Rightarrow> redis \<Rightarrow> user result \<times> redis" where
  "api_ReplayUser en d i q c = cache_ReplayUser (en_redis en) (en_get_ok en) (en_set_ok en) (en_fl en) d i q c"

definition getUser :: "env \<Rightarrow> http_request \<Rightarrow> db \<Rightarrow> redis \<Rightarrow> response \<times> redis" where
  "getUser en r d c =
     (case api_parseReplayQuery r of
        (query, ok) \<Rightarrow>
          if \<not> ok then (writeError 400 (en_error_text en r), c)
          else if isTemporal query then
            (case api_ReplayUser en d (hr_id r) query c of
               (Inl e, c') \<Rightarrow> (handleQueryError e, c')
             | (Inr u, c') \<Rightarrow> (writeJSON 200 (PUser u), c'))
          else (case UserProjector_GetCurrent (en_fl en) d (hr_id r) of
                  Inl e \<Rightarrow> (handleQueryError e, c)
                | Inr u \<Rightarrow> (writeJSON 200 (PUser u), c)))"

definition userHistory :: "env \<Rightarrow> http_request \<Rightarrow> db \<Rightarrow> response" where
  "userHistory en r d = entityHistory en r AggregateUser d"

definition userTimeline :: "env \<Rightarrow> http_request \<Rightarrow> db \<Rightarrow> response" where
  "userTimeline en r d = entityTimeline en r AggregateUser d"

definition userDiff :: "env \<Rightarrow> http_request \<Rightarrow> db \<Rightarrow> redis \<Rightarrow> response \<times> redis" where
  "userDiff en r d c =
     (case parseTimeOrVersionParam r ''from'' of
        (fromQ, ok1) \<Rightarrow>
          if \<not> ok1 then (writeError 400 ''invalid from parameter'', c)
          else (case parseTimeOrVersionParam r ''to'' of
            (toQ, ok2) \<Rightarrow>
              if \<not> ok2 then (writeError 400 ''invalid to parameter'', c)
              else (case api_ReplayUser en d (hr_id r) fromQ c of
                  (Inl e, c1) \<Rightarrow> (handleQueryError e, c1)
                | (Inr fromUser, c1) \<Rightarrow> (case api_ReplayUser en d (hr_id r) toQ c1 of
                      (Inl e, c2) \<Rightarrow> (handleQueryError e, c2)
                    | (Inr toUser, c2) \<Rightarrow>
                        (let f = user_ToMap fromUser; t = user_ToMap toUser
                         in (writeJSON 200 (PDiff (Compare (en_keys en f) (en_keys en t) f t)), c2))))))"

definition userReplay :: "env \<Rightarrow> http_request \<Rightarrow> db \<Rightarrow> redis \<Rightarrow> response \<times> redis" where
  "userReplay en r d c =
     (case api_ReplayUser en d (hr_id r) (replay_body r) c of
        (Inl e, c') \<Rightarrow> (handleQueryError e, c')
      | (Inr u, c') \<Rightarrow> (writeJSON 200 (PUser u), c'))"

definition userPreview :: "env \<Rightarrow> http_request \<Rightarrow> db \<Rightarrow> redis \<Rightarrow> response \<times> redis" where
  "userPreview en r d c = userReplay en r d c"

section \<open>Products\<close>

record create_product_request =
  cpr_ID :: string
  cpr_Name :: string
  cpr_Description :: string
  cpr_PriceCents :: i64
  cpr_Currency :: string

definition create_product_fields :: "(string \<times> create_product_request fdec) list" where
  "create_product_fields =
     [(''id'', dec_field cpr_ID cpr_ID_update dec_string),
      (''name'', dec_field cpr_Name cpr_Name_update dec_string),
      (''description'', dec_field cpr_Description cpr_Description_update dec_string),
      (''price_cents'', dec_field cpr_PriceCents cpr_PriceCents_update dec_int64),
      (''currency'', dec_field cpr_Currency cpr_Currency_update dec_string)]"

definition product_answer :: "int \<Rightarrow> product result \<times> db \<Rightarrow> response \<times> db" where
  "product_answer status res =
     (case res of (Inl e, d') \<Rightarrow> (handleCommandError e, d') | (Inr p, d') \<Rightarrow> (writeJSON status (PProduct p), d'))"

definition createProduct :: "env \<Rightarrow> http_request \<Rightarrow> db \<Rightarrow> response \<times> db" where
  "createProduct en r d =
     (case decode_body (dec_struct create_product_fields) \<lparr>cpr_ID = [], cpr_Name = [], cpr_Description = [],
           cpr_PriceCents = 0, cpr_Currency = []\<rparr> r of
        (req, ok) \<Rightarrow>
          if \<not> ok then (writeError 400 ''invalid json'', d)
          else product_answer 201 (product_Create (en_snapshotN en) (en_fl en) (en_now en)
            \<lparr>pcc_ID = cpr_ID req, pcc_Name = cpr_Name req, pcc_Description = cpr_Description req,
             pcc_PriceCents = cpr_PriceCents req, pcc_Currency = cpr_Currency req,
             pcc_Metadata = extractMetadata r\<rparr> d))"

text \<open>The request of an update has the fields of the event's payload.\<close>

definition updateProduct :: "env \<Rightarrow> http_request \<Rightarrow> db \<Rightarrow> response \<times> db" where
  "updateProduct en r d =
     (case decode_body (dec_struct product_updated_fields) zero_product_updated r of
        (req, ok) \<Rightarrow>
          if \<not> ok then (writeError 400 ''invalid json'', d)
          else product_answer 200 (product_Update (en_snapshotN en) (en_fl en) (en_now en)
            \<lparr>puc_ID = hr_id r, puc_Name = pu_Name req, puc_Description = pu_Description req,
             puc_PriceCents = pu_PriceCents req, puc_Currency = pu_Currency req,
             puc_ExpectedVersion = parseExpectedVersion r, puc_Metadata = extractMetadata r\<rparr> d))"

definition deleteProduct :: "env \<Rightarrow> http_request \<Rightarrow> db \<Rightarrow> response \<times> db" where
  "deleteProduct en r d = product_answer 200 (product_Delete (en_snapshotN en) (en_fl en) (en_now en)
     \<lparr>pdc_ID = hr_id r, pdc_ExpectedVersion = parseExpectedVersion r, pdc_Metadata = extractMetadata r\<rparr> d)"

definition product_response :: "product result \<Rightarrow> response" where
  "product_response res = (case res of Inl e \<Rightarrow> handleQueryError e | Inr p \<Rightarrow> writeJSON 200 (PProduct p))"

definition getProduct :: "env \<Rightarrow> http_request \<Rightarrow> db \<Rightarrow> response" where
  "getProduct en r d =
     (case api_parseReplayQuery r of
        (query, ok) \<Rightarrow>
          if \<not> ok then writeError 400 (en_error_text en r)
          else if isTemporal query then product_response (ReplayProduct (en_fl en) d (hr_id r) query)
          else product_response (ProductProjector_GetCurrent (en_fl en) d (hr_id r)))"

definition productHistory :: "env \<Rightarrow> http_request \<Rightarrow> db \<Rightarrow> response" where
  "productHistory en r d = entityHistory en r AggregateProduct d"

definition productTimeline :: "env \<Rightarrow> http_request \<Rightarrow> db \<Rightarrow> response" where
  "productTimeline en r d = entityTimeline en r AggregateProduct d"

text \<open>Unlike \<open>userDiff\<close>, an error in a bound is ignored and leaves the empty query.\<close>

definition productDiff :: "env \<Rightarrow> http_request \<Rightarrow> db \<Rightarrow> response" where
  "productDiff en r d =
     (case ReplayProduct (en_fl en) d (hr_id r) (fst (parseTimeOrVersionParam r ''from'')) of
        Inl e \<Rightarrow> handleQueryError e
      | Inr p \<Rightarrow> (case ReplayProduct (en_fl en) d (hr_id r) (fst (parseTimeOrVersionParam r ''to'')) of
            Inl e \<Rightarrow> handleQueryError e
          | Inr q \<Rightarrow> (let f = product_ToMap p; t = product_ToMap q
              in writeJSON 200 (PDiff (Compare (en_keys en f) (en_keys en t) f t)))))"

definition productReplay :: "env \<Rightarrow> http_request \<Rightarrow> db \<Rightarrow> response" where
  "productReplay en r d = product_response (ReplayProduct (en_fl en) d (hr_id r) (replay_body r))"

section \<open>Orders\<close>

record create_order_request =
  cor_ID :: string
  cor_UserID :: string
  cor_Currency :: string
  cor_Items :: "item list option"

definition create_order_fields :: "(string \<times> create_order_request fdec) list" where
  "create_order_fields =
     [(''id'', dec_field cor_ID cor_ID_update dec_string),
      (''user_id'', dec_field cor_UserID cor_UserID_update dec_string),
      (''currency'', dec_field cor_Currency cor_Currency_update dec_string),
      (''items'', dec_field cor_Items cor_Items_update dec_items)]"

definition order_answer :: "int \<Rightarrow> order result \<times> db \<Rightarrow> response \<times> db" where
  "order_answer status res =
     (case res of (Inl e, d') \<Rightarrow> (handleCommandError e, d') | (Inr x, d') \<Rightarrow> (writeJSON status (POrder x), d'))"

definition createOrder :: "env \<Rightarrow> http_request \<Rightarrow> db \<Rightarrow> response \<times> db" where
  "createOrder en r d =
     (case decode_body (dec_struct create_order_fields) \<lparr>cor_ID = [], cor_UserID = [], cor_Currency = [], cor_Items = None\<rparr> r of
        (req, ok) \<Rightarrow>
          if \<not> ok then (writeError 400 ''invalid json'', d)
          else order_answer 201 (order_Create (en_snapshotN en) (en_fl en) (en_now en)
            \<lparr>occ_ID = cor_ID req, occ_UserID = cor_UserID req, occ_Items = cor_Items req,
             occ_Currency = cor_Currency req, occ_Metadata = extractMetadata r\<rparr> d))"

definition updateOrder :: "env \<Rightarrow> http_request \<Rightarrow> db \<Rightarrow> response \<times> db" where
  "updateOrder en r d =
     (case decode_body (dec_struct order_updated_fields) zero_order_updated r of
        (req, ok) \<Rightarrow>
          if \<not> ok then (writeError 400 ''invalid json'', d)
          else order_answer 200 (order_Update (en_snapshotN en) (en_fl en) (en_now en)
            \<lparr>ouc_ID = hr_id r, ouc_Status = ou_Status req, ouc_ExpectedVersion = parseExpectedVersion r,
             ouc_Metadata = extractMetadata r\<rparr> d))"

definition cancelOrder :: "env \<Rightarrow> http_request \<Rightarrow> db \<Rightarrow> response \<times> db" where
  "cancelOrder en r d = order_answer 200 (order_Cancel (en_snapshotN en) (en_fl en) (en_now en)
     \<lparr>oxc_ID = hr_id r, oxc_ExpectedVersion = parseExpectedVersion r, oxc_Metadata = extractMetadata r\<rparr> d)"

definition addOrderItem :: "env \<Rightarrow> http_request \<Rightarrow> db \<Rightarrow> response \<times> db" where
  "addOrderItem en r d =
     (case decode_body (dec_struct item_added_fields) zero_item_added r of
        (req, ok) \<Rightarrow>
          if \<not> ok then (writeError 400 ''invalid json'', d)
          else order_answer 200 (order_AddItem (en_snapshotN en) (en_fl en) (en_now en)
            \<lparr>oac_ID = hr_id r, oac_Item = oa_Item req, oac_ExpectedVersion = parseExpectedVersion r,
             oac_Metadata = extractMetadata r\<rparr> d))"

definition order_response :: "order result \<Rightarrow> response" where
  "order_response res = (case res of Inl e \<Rightarrow> handleQueryError e | Inr x \<Rightarrow> writeJSON 200 (POrder x))"

definition getOrder :: "env \<Rightarrow> http_request \<Rightarrow> db \<Rightarrow> response" where
  "getOrder en r d =
     (case api_parseReplayQuery r of
        (query, ok) \<Rightarrow>
          if \<not> ok then writeError 400 (en_error_text en r)
          else if isTemporal query then order_response (ReplayOrder (en_fl en) d (hr_id r) query)
          else order_response (OrderProjector_GetCurrent (en_fl en) d (hr_id r)))"

definition orderHistory :: "env \<Rightarrow> http_request \<Rightarrow> db \<Rightarrow> response" where
  "orderHistory en r d = entityHistory en r AggregateOrder d"

definition orderTimeline :: "env \<Rightarrow> http_request \<Rightarrow> db \<Rightarrow> response" where
  "orderTimeline en r d = entityTimeline en r AggregateOrder d"

definition orderDiff :: "env \<Rightarrow> http_request \<Rightarrow> db \<Rightarrow> response" where
  "orderDiff en r d =
     (case ReplayOrder (en_fl en) d (hr_id r) (fst (parseTimeOrVersionParam r ''from'')) of
        Inl e \<Rightarrow> handleQueryError e
      | Inr x \<Rightarrow> (case ReplayOrder (en_fl en) d (hr_id r) (fst (parseTimeOrVersionParam r ''to'')) of
            Inl e \<Rightarrow> handleQueryError e
          | Inr y \<Rightarrow> (let f = order_ToMap x; t = order_ToMap y
              in writeJSON 200 (PDiff (Compare (en_keys en f) (en_keys en t) f t)))))"

definition orderReplay :: "env \<Rightarrow> http_request \<Rightarrow> db \<Rightarrow> response" where
  "orderReplay en r d = order_response (ReplayOrder (en_fl en) d (hr_id r) (replay_body r))"

section \<open>Lemmas\<close>

text \<open>A command refused for its version leaves the tables alone.\<close>

abbreviation refused :: "error \<Rightarrow> bool" where
  "refused e \<equiv> e = ErrConflict \<or> e = ErrVersionMismatch"

lemma GetCurrent_error:
  "UserProjector_GetCurrent fl d i = Inl e \<Longrightarrow> \<not> refused e"
  "ProductProjector_GetCurrent fl d i = Inl e \<Longrightarrow> \<not> refused e"
  "OrderProjector_GetCurrent fl d i = Inl e \<Longrightarrow> \<not> refused e"
  by (auto simp: UserProjector_GetCurrent_def ProductProjector_GetCurrent_def OrderProjector_GetCurrent_def
      split: if_splits option.splits)

lemma user_append_refused:
  assumes "user_append n fl now i expected ty pl m d = ((Inl e, job), d')" "refused e"
  shows "tables d' = tables d"
proof -
  have "(case Append (userCmds n) fl now (user_request i expected ty pl m) d of
      (Inl e, d') \<Rightarrow> (Inl e, d') | (Inr _, d') \<Rightarrow> (UserProjector_GetCurrent fl d' i, d')) = (Inl e, d')"
    using user_append_Append [of n fl now i expected ty pl m d] assms(1) by simp
  then show ?thesis using Append_Inl GetCurrent_error(1) assms(2) by (auto split: prod.splits sum.splits)
qed

lemma product_commands_refused:
  "product_Create n fl now c1 d = (Inl e, d') \<Longrightarrow> refused e \<Longrightarrow> tables d' = tables d"
  "product_Update n fl now c2 d = (Inl e, d') \<Longrightarrow> refused e \<Longrightarrow> tables d' = tables d"
  "product_Delete n fl now c3 d = (Inl e, d') \<Longrightarrow> refused e \<Longrightarrow> tables d' = tables d"
  by (auto simp: product_Create_def product_Update_def product_Delete_def Let_def
      dest: Append_Inl GetCurrent_error(2) split: prod.splits sum.splits)

lemma order_commands_refused:
  "order_Create n fl now c1 d = (Inl e, d') \<Longrightarrow> refused e \<Longrightarrow> tables d' = tables d"
  "order_Update n fl now c2 d = (Inl e, d') \<Longrightarrow> refused e \<Longrightarrow> tables d' = tables d"
  "order_Cancel n fl now c3 d = (Inl e, d') \<Longrightarrow> refused e \<Longrightarrow> tables d' = tables d"
  "order_AddItem n fl now c4 d = (Inl e, d') \<Longrightarrow> refused e \<Longrightarrow> tables d' = tables d"
  by (auto simp: order_Create_def order_Update_def order_Cancel_def order_AddItem_def Let_def
      dest: Append_Inl GetCurrent_error(3) split: prod.splits sum.splits)

lemmas response_defs = writeJSON_def writeError_def writeRawJSON_def handleCommandError_def

lemma handleCommandError_status:
  "rs_status (handleCommandError e) \<noteq> 400"
  "rs_status (handleCommandError e) = 409 \<longleftrightarrow> e = ErrConflict"
  "rs_status (handleCommandError e) = 412 \<longleftrightarrow> e = ErrVersionMismatch"
  by (cases e; simp add: response_defs)+

lemma user_answer_refused:
  assumes "user_answer en r st (user_append n fl now i expected ty pl m d) = ((resp, job), d')"
    "rs_status resp \<in> {400, 409, 412}" "st \<in> {200, 201}"
  shows "tables d' = tables d"
  using assms user_append_refused
  by (auto simp: user_answer_def handleCommandError_status writeJSON_def split: prod.splits sum.splits)

lemma product_answer_refused:
  "product_answer st res = (resp, d') \<Longrightarrow> rs_status resp \<in> {400, 409, 412} \<Longrightarrow> st \<in> {200, 201} \<Longrightarrow>
     (\<And>e d'. res = (Inl e, d') \<Longrightarrow> refused e \<Longrightarrow> tables d' = tables d) \<Longrightarrow> tables d' = tables d"
  by (auto simp: product_answer_def handleCommandError_status writeJSON_def split: prod.splits sum.splits)

lemma order_answer_refused:
  "order_answer st res = (resp, d') \<Longrightarrow> rs_status resp \<in> {400, 409, 412} \<Longrightarrow> st \<in> {200, 201} \<Longrightarrow>
     (\<And>e d'. res = (Inl e, d') \<Longrightarrow> refused e \<Longrightarrow> tables d' = tables d) \<Longrightarrow> tables d' = tables d"
  by (auto simp: order_answer_def handleCommandError_status writeJSON_def split: prod.splits sum.splits)

text \<open>A write handler answers without touching the database, or with the outcome of its command.\<close>

lemma user_handler_cases:
  assumes "createUser en r d = ((resp, job), d') \<or> updateUser en r d = ((resp, job), d') \<or>
    deleteUser en r d = ((resp, job), d')"
  obtains "d' = d"
  | st i expected ty pl m where "st \<in> {200, 201}" "user_answer en r st
      (user_append (en_snapshotN en) (en_fl en) (en_now en) i expected ty pl m d) = ((resp, job), d')"
proof -
  have hit: "thesis" if "checkIdempotency en r d = Some x" for x
    using that assms \<open>d' = d \<Longrightarrow> thesis\<close> by (cases x) (auto simp: createUser_def updateUser_def deleteUser_def split_beta split: if_splits)
  show thesis
  proof (cases "checkIdempotency en r d")
    case None
    from assms show thesis
    proof (elim disjE)
      assume "createUser en r d = ((resp, job), d')"
      then show thesis
        using None that(1) that(2) [of 201] by (simp add: createUser_def user_Create_def split_beta split: if_splits)
    next
      assume "updateUser en r d = ((resp, job), d')"
      then show thesis
        using None that(1) that(2) [of 200] by (simp add: updateUser_def user_Update_def split_beta split: if_splits)
    next
      assume "deleteUser en r d = ((resp, job), d')"
      then show thesis using None that(2) [of 200] by (simp add: deleteUser_def user_Delete_def)
    qed
  next
    case (Some x)
    then show thesis by (rule hit)
  qed
qed

lemma product_handlers_refused:
  assumes "createProduct en r d = (resp, d') \<or> updateProduct en r d = (resp, d') \<or> deleteProduct en r d = (resp, d')"
    "rs_status resp \<in> {400, 409, 412}"
  shows "tables d' = tables d"
proof -
  note p = product_answer_refused [OF _ assms(2)]
  from assms(1) show ?thesis
  proof (elim disjE)
    assume "createProduct en r d = (resp, d')"
    then consider "d' = d" | cmd where "product_answer 201 (product_Create (en_snapshotN en) (en_fl en) (en_now en) cmd d) = (resp, d')"
      by (auto simp: createProduct_def split_beta split: if_splits)
    then show ?thesis
      by cases (simp, rule p, assumption, simp, rule product_commands_refused(1))
  next
    assume "updateProduct en r d = (resp, d')"
    then consider "d' = d" | cmd where "product_answer 200 (product_Update (en_snapshotN en) (en_fl en) (en_now en) cmd d) = (resp, d')"
      by (auto simp: updateProduct_def split_beta split: if_splits)
    then show ?thesis
      by cases (simp, rule p, assumption, simp, rule product_commands_refused(2))
  next
    assume "deleteProduct en r d = (resp, d')"
    then consider "d' = d" | cmd where "product_answer 200 (product_Delete (en_snapshotN en) (en_fl en) (en_now en) cmd d) = (resp, d')"
      by (auto simp: deleteProduct_def split_beta split: if_splits)
    then show ?thesis
      by cases (simp, rule p, assumption, simp, rule product_commands_refused(3))
  qed
qed

lemma order_handlers_refused:
  assumes "createOrder en r d = (resp, d') \<or> updateOrder en r d = (resp, d') \<or> cancelOrder en r d = (resp, d') \<or>
      addOrderItem en r d = (resp, d')"
    "rs_status resp \<in> {400, 409, 412}"
  shows "tables d' = tables d"
proof -
  note p = order_answer_refused [OF _ assms(2)]
  from assms(1) show ?thesis
  proof (elim disjE)
    assume "createOrder en r d = (resp, d')"
    then consider "d' = d" | cmd where "order_answer 201 (order_Create (en_snapshotN en) (en_fl en) (en_now en) cmd d) = (resp, d')"
      by (auto simp: createOrder_def split_beta split: if_splits)
    then show ?thesis
      by cases (simp, rule p, assumption, simp, rule order_commands_refused(1))
  next
    assume "updateOrder en r d = (resp, d')"
    then consider "d' = d" | cmd where "order_answer 200 (order_Update (en_snapshotN en) (en_fl en) (en_now en) cmd d) = (resp, d')"
      by (auto simp: updateOrder_def split_beta split: if_splits)
    then show ?thesis
      by cases (simp, rule p, assumption, simp, rule order_commands_refused(2))
  next
    assume "cancelOrder en r d = (resp, d')"
    then consider "d' = d" | cmd where "order_answer 200 (order_Cancel (en_snapshotN en) (en_fl en) (en_now en) cmd d) = (resp, d')"
      by (auto simp: cancelOrder_def split_beta split: if_splits)
    then show ?thesis
      by cases (simp, rule p, assumption, simp, rule order_commands_refused(3))
  next
    assume "addOrderItem en r d = (resp, d')"
    then consider "d' = d" | cmd where "order_answer 200 (order_AddItem (en_snapshotN en) (en_fl en) (en_now en) cmd d) = (resp, d')"
      by (auto simp: addOrderItem_def split_beta split: if_splits)
    then show ?thesis
      by cases (simp, rule p, assumption, simp, rule order_commands_refused(4))
  qed
qed

text \<open>What a key stored before keeps a command from doing.\<close>

lemma user_append_idempotency:
  "user_append n fl now i expected ty pl m d = (res, d') \<Longrightarrow> d_idempotency d' = d_idempotency d"
  using user_projector.seqs_unchanged
  by (auto simp: user_append_def Let_def elim!: store_append_Inr split: if_splits sum.splits prod.splits option.splits)

lemma checkIdempotency_row:
  "checkIdempotency en r d =
     (if hr_header r ''Idempotency-Key'' = [] \<or> \<not> en_idempotency en \<or> en_fl en CallIdempotencyGet then None
      else (case d_idempotency d (hr_header r ''Idempotency-Key'') of
              None \<Rightarrow> None
            | Some row \<Rightarrow> if en_now en < ik_expires_at row then Some (ik_response_body row, ik_status_code row) else None))"
  by (auto simp: checkIdempotency_def Idempotency_Get_def Let_def split: option.split)

lemma user_handler_hit:
  assumes "checkIdempotency en r d = Some (body, status)"
  shows "deleteUser en r d = ((writeRawJSON status body, None), d)"
    "snd (decode_body (dec_struct update_user_fields) \<lparr>upr_Name = None, upr_Email = None, upr_Address = None, upr_Avatar = None\<rparr> r) \<Longrightarrow>
      updateUser en r d = ((writeRawJSON status body, None), d)"
    "decode_body (dec_struct create_user_fields) \<lparr>cur_ID = [], cur_Name = [], cur_Email = []\<rparr> r = (req, True) \<Longrightarrow>
      cur_ID req \<noteq> [] \<Longrightarrow> cur_Name req \<noteq> [] \<Longrightarrow> cur_Email req \<noteq> [] \<Longrightarrow>
      createUser en r d = ((writeRawJSON status body, None), d)"
  using assms by (simp_all add: deleteUser_def updateUser_def createUser_def split_beta)

text \<open>A successful user command that was carried out stores its answer under a free key.\<close>

lemma createUser_carried_out:
  assumes "createUser en r d = ((resp, job), d1)" "rs_payload resp = PUser u"
  obtains req d0 where "decode_body (dec_struct create_user_fields) \<lparr>cur_ID = [], cur_Name = [], cur_Email = []\<rparr> r = (req, True)"
    "cur_ID req \<noteq> []" "cur_Name req \<noteq> []" "cur_Email req \<noteq> []"
    "d_idempotency d0 = d_idempotency d" "d1 = storeIdempotency en r (user_MarshalSnapshot u) 201 d0"
proof -
  obtain req ok where req: "decode_body (dec_struct create_user_fields) \<lparr>cur_ID = [], cur_Name = [], cur_Email = []\<rparr> r = (req, ok)"
    by force
  have ok: "ok" "cur_ID req \<noteq> []" "cur_Name req \<noteq> []" "cur_Email req \<noteq> []" "checkIdempotency en r d = None"
    using assms req by (auto simp: createUser_def response_defs split: if_splits option.splits)
  obtain res job' d0 where a: "user_Create (en_snapshotN en) (en_fl en) (en_now en)
        \<lparr>ucc_ID = cur_ID req, ucc_Name = cur_Name req, ucc_Email = cur_Email req,
         ucc_ExpectedVersion = None, ucc_Metadata = extractMetadata r\<rparr> d = ((res, job'), d0)" by (metis prod.collapse)
  then have b: "user_answer en r 201 ((res, job'), d0) = ((resp, job), d1)"
    using assms(1) req ok by (simp add: createUser_def)
  have "res = Inr u"
    using b assms(2) by (cases res) (auto simp: user_answer_def response_defs split: error.splits)
  then have "d1 = storeIdempotency en r (user_MarshalSnapshot u) 201 d0"
    using b by (simp add: user_answer_def)
  moreover have "d_idempotency d0 = d_idempotency d"
    using a user_append_idempotency by (simp add: user_Create_def)
  ultimately show ?thesis using that req ok by simp
qed


text \<open>A command that expects another version than the current one is refused before it writes.\<close>

lemma Append_mismatch:
  assumes "db_ok d" "\<not> fl CallBegin" "\<not> fl CallLatestVersion" "aq_ExpectedVersion req = Some v"
    "v \<noteq> int (length (aggregate_rows (cs_aggregateType s) (aq_ID req) (d_events d)))"
  shows "Append s fl now req d = (Inl ErrVersionMismatch, d)"
proof -
  have "log_ok (d_events d)" using assms(1) by (simp add: db_ok_def)
  then show ?thesis using assms LatestVersion_log_ok [of d fl] by (simp add: Append_def append_guard_def)
qed

lemma user_append_mismatch:
  assumes "db_ok d" "\<not> fl CallBegin" "\<not> fl CallLatestVersion"
    "v \<noteq> int (length (aggregate_rows AggregateUser i (d_events d)))"
  shows "user_append n fl now i (Some v) ty pl m d = ((Inl ErrVersionMismatch, None), d)"
proof -
  have "log_ok (d_events d)" using assms(1) by (simp add: db_ok_def)
  then show ?thesis using assms LatestVersion_log_ok [of d fl] by (simp add: user_append_def)
qed

lemma parseExpectedVersion_number:
  assumes "in_i64 v" "hr_header r ''If-Match'' \<in> {show_int v, CHR ''v'' # show_int v}"
  shows "parseExpectedVersion r = Some v"
proof -
  obtain c cs where c: "show_int v = c # cs" "is_digit c \<or> c = CHR ''-''" by (rule show_int_Cons)
  have "\<not> has_prefix (show_int v) ''v''" unfolding c(1) by (rule no_prefix_v [OF c(2)])
  then have "trim_prefix (hr_header r ''If-Match'') ''v'' = show_int v" "hr_header r ''If-Match'' \<noteq> []"
    using assms(2) c trim_prefix_append [of "''v''" "show_int v"] by (auto simp: trim_prefix_def)
  then show ?thesis using parse_int64_show_int [OF assms(1)] by (simp add: parseExpectedVersion_def)
qed

text \<open>A text that starts with a quotation mark is no number: an entity tag is no expected version.\<close>

lemma parse_int64_quoted: "parse_int64 (CHR 0x22 # s) = None"
  by (simp add: parse_int64_def parse_uint_def is_digit_def byte_val_def)

lemma parseExpectedVersion_quoted:
  "hr_header r ''If-Match'' = CHR 0x22 # s \<Longrightarrow> parseExpectedVersion r = None"
  using parse_int64_quoted by (simp add: parseExpectedVersion_def trim_prefix_def)


section \<open>Properties\<close>

text \<open>C29: a write request that is answered with 400, 409 or 412 has changed no table, on every write
  endpoint and whatever failed meanwhile.\<close>

theorem refused_requests_change_nothing:
  assumes "rs_status resp \<in> {400, 409, 412}"
    "createUser en r d = ((resp, job), d') \<or> updateUser en r d = ((resp, job), d') \<or>
     deleteUser en r d = ((resp, job), d') \<or> createProduct en r d = (resp, d') \<or>
     updateProduct en r d = (resp, d') \<or> deleteProduct en r d = (resp, d') \<or> createOrder en r d = (resp, d') \<or>
     updateOrder en r d = (resp, d') \<or> cancelOrder en r d = (resp, d') \<or> addOrderItem en r d = (resp, d')"
  shows "tables d' = tables d"
proof -
  consider (user) "createUser en r d = ((resp, job), d') \<or> updateUser en r d = ((resp, job), d') \<or>
      deleteUser en r d = ((resp, job), d')"
    | (product) "createProduct en r d = (resp, d') \<or> updateProduct en r d = (resp, d') \<or> deleteProduct en r d = (resp, d')"
    | (order) "createOrder en r d = (resp, d') \<or> updateOrder en r d = (resp, d') \<or> cancelOrder en r d = (resp, d') \<or>
        addOrderItem en r d = (resp, d')"
    using assms(2) by argo
  then show ?thesis
  proof cases
    case user
    then show ?thesis
      by (cases rule: user_handler_cases) (simp_all add: user_answer_refused [OF _ assms(1)])
  next
    case product
    then show ?thesis by (rule product_handlers_refused) (rule assms(1))
  next
    case order
    then show ?thesis by (rule order_handlers_refused) (rule assms(1))
  qed
qed

text \<open>Version zero of an aggregate is that of no events: it does not exist.\<close>

lemma map_sum_Inl: "map_sum id g x = Inl e \<Longrightarrow> x = Inl e"
  by (cases x) simp_all

lemma replay_version_0:
  assumes "db_ok d" "all_good_snapshots d" "\<not> fl CallLoadEvents" "\<not> fl CallLatestSnapshot"
  shows "ReplayUser fl d i (at_version 0) = Inl ErrNotFound"
    "ReplayProduct fl d i (at_version 0) = Inl ErrNotFound"
    "ReplayOrder fl d i (at_version 0) = Inl ErrNotFound"
proof -
  have z: "fold_state userAgg i [] = Inl ErrNotFound" "fold_state productAgg i [] = Inl ErrNotFound"
    "fold_state orderAgg i [] = Inl ErrNotFound"
    by (simp_all add: fold_state_def agg_defs user_New_def product_New_def order_New_def)
  note defs = all_good_snapshots_def Replay_defs
  show "ReplayUser fl d i (at_version 0) = Inl ErrNotFound"
    by (rule map_sum_Inl [where g = user_utc]) (use assms in \<open>simp add: defs z user_agg.engine_replay_at_version\<close>)
  show "ReplayProduct fl d i (at_version 0) = Inl ErrNotFound"
    by (rule map_sum_Inl [where g = product_utc]) (use assms in \<open>simp add: defs z product_agg.engine_replay_at_version\<close>)
  show "ReplayOrder fl d i (at_version 0) = Inl ErrNotFound"
    by (rule map_sum_Inl [where g = order_utc]) (use assms in \<open>simp add: defs z order_agg.engine_replay_at_version\<close>)
qed

text \<open>A sample environment and requests.\<close>

definition sample_env :: env where
  "sample_env = \<lparr>en_fl = no_faults, en_now = 5, en_snapshotN = 50, en_redis = False, en_get_ok = False,
     en_set_ok = False, en_idempotency = True, en_keys = (\<lambda>m. []), en_plan = (\<lambda>rows. rows),
     en_error_text = (\<lambda>r. [])\<rparr>"

definition sample_request :: "string \<Rightarrow> json option \<Rightarrow> (string \<times> string) list \<Rightarrow> http_request" where
  "sample_request i body headers = \<lparr>hr_id = i, hr_body = body, hr_has_body = (body \<noteq> None),
     hr_header = (\<lambda>k. case map_of headers k of None \<Rightarrow> [] | Some v \<Rightarrow> v), hr_param = (\<lambda>k. [])\<rparr>"

lemma refused_requests_change_nothing_witness:
  "tables (snd (updateProduct sample_env (sample_request ''p1'' (Some (JObj [])) [(''If-Match'', ''7'')]) empty_db)) = tables empty_db"
    (is "tables (snd ?a) = _")
proof -
  have "rs_status (fst ?a) = 412" by code_simp
  then show ?thesis
    using refused_requests_change_nothing [of "fst ?a" sample_env "sample_request ''p1'' (Some (JObj [])) [(''If-Match'', ''7'')]" empty_db None "snd ?a"]
    by simp
qed

text \<open>C22: a user that was created under a fresh idempotency key is not created again: for 24 hours the same
  request, and any deletion or readable update that carries the key, is answered with the stored
  document and status and changes nothing, whatever happened to the rest of the database. The key
  alone decides, so the later command may have been meant for another user.\<close>

theorem idempotent_retry:
  assumes "createUser en r d = ((resp, job), d1)" "rs_payload resp = PUser u" "user_MarshalSnapshot u = Some raw"
    and key: "hr_header r ''Idempotency-Key'' = key" "key \<noteq> []" "hr_header r' ''Idempotency-Key'' = key"
    and stored: "d_idempotency d key = None" "en_idempotency en" "\<not> en_fl en CallIdempotencyStore"
    and later: "d_idempotency d2 key = d_idempotency d1 key" "en_idempotency en'" "\<not> en_fl en' CallIdempotencyGet"
      "en_now en' < en_now en + 24 * 3600 * 1000000"
  shows "createUser en' r d2 = ((writeRawJSON 201 raw, None), d2) \<and>
    deleteUser en' r' d2 = ((writeRawJSON 201 raw, None), d2) \<and>
    (snd (decode_body (dec_struct update_user_fields) \<lparr>upr_Name = None, upr_Email = None, upr_Address = None, upr_Avatar = None\<rparr> r') \<longrightarrow>
       updateUser en' r' d2 = ((writeRawJSON 201 raw, None), d2))"
proof -
  obtain req d0 where req: "decode_body (dec_struct create_user_fields) \<lparr>cur_ID = [], cur_Name = [], cur_Email = []\<rparr> r = (req, True)"
      "cur_ID req \<noteq> []" "cur_Name req \<noteq> []" "cur_Email req \<noteq> []"
    and d0: "d_idempotency d0 = d_idempotency d" "d1 = storeIdempotency en r (user_MarshalSnapshot u) 201 d0"
    by (rule createUser_carried_out [OF assms(1,2)])
  have "d_idempotency d2 key = Some \<lparr>ik_response_body = raw, ik_status_code = 201,
      ik_expires_at = en_now en + 24 * 3600 * 1000000\<rparr>"
    using d0 assms(3) key stored later(1) by (simp add: storeIdempotency_def Idempotency_Store_def)
  then have "checkIdempotency en' r d2 = Some (raw, 201)" "checkIdempotency en' r' d2 = Some (raw, 201)"
    using key later by (simp_all add: checkIdempotency_row)
  then show ?thesis using user_handler_hit req by blast
qed

definition sample_create :: http_request where
  "sample_create = sample_request [] (Some (JObj [(''id'', JStr ''u1''), (''name'', JStr ''Ann''), (''email'', JStr ''a@x'')]))
     [(''Idempotency-Key'', ''k'')]"

lemma idempotent_retry_witness:
  "\<exists>raw. deleteUser (sample_env\<lparr>en_now := 9\<rparr>) (sample_request ''u2'' None [(''Idempotency-Key'', ''k'')])
       (snd (createUser sample_env sample_create empty_db))
     = ((writeRawJSON 201 raw, None), snd (createUser sample_env sample_create empty_db))"
proof -
  let ?c = "createUser sample_env sample_create empty_db"
  have "(case rs_payload (fst (fst ?c)) of PUser u \<Rightarrow> user_MarshalSnapshot u \<noteq> None | _ \<Rightarrow> False)" by code_simp
  then obtain u raw where "rs_payload (fst (fst ?c)) = PUser u" "user_MarshalSnapshot u = Some raw"
    by (auto split: payload.splits)
  from idempotent_retry [of sample_env sample_create empty_db "fst (fst ?c)" "snd (fst ?c)" "snd ?c" u raw "''k''"
      "sample_request ''u2'' None [(''Idempotency-Key'', ''k'')]" "snd ?c" "sample_env\<lparr>en_now := 9\<rparr>", OF _ this]
  show ?thesis by (auto simp: sample_env_def sample_create_def sample_request_def)
qed

text \<open>C39: a key protects once: from its expiry on, every user command that carries it is carried out each
  time it is sent, because the expired row is never replaced.\<close>

theorem expired_key_protects_nothing:
  assumes "d_idempotency d key = Some row" "ik_expires_at row \<le> en_now en" "hr_header r ''Idempotency-Key'' = key"
    and "createUser en r d = ((resp, job), d') \<or> updateUser en r d = ((resp, job), d') \<or> deleteUser en r d = ((resp, job), d')"
  shows "checkIdempotency en r d = None \<and> d_idempotency d' key = Some row"
proof
  show "checkIdempotency en r d = None" using assms(1-3) by (simp add: checkIdempotency_row)
  from assms(4) show "d_idempotency d' key = Some row"
  proof (cases rule: user_handler_cases)
    case 1
    then show ?thesis using assms(1) by simp
  next
    case (2 st i expected ty pl m)
    obtain res job' d0 where a: "user_append (en_snapshotN en) (en_fl en) (en_now en) i expected ty pl m d = ((res, job'), d0)"
      by (metis prod.collapse)
    then have "d_idempotency d0 key = Some row" using user_append_idempotency assms(1) by metis
    then show ?thesis
      using 2(2) a assms(3)
      by (cases res) (auto simp: user_answer_def storeIdempotency_def Idempotency_Store_def Let_def split: option.splits)
  qed
qed

lemma expired_key_protects_nothing_witness:
  "\<exists>row. d_idempotency (snd (deleteUser (sample_env\<lparr>en_now := 86400000005\<rparr>)
      (sample_request ''u1'' None [(''Idempotency-Key'', ''k'')]) (snd (createUser sample_env sample_create empty_db)))) ''k'' = Some row
    \<and> ik_expires_at row = 86400000005"
proof -
  let ?d = "snd (createUser sample_env sample_create empty_db)"
  let ?en = "sample_env\<lparr>en_now := 86400000005\<rparr>" and ?r = "sample_request ''u1'' None [(''Idempotency-Key'', ''k'')]"
  have "map_option ik_expires_at (d_idempotency ?d ''k'') = Some 86400000005" by code_simp
  then obtain row where row: "d_idempotency ?d ''k'' = Some row" "ik_expires_at row = 86400000005" by auto
  have "hr_header ?r ''Idempotency-Key'' = ''k''" by code_simp
  with expired_key_protects_nothing [OF row(1), of ?en ?r "fst (fst (deleteUser ?en ?r ?d))" "snd (fst (deleteUser ?en ?r ?d))"
      "snd (deleteUser ?en ?r ?d)"] row(2)
  show ?thesis by (auto simp: sample_env_def)
qed

text \<open>The answer to a wrong expected version, given whether the body was read; the empty change of a user.\<close>

definition mismatch_answer :: "bool \<Rightarrow> response" where
  "mismatch_answer body_ok = (if body_ok then writeError 412 ''expected version mismatch'' else writeError 400 ''invalid json'')"

definition no_change :: update_user_request where
  "no_change = \<lparr>upr_Name = None, upr_Email = None, upr_Address = None, upr_Avatar = None\<rparr>"

text \<open>C28: optimistic locking over HTTP: a change of a user, a product or an order whose \<open>If-Match\<close> names
  (with or without the letter v) another version than the current one changes nothing, not even a
  sequence, and is answered with 412; but with 400 if it needs a body that is not JSON of the right shape,
  and for users with the stored answer if the request carries an idempotency key that has one. This is so
  while beginning the transaction and reading the version do not fail. A quoted \<open>If-Match\<close>, as an
  entity tag is written, is not an error: it counts as none.\<close>

theorem if_match_enforced:
  assumes "db_ok d" "\<not> en_fl en CallBegin" "\<not> en_fl en CallLatestVersion" "in_i64 v"
    and "hr_header r ''If-Match'' \<in> {show_int v, CHR ''v'' # show_int v}"
  shows "(v \<noteq> int (length (aggregate_rows AggregateUser (hr_id r) (d_events d))) \<longrightarrow>
      deleteUser en r d = ((case checkIdempotency en r d of
        Some (body, st) \<Rightarrow> writeRawJSON st body | None \<Rightarrow> mismatch_answer True, None), d) \<and>
      updateUser en r d = ((case (snd (decode_body (dec_struct update_user_fields) no_change r), checkIdempotency en r d) of
        (True, Some (body, st)) \<Rightarrow> writeRawJSON st body | (ok, _) \<Rightarrow> mismatch_answer ok, None), d)) \<and>
    (v \<noteq> int (length (aggregate_rows AggregateProduct (hr_id r) (d_events d))) \<longrightarrow>
      deleteProduct en r d = (mismatch_answer True, d) \<and>
      updateProduct en r d = (mismatch_answer (snd (decode_body (dec_struct product_updated_fields) zero_product_updated r)), d)) \<and>
    (v \<noteq> int (length (aggregate_rows AggregateOrder (hr_id r) (d_events d))) \<longrightarrow>
      cancelOrder en r d = (mismatch_answer True, d) \<and>
      updateOrder en r d = (mismatch_answer (snd (decode_body (dec_struct order_updated_fields) zero_order_updated r)), d) \<and>
      addOrderItem en r d = (mismatch_answer (snd (decode_body (dec_struct item_added_fields) zero_item_added r)), d)) \<and>
    (\<forall>r' s. hr_header r' ''If-Match'' = CHR 0x22 # s \<longrightarrow> parseExpectedVersion r' = None)"
proof (intro conjI)
  note v = parseExpectedVersion_number [OF assms(4,5)]
  note m = Append_mismatch [OF assms(1-3)] and um = user_append_mismatch [OF assms(1-3)]
  show "v \<noteq> int (length (aggregate_rows AggregateUser (hr_id r) (d_events d))) \<longrightarrow>
      deleteUser en r d = ((case checkIdempotency en r d of
        Some (body, st) \<Rightarrow> writeRawJSON st body | None \<Rightarrow> mismatch_answer True, None), d) \<and>
      updateUser en r d = ((case (snd (decode_body (dec_struct update_user_fields) no_change r), checkIdempotency en r d) of
        (True, Some (body, st)) \<Rightarrow> writeRawJSON st body | (ok, _) \<Rightarrow> mismatch_answer ok, None), d)"
    using um v by (auto simp: deleteUser_def updateUser_def user_Delete_def user_Update_def user_answer_def no_change_def
        mismatch_answer_def response_defs split_beta split: option.split bool.split)
  show "v \<noteq> int (length (aggregate_rows AggregateProduct (hr_id r) (d_events d))) \<longrightarrow>
      deleteProduct en r d = (mismatch_answer True, d) \<and>
      updateProduct en r d = (mismatch_answer (snd (decode_body (dec_struct product_updated_fields) zero_product_updated r)), d)"
    using m v by (auto simp: deleteProduct_def updateProduct_def product_Delete_def product_Update_def product_answer_def
        mismatch_answer_def productCmds_def response_defs split_beta)
  show "v \<noteq> int (length (aggregate_rows AggregateOrder (hr_id r) (d_events d))) \<longrightarrow>
      cancelOrder en r d = (mismatch_answer True, d) \<and>
      updateOrder en r d = (mismatch_answer (snd (decode_body (dec_struct order_updated_fields) zero_order_updated r)), d) \<and>
      addOrderItem en r d = (mismatch_answer (snd (decode_body (dec_struct item_added_fields) zero_item_added r)), d)"
    using m v by (auto simp: cancelOrder_def updateOrder_def addOrderItem_def order_Cancel_def order_Update_def
        order_AddItem_def order_answer_def mismatch_answer_def orderCmds_def response_defs split_beta)
  show "\<forall>r' s. hr_header r' ''If-Match'' = CHR 0x22 # s \<longrightarrow> parseExpectedVersion r' = None"
    using parseExpectedVersion_quoted by blast
qed

lemma if_match_enforced_witness:
  "let r = sample_request ''o1'' (Some (JObj [(''name'', JStr ''Bob'')])) [(''If-Match'', ''v3'')];
       bad = sample_request ''o1'' None [(''If-Match'', ''v3'')]
   in updateUser sample_env r empty_db = ((writeError 412 ''expected version mismatch'', None), empty_db) \<and>
      updateUser sample_env bad empty_db = ((writeError 400 ''invalid json'', None), empty_db) \<and>
      updateProduct sample_env r empty_db = (writeError 412 ''expected version mismatch'', empty_db) \<and>
      addOrderItem sample_env r empty_db = (writeError 412 ''expected version mismatch'', empty_db) \<and>
      updateOrder sample_env r empty_db = (writeError 412 ''expected version mismatch'', empty_db) \<and>
      cancelOrder sample_env bad empty_db = (writeError 412 ''expected version mismatch'', empty_db) \<and>
      parseExpectedVersion (sample_request ''o1'' None [(''If-Match'', [CHR 0x22, CHR ''3'', CHR 0x22])]) = None"
proof -
  let ?r = "sample_request ''o1'' (Some (JObj [(''name'', JStr ''Bob'')])) [(''If-Match'', ''v3'')]"
  let ?bad = "sample_request ''o1'' None [(''If-Match'', ''v3'')]"
  have "show_int 3 = ''3''" by code_simp
  moreover have "db_ok empty_db" by (simp add: db_ok_def log_ok_def)
  moreover have "snd (decode_body (dec_struct update_user_fields) no_change ?r)"
    "\<not> snd (decode_body (dec_struct update_user_fields) no_change ?bad)"
    "snd (decode_body (dec_struct product_updated_fields) zero_product_updated ?r)"
    "snd (decode_body (dec_struct order_updated_fields) zero_order_updated ?r)"
    "snd (decode_body (dec_struct item_added_fields) zero_item_added ?r)"
    by (code_simp, code_simp, code_simp, code_simp, code_simp)
  moreover have "checkIdempotency sample_env ?r empty_db = None" by code_simp
  ultimately show ?thesis
    using if_match_enforced [of empty_db sample_env 3 ?r] if_match_enforced [of empty_db sample_env 3 ?bad]
    unfolding Let_def by (intro conjI) (simp_all add: in_i64_def sample_env_def sample_request_def mismatch_answer_def)
qed

text \<open>A replay request whose body gives the version as a text, even the text of a number, is not
  refused: the error of the decoder is dropped, the version stays at zero, and the answer is that
  the aggregate does not exist, however many events it has. The same text as a parameter of a GET is
  answered with 400 when it is no number.\<close>

theorem replay_body_text_version:
  assumes "db_ok d" "all_good_snapshots d" "\<not> en_fl en CallLoadEvents" "\<not> en_fl en CallLatestSnapshot"
    and "hr_has_body r" "hr_body r = Some (JObj [(''version'', JStr s)])"
  shows "replay_body r = at_version 0 \<and>
    productReplay en r d = writeError 404 ''aggregate not found'' \<and>
    orderReplay en r d = writeError 404 ''aggregate not found'' \<and>
    (hr_param r' ''at'' = [] \<and> hr_param r' ''version'' = s \<and> s \<noteq> [] \<and> parse_int64 s = None \<longrightarrow>
      rs_status (getProduct en r' d) = 400 \<and> rs_status (getOrder en r' d) = 400)"
proof -
  have q: "replay_body r = at_version 0"
    using assms(5,6) by (simp add: replay_body_def decode_body_def replay_request_fields_def decode_simps dec_ptr_def dec_int64_def at_version_def empty_query_def)
  have "ReplayProduct (en_fl en) d (hr_id r) (at_version 0) = Inl ErrNotFound"
    "ReplayOrder (en_fl en) d (hr_id r) (at_version 0) = Inl ErrNotFound"
    using replay_version_0 [OF assms(1-4)] by simp_all
  then show ?thesis
    using q by (auto simp: productReplay_def orderReplay_def product_response_def order_response_def handleQueryError_def
        getProduct_def getOrder_def api_parseReplayQuery_def Let_def response_defs)
qed

lemma replay_body_text_version_witness:
  "orderReplay sample_env (sample_request ''o1'' (Some (JObj [(''version'', JStr ''1'')])) []) (sample_db [])
     = writeError 404 ''aggregate not found''"
  using replay_body_text_version [of "sample_db []" sample_env "sample_request ''o1'' (Some (JObj [(''version'', JStr ''1'')])) []" "''1''"]
    sample_db_ok sample_all_good [of "[]"] by (simp add: sample_env_def sample_request_def)

end
