(* ===== verification/Searching.thy ===== *)
theory Searching
  imports System Http_Api "HOL-Library.Multiset"
begin

text \<open>
  The search over all events, from the request (\<open>searchEvents\<close> in \<open>internal/api/helpers.go\<close>) to the
  query (\<open>Search\<close> in \<open>internal/eventstore/store.go\<close>): what it answers in a state the service can
  reach, in terms of the events and their metadata.
\<close>

section \<open>The specification\<close>

text \<open>The filter a request asks for, its bounds being parsed.\<close>

definition request_filter :: "http_request \<Rightarrow> gotime option \<Rightarrow> gotime option \<Rightarrow> search_filter" where
  "request_filter r from_t to_t =
     \<lparr>sf_AggregateType = hr_param r ''aggregate_type'', sf_AggregateID = hr_param r ''aggregate_id'',
      sf_EventType = hr_param r ''event_type'', sf_Actor = hr_param r ''actor'',
      sf_CorrelationID = hr_param r ''correlation_id'', sf_From = from_t, sf_To = to_t\<rparr>"

text \<open>An event matches if it agrees with every field of the filter that is set.\<close>

definition event_matches :: "search_filter \<Rightarrow> stored_event \<Rightarrow> bool" where
  "event_matches f e \<longleftrightarrow>
     (sf_AggregateType f = [] \<or> se_AggregateType e = sf_AggregateType f) \<and>
     (sf_AggregateID f = [] \<or> se_AggregateID e = sf_AggregateID f) \<and>
     (sf_EventType f = [] \<or> se_EventType e = sf_EventType f) \<and>
     (sf_Actor f = [] \<or> md_Actor (se_Metadata e) = sf_Actor f) \<and>
     (sf_CorrelationID f = [] \<or> md_CorrelationID (se_Metadata e) = sf_CorrelationID f) \<and>
     (case sf_From f of None \<Rightarrow> True | Some t \<Rightarrow> to_micros t \<le> to_micros (se_CreatedAt e)) \<and>
     (case sf_To f of None \<Rightarrow> True | Some t \<Rightarrow> to_micros (se_CreatedAt e) \<le> to_micros t)"

definition stored_log :: "db \<Rightarrow> stored_event list" where
  "stored_log d = List.map_filter scan_event (d_events d)"

text \<open>
  The right answers: matching events only, none twice, the newest first, five hundred or all of them,
  and nothing left out that is newer than what is there.
\<close>

definition search_answer :: "search_filter \<Rightarrow> stored_event list \<Rightarrow> stored_event list \<Rightarrow> bool" where
  "search_answer f log es \<longleftrightarrow>
     (let hits = mset (filter (event_matches f) log)
      in mset es \<subseteq># hits \<and> length es = min 500 (size hits) \<and>
         sorted_wrt (\<lambda>a b. to_micros (se_CreatedAt b) \<le> to_micros (se_CreatedAt a)) es \<and>
         (\<forall>a \<in># hits - mset es. \<forall>b \<in> set es. to_micros (se_CreatedAt a) \<le> to_micros (se_CreatedAt b)))"

section \<open>Lemmas\<close>

text \<open>Every row of the log was written by the store.\<close>

definition written_row :: "event_row \<Rightarrow> bool" where
  "written_row r \<longleftrightarrow> (\<exists>now k e. r = new_event_row now k e)"

lemma reachable_written: "reachable t s \<Longrightarrow> list_all written_row (d_events (sy_db s))"
proof (induction rule: reachable.induct)
  case start
  then show ?case by (simp add: initial_sys_def)
next
  case (more s s')
  from reachable_ok [OF more.hyps(1)] more.hyps(2) show ?case
  proof (cases rule: sys_step_db)
    case (written p tx v fl res)
    show ?thesis
    proof (cases res)
      case (Inl e)
      then show ?thesis using tables_eqD [OF write_event_Inl] written(3) more.IH by metis
    next
      case (Inr stored)
      show ?thesis
        using projector.write_event_appends(4) [OF service_projector [OF written(4)] refl written(3) [unfolded Inr] written(6,5)]
          more.IH by (auto simp: written_row_def)
    qed
  next
    case same
    then show ?thesis using more.IH by simp
  next
    case saved
    then show ?thesis using more.IH by (simp add: only_snapshots_def)
  next
    case (published connected fails fl sent)
    then show ?thesis using publishBatch_keeps(4) [OF published] more.IH by simp
  qed
qed

text \<open>On such rows the columns and the metadata agree with the event that is read.\<close>

definition row_event :: "event_row \<Rightarrow> stored_event" where
  "row_event r = the (scan_event r)"

lemma map_filter_scan_written:
  "list_all written_row rows \<Longrightarrow> List.map_filter scan_event rows = map row_event rows"
  by (induction rows) (auto simp: map_filter_simps written_row_def row_event_def)

lemma scanEvents_written:
  assumes "list_all written_row rows"
  shows "scanEvents rows = Inr (map row_event rows)"
proof -
  have "list_all (\<lambda>r. scan_event r \<noteq> None) rows" using assms by (force simp: list_all_iff written_row_def)
  then show ?thesis by (simp add: scanEvents_readable map_filter_scan_written [OF assms])
qed

lemma json_text_metadata:
  "a \<noteq> [] \<Longrightarrow> json_text (metadata_json m) ''actor'' = Some a \<longleftrightarrow> md_Actor m = a"
  "a \<noteq> [] \<Longrightarrow> json_text (metadata_json m) ''correlation_id'' = Some a \<longleftrightarrow> md_CorrelationID m = a"
  by (auto simp: json_text_def metadata_json_def omit_if_def)

lemma search_clause_written:
  assumes "written_row r"
  shows "search_clause f r \<longleftrightarrow> event_matches f (row_event r)" "to_micros (se_CreatedAt (row_event r)) = ev_created_at r"
proof -
  obtain now k e where r: "r = new_event_row now k e" using assms by (auto simp: written_row_def)
  have m: "ev_metadata r = metadata_json (ae_Metadata e)" "ev_aggregate_type r = ae_AggregateType e"
    "ev_aggregate_id r = ae_AggregateID e" "ev_event_type r = ae_EventType e" "ev_created_at r = now"
    by (simp_all add: r new_event_row_def)
  have e: "row_event r = event_of now k e" by (simp add: row_event_def r)
  show "to_micros (se_CreatedAt (row_event r)) = ev_created_at r" by (simp add: e m event_of_def)
  show "search_clause f r \<longleftrightarrow> event_matches f (row_event r)"
    by (cases "sf_Actor f = []"; cases "sf_CorrelationID f = []")
      (simp_all add: search_clause_def event_matches_def e m event_of_def json_text_metadata split: option.split)
qed

lemma take_sorted_newest:
  assumes "sorted_wrt (\<lambda>a b. k b \<le> (k a :: int)) xs" "a \<in> set (drop n xs)" "b \<in> set (take n xs)"
  shows "k a \<le> k b"
  using assms(1) sorted_wrt_append [of "\<lambda>a b. k b \<le> k a" "take n xs" "drop n xs"] assms(2,3) by auto

lemma sorted_newest: "sorted_wrt (\<lambda>a b. k b \<le> (k a :: int)) (sort_key (\<lambda>r. - k r) xs)"
  using sorted_sort_key [of "\<lambda>r. - k r" xs] by (simp add: sorted_map)

text \<open>The query, on a log of written rows.\<close>

lemma Search_written:
  assumes "list_all written_row (d_events d)" "\<not> fl CallSearch" "mset \<circ> plan = mset"
  shows "\<exists>es. Search plan fl d f = Inr es \<and> search_answer f (stored_log d) es"
proof -
  let ?m = "filter (search_clause f) (d_events d)" and ?k = "\<lambda>e. to_micros (se_CreatedAt e)"
  let ?S = "sort_key (\<lambda>r. - ev_created_at r) (plan ?m)"
  have S: "mset ?S = mset ?m" using fun_cong [OF assms(3), of ?m] by simp
  then have set: "set ?S = set ?m" by (metis set_mset_mset)
  have w: "\<forall>r \<in> set ?S. written_row r" using set assms(1) by (simp add: list_all_iff)
  have time: "?k (row_event r) = ev_created_at r" if "r \<in> set ?S" for r
    using search_clause_written(2) w that by blast
  have hits: "filter (event_matches f) (stored_log d) = map row_event ?m"
    using assms(1) search_clause_written(1)
    by (simp add: stored_log_def map_filter_scan_written filter_map list_all_iff comp_def cong: filter_cong)
  define es where "es = map row_event (take 500 ?S)"
  define rest where "rest = map row_event (drop 500 ?S)"
  have split: "mset (map row_event ?m) = mset es + mset rest"
  proof -
    have "es @ rest = map row_event ?S" by (simp only: es_def rest_def map_append [symmetric] append_take_drop_id)
    then have "mset es + mset rest = mset (map row_event ?S)" by (metis mset_append)
    then show ?thesis by (simp only: mset_map S)
  qed
  have "list_all written_row (take 500 ?S)" unfolding list_all_iff using w in_set_takeD by metis
  then have "Search plan fl d f = Inr es"
    using assms(2) unfolding Search_def es_def by (simp only: scanEvents_written if_False)
  moreover have "search_answer f (stored_log d) es"
    unfolding search_answer_def Let_def hits split
  proof (intro conjI)
    show "mset es \<subseteq># mset es + mset rest" by simp
    have "size (mset es + mset rest) = length ?S" by (simp add: es_def rest_def)
    then show "length es = min 500 (size (mset es + mset rest))" by (simp add: es_def)
    have s: "sorted_wrt (\<lambda>a b. ev_created_at b \<le> ev_created_at a) ?S" by (rule sorted_newest)
    then have "sorted_wrt (\<lambda>a b. ev_created_at b \<le> ev_created_at a) (take 500 ?S)" by (rule sorted_wrt_take)
    then have "sorted_wrt (\<lambda>a b. ?k (row_event b) \<le> ?k (row_event a)) (take 500 ?S)"
      by (rule sorted_wrt_mono_rel [rotated]) (metis time in_set_takeD)
    then show "sorted_wrt (\<lambda>a b. ?k b \<le> ?k a) es" by (simp add: es_def sorted_wrt_map)
    show "\<forall>a \<in># mset es + mset rest - mset es. \<forall>b \<in> set es. ?k a \<le> ?k b"
      using take_sorted_newest [OF s, of _ 500] time in_set_takeD [of _ 500 ?S] in_set_dropD [of _ 500 ?S]
      by (auto simp: es_def rest_def)
  qed
  ultimately show ?thesis by blast
qed

section \<open>Properties\<close>

text \<open>C21: a search whose bounds can be read is answered, in every state the service can reach, with right
  answers: events that agree with every field the request sets, the newest first, the newest five
  hundred of them or all. What remains open is the order among events of the same time and which of
  them make it under the limit.\<close>

theorem search_exact:
  assumes "reachable t s" "\<not> en_fl en CallSearch" "mset \<circ> en_plan en = mset"
    "search_bound (hr_param r ''from'') = Some from_t" "search_bound (hr_param r ''to'') = Some to_t"
  shows "\<exists>es. searchEvents en r (sy_db s) = writeJSON 200 (PEvents es) \<and>
    search_answer (request_filter r from_t to_t) (stored_log (sy_db s)) es"
proof -
  from Search_written [of "sy_db s" "en_fl en" "en_plan en" "request_filter r from_t to_t"]
    reachable_written [OF assms(1)] assms(2,3)
  obtain es where es: "Search (en_plan en) (en_fl en) (sy_db s) (request_filter r from_t to_t) = Inr es"
    "search_answer (request_filter r from_t to_t) (stored_log (sy_db s)) es" by blast
  from es(1) have "searchEvents en r (sy_db s) = writeJSON 200 (PEvents es)"
    using assms(4,5) by (simp add: searchEvents_def request_filter_def)
  with es(2) show ?thesis by blast
qed

lemma search_exact_witness:
  "\<exists>es. searchEvents sample_env (sample_request [] None []) late_db = writeJSON 200 (PEvents es) \<and> length es = 2"
proof -
  let ?r = "sample_request [] None []"
  obtain s where s: "reachable 0 s" "sy_db s = late_db" using late_reachable by blast
  have b: "search_bound (hr_param ?r ''from'') = Some None" "search_bound (hr_param ?r ''to'') = Some None"
    by (simp_all add: sample_request_def search_bound_def)
  have "\<not> en_fl sample_env CallSearch" "mset \<circ> en_plan sample_env = mset" by (simp_all add: sample_env_def fun_eq_iff)
  from search_exact [OF s(1) this b] obtain es where
    es: "searchEvents sample_env ?r late_db = writeJSON 200 (PEvents es)"
      "search_answer (request_filter ?r None None) (stored_log late_db) es" using s(2) by auto
  have "length (filter (event_matches (request_filter ?r None None)) (stored_log late_db)) = 2" by code_simp
  with es show ?thesis by (auto simp: search_answer_def Let_def simp flip: size_mset)
qed

end
