(* ===== verification/Diffs.thy ===== *)
theory Diffs
  imports Http_Api Sound_Replays
begin

text \<open>
  The diff endpoints of the REST API (\<open>userDiff\<close> in \<open>internal/api/users.go\<close>, \<open>productDiff\<close> and
  \<open>orderDiff\<close> in \<open>catalog.go\<close>) from the request to the answer: two replays, the fields of both
  states, their comparison.
\<close>

section \<open>The specification\<close>

definition time_keys :: "string set" where
  "time_keys = {''created_at'', ''updated_at''}"

text \<open>
  The right diff of two states whose times are written in UTC: every field that differs is named,
  once and with both values; the two times may be named although they are the same instants, since
  a state read from a snapshot has its times in another zone than one folded from the database.
\<close>

definition exact_diff :: "(string \<rightharpoonup> anyval) \<Rightarrow> (string \<rightharpoonup> anyval) \<Rightarrow> diff_result \<Rightarrow> bool" where
  "exact_diff f t r \<longleftrightarrow> distinct (dr_Changed r) \<and>
     {k. f k \<noteq> t k} \<subseteq> set (dr_Changed r) \<and> set (dr_Changed r) \<subseteq> {k. f k \<noteq> t k} \<union> time_keys \<and>
     (\<forall>k. k \<notin> time_keys \<longrightarrow> dr_Fields r k = change_at f t k)"

section \<open>What the comparison needs of the fields of a state\<close>

locale field_map =
  fixes ToMap :: "'a \<Rightarrow> string \<rightharpoonup> anyval" and utc :: "'a \<Rightarrow> 'a"
  assumes ToMap_utc: "k \<notin> time_keys \<Longrightarrow> ToMap (utc a) k = ToMap a k"
    and ToMap_cong: "ToMap a k = ToMap b k \<Longrightarrow> ToMap (utc a) k = ToMap (utc b) k"
begin

lemma Compare_exact_diff:
  assumes "key_order fo (ToMap x)" "key_order to (ToMap y)" "utc x = utc a" "utc y = utc b"
  shows "exact_diff (ToMap (utc a)) (ToMap (utc b)) (Compare fo to (ToMap x) (ToMap y))"
proof -
  let ?r = "Compare fo to (ToMap x) (ToMap y)"
  have mem: "k \<in> set to \<longleftrightarrow> ToMap y k \<noteq> None" "k \<in> set fo \<longleftrightarrow> ToMap x k \<noteq> None" for k
    using assms(1,2) by (auto simp: key_order_def)
  have d: "distinct (dr_Changed ?r)"
    using assms(1,2) mem by (auto simp: Compare_eq key_order_def)
  have s: "set (dr_Changed ?r) = {k. ToMap x k \<noteq> ToMap y k}" by (rule Compare_changed [OF assms(1,2)])
  have f: "dr_Fields ?r = change_at (ToMap x) (ToMap y)"
    using mem by (auto simp: Compare_eq change_at_def fun_eq_iff)
  have "ToMap x k = ToMap (utc a) k \<and> ToMap y k = ToMap (utc b) k" if "k \<notin> time_keys" for k
    using ToMap_utc [OF that, of x] ToMap_utc [OF that, of y] assms(3,4) by simp
  moreover have "ToMap x k = ToMap y k \<Longrightarrow> ToMap (utc a) k = ToMap (utc b) k" for k
    using ToMap_cong [of x k y] assms(3,4) by simp
  ultimately show ?thesis
    unfolding exact_diff_def s f using d by (auto simp: change_at_def)
qed

lemma replayed_diff:
  assumes "map_sum id utc r1 = map_sum id utc (Inr a)" "map_sum id utc r2 = map_sum id utc (Inr b)"
    "\<And>x. key_order (keys (ToMap x)) (ToMap x)"
  shows "\<exists>x y. r1 = Inr x \<and> r2 = Inr y \<and>
    exact_diff (ToMap (utc a)) (ToMap (utc b)) (Compare (keys (ToMap x)) (keys (ToMap y)) (ToMap x) (ToMap y))"
proof -
  obtain x y where "r1 = Inr x" "utc x = utc a" "r2 = Inr y" "utc y = utc b"
    using assms(1,2) by (cases r1; cases r2) auto
  then show ?thesis using Compare_exact_diff [OF assms(3) assms(3)] by blast
qed

end

lemma product_ToMap_utc_at:
  "product_ToMap x ''created_at'' = Some (ATime (p_CreatedAt x)) \<and>
   product_ToMap x ''updated_at'' = Some (ATime (p_UpdatedAt x)) \<and>
   product_ToMap (product_utc x) ''created_at'' = Some (ATime (in_utc (p_CreatedAt x))) \<and>
   product_ToMap (product_utc x) ''updated_at'' = Some (ATime (in_utc (p_UpdatedAt x))) \<and>
   (k \<noteq> ''created_at'' \<longrightarrow> k \<noteq> ''updated_at'' \<longrightarrow> product_ToMap (product_utc x) k = product_ToMap x k)"
  by (simp add: product_ToMap_def product_utc_def)

lemma order_ToMap_utc_at:
  "order_ToMap x ''created_at'' = Some (ATime (o_CreatedAt x)) \<and>
   order_ToMap x ''updated_at'' = Some (ATime (o_UpdatedAt x)) \<and>
   order_ToMap (order_utc x) ''created_at'' = Some (ATime (in_utc (o_CreatedAt x))) \<and>
   order_ToMap (order_utc x) ''updated_at'' = Some (ATime (in_utc (o_UpdatedAt x))) \<and>
   (k \<noteq> ''created_at'' \<longrightarrow> k \<noteq> ''updated_at'' \<longrightarrow> order_ToMap (order_utc x) k = order_ToMap x k)"
  by (simp add: order_ToMap_def order_utc_def)

interpretation user_fields_map: field_map user_ToMap user_utc
proof
  show utc: "k \<notin> time_keys \<Longrightarrow> user_ToMap (user_utc a) k = user_ToMap a k" for k a
    using user_ToMap_utc_at [of a k] by (simp add: time_keys_def)
  show "user_ToMap a k = user_ToMap b k \<Longrightarrow> user_ToMap (user_utc a) k = user_ToMap (user_utc b) k" for a b k
    using user_ToMap_utc_at [of a k] user_ToMap_utc_at [of b k] utc [of k]
    by (cases "k = ''created_at''"; cases "k = ''updated_at''") (simp_all add: time_keys_def)
qed

interpretation product_fields_map: field_map product_ToMap product_utc
proof
  show utc: "k \<notin> time_keys \<Longrightarrow> product_ToMap (product_utc a) k = product_ToMap a k" for k a
    using product_ToMap_utc_at [of a k] by (simp add: time_keys_def)
  show "product_ToMap a k = product_ToMap b k \<Longrightarrow> product_ToMap (product_utc a) k = product_ToMap (product_utc b) k" for a b k
    using product_ToMap_utc_at [of a k] product_ToMap_utc_at [of b k] utc [of k]
    by (cases "k = ''created_at''"; cases "k = ''updated_at''") (simp_all add: time_keys_def)
qed

interpretation order_fields_map: field_map order_ToMap order_utc
proof
  show utc: "k \<notin> time_keys \<Longrightarrow> order_ToMap (order_utc a) k = order_ToMap a k" for k a
    using order_ToMap_utc_at [of a k] by (simp add: time_keys_def)
  show "order_ToMap a k = order_ToMap b k \<Longrightarrow> order_ToMap (order_utc a) k = order_ToMap (order_utc b) k" for a b k
    using order_ToMap_utc_at [of a k] order_ToMap_utc_at [of b k] utc [of k]
    by (cases "k = ''created_at''"; cases "k = ''updated_at''") (simp_all add: time_keys_def)
qed

section \<open>The three handlers\<close>

lemma diff_handlers:
  assumes "parseTimeOrVersionParam r ''from'' = (qf, True)" "parseTimeOrVersionParam r ''to'' = (qt, True)"
  shows "\<not> en_redis en \<Longrightarrow> ReplayUser (en_fl en) d (hr_id r) qf = Inr u \<Longrightarrow> ReplayUser (en_fl en) d (hr_id r) qt = Inr u' \<Longrightarrow>
      userDiff en r d c = (writeJSON 200 (PDiff (Compare (en_keys en (user_ToMap u)) (en_keys en (user_ToMap u')) (user_ToMap u) (user_ToMap u'))), c)"
    "ReplayProduct (en_fl en) d (hr_id r) qf = Inr p \<Longrightarrow> ReplayProduct (en_fl en) d (hr_id r) qt = Inr p' \<Longrightarrow>
      productDiff en r d = writeJSON 200 (PDiff (Compare (en_keys en (product_ToMap p)) (en_keys en (product_ToMap p')) (product_ToMap p) (product_ToMap p')))"
    "ReplayOrder (en_fl en) d (hr_id r) qf = Inr x \<Longrightarrow> ReplayOrder (en_fl en) d (hr_id r) qt = Inr x' \<Longrightarrow>
      orderDiff en r d = writeJSON 200 (PDiff (Compare (en_keys en (order_ToMap x)) (en_keys en (order_ToMap x')) (order_ToMap x) (order_ToMap x')))"
  using assms by (simp_all add: userDiff_def productDiff_def orderDiff_def api_ReplayUser_def cache_ReplayUser_def Let_def)

text \<open>An order of the keys of every state, and the state of an aggregate at a version.\<close>

definition visits_keys :: "env \<Rightarrow> bool" where
  "visits_keys en \<longleftrightarrow> (\<forall>u. key_order (en_keys en (user_ToMap u)) (user_ToMap u)) \<and>
     (\<forall>p. key_order (en_keys en (product_ToMap p)) (product_ToMap p)) \<and>
     (\<forall>x. key_order (en_keys en (order_ToMap x)) (order_ToMap x))"

definition state_at :: "'a aggregate_ops \<Rightarrow> string \<Rightarrow> string \<Rightarrow> db \<Rightarrow> i64 \<Rightarrow> 'a result" where
  "state_at A ty i d v = fold_state A i (take (nat v) (aggregate_events ty i (d_events d)))"

section \<open>Properties\<close>

text \<open>C20: in every state the service can reach, a diff of a product or of an order between two versions that
  both exist names exactly the fields in which the fold of the first so many events differs from that of
  the others, with the values of both, but for the two times, which it may name although they are
  equal: whatever snapshots there are, in whatever order the fields are visited, while the database
  answers. The same holds for users when there is no cache and their snapshots hold the states their
  versions say; both can fail, and then a diff of users can name a field that did not change.\<close>

theorem diff_end_to_end:
  assumes "reachable t s" "\<not> en_fl en CallLoadEvents" "\<not> en_fl en CallLatestSnapshot"
    "visits_keys en" "parseTimeOrVersionParam r ''from'' = (at_version v, True)" "parseTimeOrVersionParam r ''to'' = (at_version w, True)"
  shows "let d = sy_db s; i = hr_id r
    in (\<forall>p p'. state_at productAgg AggregateProduct i d v = Inr p \<and> state_at productAgg AggregateProduct i d w = Inr p' \<longrightarrow>
         (\<exists>res. productDiff en r d = writeJSON 200 (PDiff res) \<and>
            exact_diff (product_ToMap (product_utc p)) (product_ToMap (product_utc p')) res)) \<and>
       (\<forall>x x'. state_at orderAgg AggregateOrder i d v = Inr x \<and> state_at orderAgg AggregateOrder i d w = Inr x' \<longrightarrow>
         (\<exists>res. orderDiff en r d = writeJSON 200 (PDiff res) \<and>
            exact_diff (order_ToMap (order_utc x)) (order_ToMap (order_utc x')) res)) \<and>
       (users_good d \<and> \<not> en_redis en \<longrightarrow>
         (\<forall>u u'. state_at userAgg AggregateUser i d v = Inr u \<and> state_at userAgg AggregateUser i d w = Inr u' \<longrightarrow>
           (\<exists>res. userDiff en r d c = (writeJSON 200 (PDiff res), c) \<and>
              exact_diff (user_ToMap (user_utc u)) (user_ToMap (user_utc u')) res)))"
  unfolding Let_def
proof (intro conjI allI impI)
  let ?d = "sy_db s"
  note good = reachable_sound [OF assms(1)]
  note h = diff_handlers [OF assms(5,6), of en ?d] and fold = replay_version_fold [OF good(1) assms(2,3), of "hr_id r", folded state_at_def]
  {
    fix u u'
    assume g: "users_good ?d \<and> \<not> en_redis en"
      and "state_at userAgg AggregateUser (hr_id r) ?d v = Inr u \<and> state_at userAgg AggregateUser (hr_id r) ?d w = Inr u'"
    with fold(1) [of v] fold(1) [of w] have r: "map_sum id user_utc (ReplayUser (en_fl en) ?d (hr_id r) (at_version v)) = map_sum id user_utc (Inr u)"
      "map_sum id user_utc (ReplayUser (en_fl en) ?d (hr_id r) (at_version w)) = map_sum id user_utc (Inr u')" by simp_all
    from user_fields_map.replayed_diff [OF r, of "en_keys en"] assms(4) h(1) [OF conjunct2 [OF g]]
    show "\<exists>res. userDiff en r ?d c = (writeJSON 200 (PDiff res), c) \<and>
         exact_diff (user_ToMap (user_utc u)) (user_ToMap (user_utc u')) res"
      unfolding visits_keys_def by blast
  next
    fix p p'
    assume "state_at productAgg AggregateProduct (hr_id r) ?d v = Inr p \<and> state_at productAgg AggregateProduct (hr_id r) ?d w = Inr p'"
    with fold(2) [OF good(2), of v] fold(2) [OF good(2), of w]
    have r: "map_sum id product_utc (ReplayProduct (en_fl en) ?d (hr_id r) (at_version v)) = map_sum id product_utc (Inr p)"
      "map_sum id product_utc (ReplayProduct (en_fl en) ?d (hr_id r) (at_version w)) = map_sum id product_utc (Inr p')" by simp_all
    from product_fields_map.replayed_diff [OF r, of "en_keys en"] assms(4) h(2)
    show "\<exists>res. productDiff en r ?d = writeJSON 200 (PDiff res) \<and>
         exact_diff (product_ToMap (product_utc p)) (product_ToMap (product_utc p')) res"
      unfolding visits_keys_def by blast
  next
    fix x x'
    assume "state_at orderAgg AggregateOrder (hr_id r) ?d v = Inr x \<and> state_at orderAgg AggregateOrder (hr_id r) ?d w = Inr x'"
    with fold(3) [OF good(3), of v] fold(3) [OF good(3), of w]
    have r: "map_sum id order_utc (ReplayOrder (en_fl en) ?d (hr_id r) (at_version v)) = map_sum id order_utc (Inr x)"
      "map_sum id order_utc (ReplayOrder (en_fl en) ?d (hr_id r) (at_version w)) = map_sum id order_utc (Inr x')" by simp_all
    from order_fields_map.replayed_diff [OF r, of "en_keys en"] assms(4) h(3)
    show "\<exists>res. orderDiff en r ?d = writeJSON 200 (PDiff res) \<and>
         exact_diff (order_ToMap (order_utc x)) (order_ToMap (order_utc x')) res"
      unfolding visits_keys_def by blast
  }
qed

definition sample_keys :: "(string \<rightharpoonup> anyval) \<Rightarrow> string list" where
  "sample_keys m = filter (\<lambda>k. m k \<noteq> None) (user_keys @ [''description'', ''price_cents'', ''currency'',
     ''user_id'', ''status'', ''total_cents'', ''items'', ''cancelled''])"

lemma sample_keys_order: "dom m \<subseteq> set (user_keys @ [''description'', ''price_cents'', ''currency'',
     ''user_id'', ''status'', ''total_cents'', ''items'', ''cancelled'']) \<Longrightarrow> key_order (sample_keys m) m"
proof -
  have "distinct (user_keys @ [''description'', ''price_cents'', ''currency'',
     ''user_id'', ''status'', ''total_cents'', ''items'', ''cancelled''])" by code_simp
  then show "dom m \<subseteq> set (user_keys @ [''description'', ''price_cents'', ''currency'',
     ''user_id'', ''status'', ''total_cents'', ''items'', ''cancelled'']) \<Longrightarrow> key_order (sample_keys m) m"
    unfolding key_order_def sample_keys_def by (auto simp only: distinct_filter set_filter domIff)
qed

definition diff_request :: http_request where
  "diff_request = (sample_request ''u1'' None [])\<lparr>hr_param :=
     (\<lambda>k. if k = ''from'' then ''1'' else if k = ''to'' then ''v2'' else [])\<rparr>"

lemma diff_end_to_end_witness:
  "\<exists>res. userDiff (sample_env\<lparr>en_keys := sample_keys\<rparr>) diff_request late_db Map.empty = (writeJSON 200 (PDiff res), Map.empty) \<and>
     ''name'' \<in> set (dr_Changed res) \<and> ''email'' \<notin> set (dr_Changed res)"
proof -
  let ?en = "sample_env\<lparr>en_keys := sample_keys\<rparr>"
  have k: "visits_keys ?en"
  proof -
    have "dom (user_ToMap u) \<subseteq> set (user_keys @ [''description'', ''price_cents'', ''currency'', ''user_id'', ''status'', ''total_cents'', ''items'', ''cancelled''])"
      "dom (product_ToMap p) \<subseteq> set (user_keys @ [''description'', ''price_cents'', ''currency'', ''user_id'', ''status'', ''total_cents'', ''items'', ''cancelled''])"
      "dom (order_ToMap x) \<subseteq> set (user_keys @ [''description'', ''price_cents'', ''currency'', ''user_id'', ''status'', ''total_cents'', ''items'', ''cancelled''])"
      for u p x by (simp_all add: user_ToMap_def product_ToMap_def order_ToMap_def user_keys_def)
    then show ?thesis using sample_keys_order by (simp add: visits_keys_def)
  qed
  have q: "parseTimeOrVersionParam diff_request ''from'' = (at_version 1, True)"
    "parseTimeOrVersionParam diff_request ''to'' = (at_version 2, True)" by (code_simp, code_simp)
  have i: "hr_id diff_request = ''u1''" by (simp add: diff_request_def sample_request_def)
  define a b where "a = projr (state_at userAgg AggregateUser ''u1'' late_db 1)"
    and "b = projr (state_at userAgg AggregateUser ''u1'' late_db 2)"
  have s: "\<not> isl (state_at userAgg AggregateUser ''u1'' late_db 1)" "\<not> isl (state_at userAgg AggregateUser ''u1'' late_db 2)"
    by (code_simp, code_simp)
  then have ab: "state_at userAgg AggregateUser (hr_id diff_request) late_db 1 = Inr a \<and>
      state_at userAgg AggregateUser (hr_id diff_request) late_db 2 = Inr b"
    by (simp add: a_def b_def i)
  obtain sy where sy: "reachable 0 sy" "sy_db sy = late_db" using late_reachable by blast
  have en: "\<not> en_fl ?en CallLoadEvents" "\<not> en_fl ?en CallLatestSnapshot" "\<not> en_redis ?en"
    by (simp_all add: sample_env_def)
  from diff_end_to_end [OF sy(1) en(1,2) k q, of Map.empty] sy(2) en(3) late_users_good ab
  obtain res where res: "userDiff ?en diff_request late_db Map.empty = (writeJSON 200 (PDiff res), Map.empty)"
    "exact_diff (user_ToMap (user_utc a)) (user_ToMap (user_utc b)) res"
    unfolding Let_def by simp blast
  have "u_Name a \<noteq> u_Name b" "u_Email a = u_Email b" unfolding a_def b_def by (code_simp, code_simp)
  then have "user_ToMap (user_utc a) ''name'' \<noteq> user_ToMap (user_utc b) ''name''"
    "user_ToMap (user_utc a) ''email'' = user_ToMap (user_utc b) ''email''"
    by (simp_all add: user_ToMap_def user_utc_def)
  with res(2) have "''name'' \<in> set (dr_Changed res)" "''email'' \<notin> set (dr_Changed res)"
    by (auto simp: exact_diff_def time_keys_def)
  with res(1) show ?thesis by blast
qed

end
