(* ===== verification/Cache_Expiry.thy ===== *)
theory Cache_Expiry
  imports System Replay_Cache
begin

text \<open>
  The cache of \<open>internal/cache/redis.go\<close> over time: entries with the time to live of
  \<open>REPLAY_CACHE_TTL\<close>, next to the running service. A cached replay that misses has two steps, the
  replay and the \<open>Set\<close> of its result, with whatever happens in between. The clock of Redis is taken to
  be that of the database; the one is read in nanoseconds, the other in microseconds. A time to live is
  taken to be a whole number of milliseconds, the unit Redis is told.
\<close>

section \<open>Entries that expire\<close>

text \<open>A document and, when it has a time to live, when that ends. The client of Redis sends none unless it is positive.\<close>

type_synonym timed_redis = "string \<rightharpoonup> json \<times> int option"

definition redis_Set :: "int \<Rightarrow> int \<Rightarrow> string \<Rightarrow> json \<Rightarrow> timed_redis \<Rightarrow> timed_redis" where
  "redis_Set now ttl k raw r = r(k \<mapsto> (raw, if 0 < ttl then Some (now + ttl) else None))"

definition live :: "int \<Rightarrow> timed_redis \<Rightarrow> redis" where
  "live now r k = (case r k of
       None \<Rightarrow> None
     | Some (raw, ends) \<Rightarrow> (case ends of None \<Rightarrow> Some raw | Some u \<Rightarrow> if now < u then Some raw else None))"

definition cache_lookup :: "bool \<Rightarrow> string \<Rightarrow> replay_query \<Rightarrow> redis \<Rightarrow> user option" where
  "cache_lookup get_ok i query r =
     (if get_ok then Option.bind (r (cacheKey ''user'' i query)) (\<lambda>raw. user_UnmarshalSnapshot raw (user_New [])) else None)"

definition cache_store :: "int \<Rightarrow> int \<Rightarrow> string \<Rightarrow> replay_query \<Rightarrow> user \<Rightarrow> timed_redis \<Rightarrow> timed_redis" where
  "cache_store ttl now i query u r =
     (case user_MarshalSnapshot u of None \<Rightarrow> r | Some raw \<Rightarrow> redis_Set now ttl (cacheKey ''user'' i query) raw r)"

text \<open>At one moment this is the cached replay of \<open>Replay_Cache\<close> on the entries alive.\<close>

lemma live_Set: "live now (redis_Set now ttl k raw r) = (live now r)(k \<mapsto> raw)"
  by (simp add: live_def redis_Set_def fun_eq_iff)

lemma cache_ReplayUser_timed:
  "cache_ReplayUser True get_ok set_ok fl d i q (live now r) =
     (case cache_lookup get_ok i q (live now r) of
        Some u \<Rightarrow> (Inr u, live now r)
      | None \<Rightarrow> (case ReplayUser fl d i q of
            Inl e \<Rightarrow> (Inl e, live now r)
          | Inr u \<Rightarrow> (Inr u, live now (if set_ok then cache_store ttl now i q u r else r))))"
  by (simp add: cache_ReplayUser_def cache_lookup_def cache_store_def live_Set Let_def split: option.split sum.split)

section \<open>The service with its cache\<close>

record cached_read =
  rd_id :: string
  rd_query :: replay_query
  rd_user :: user

record caching =
  ca_sys :: sys
  ca_redis :: timed_redis
  ca_reads :: "nat \<rightharpoonup> cached_read"

definition nanos :: "caching \<Rightarrow> int" where
  "nanos s = 1000 * sy_clock (ca_sys s)"

definition caching_initial :: "int \<Rightarrow> caching" where
  "caching_initial t = \<lparr>ca_sys = initial_sys t, ca_redis = Map.empty, ca_reads = Map.empty\<rparr>"

inductive cache_step :: "int \<Rightarrow> caching \<Rightarrow> caching \<Rightarrow> bool" for ttl where
  service_moves: "sys_step (ca_sys s) sy \<Longrightarrow> cache_step ttl s (s\<lparr>ca_sys := sy\<rparr>)"
| read_misses: "ca_reads s p = None \<Longrightarrow> cache_lookup get_ok i q (live (nanos s) (ca_redis s)) = None \<Longrightarrow>
    ReplayUser fl (sy_db (ca_sys s)) i q = Inr u \<Longrightarrow>
    cache_step ttl s (s\<lparr>ca_reads := (ca_reads s)(p \<mapsto> \<lparr>rd_id = i, rd_query = q, rd_user = u\<rparr>)\<rparr>)"
| read_stores: "ca_reads s p = Some rd \<Longrightarrow>
    cache_step ttl s (s\<lparr>ca_redis := cache_store ttl (nanos s) (rd_id rd) (rd_query rd) (rd_user rd) (ca_redis s),
      ca_reads := (ca_reads s)(p := None)\<rparr>)"
| read_ends: "cache_step ttl s (s\<lparr>ca_reads := (ca_reads s)(p := None)\<rparr>)"
| entry_evicted: "cache_step ttl s (s\<lparr>ca_redis := (ca_redis s)(k := None)\<rparr>)"

inductive cache_reachable :: "int \<Rightarrow> int \<Rightarrow> caching \<Rightarrow> bool" for ttl t where
  cache_start: "cache_reachable ttl t (caching_initial t)"
| cache_more: "cache_reachable ttl t s \<Longrightarrow> cache_step ttl s s' \<Longrightarrow> cache_reachable ttl t s'"

section \<open>Where entries come from\<close>

text \<open>A replay of the past: of a state the service went through on its way to the present one.\<close>

definition replayed_before :: "int \<Rightarrow> sys \<Rightarrow> sys \<Rightarrow> string \<Rightarrow> replay_query \<Rightarrow> user \<Rightarrow> bool" where
  "replayed_before t past sy i q u \<longleftrightarrow> reachable t past \<and> sys_step\<^sup>*\<^sup>* past sy \<and> (\<exists>fl. ReplayUser fl (sy_db past) i q = Inr u)"

definition entry_from :: "int \<Rightarrow> int \<Rightarrow> sys \<Rightarrow> string \<Rightarrow> json \<Rightarrow> int option \<Rightarrow> bool" where
  "entry_from ttl t sy k raw ends \<longleftrightarrow> (\<exists>past stored i q u. k = cacheKey ''user'' i q \<and> replayed_before t past sy i q u \<and>
     sy_clock past \<le> stored \<and> stored \<le> sy_clock sy \<and> user_MarshalSnapshot u = Some raw \<and>
     ends = (if 0 < ttl then Some (1000 * stored + ttl) else None))"

definition caching_ok :: "int \<Rightarrow> int \<Rightarrow> caching \<Rightarrow> bool" where
  "caching_ok ttl t s \<longleftrightarrow> reachable t (ca_sys s) \<and>
     (\<forall>k raw ends. ca_redis s k = Some (raw, ends) \<longrightarrow> entry_from ttl t (ca_sys s) k raw ends) \<and>
     (\<forall>p rd. ca_reads s p = Some rd \<longrightarrow> (\<exists>past. replayed_before t past (ca_sys s) (rd_id rd) (rd_query rd) (rd_user rd)))"

lemma sys_steps_clock: "sys_step\<^sup>*\<^sup>* s s' \<Longrightarrow> sy_clock s \<le> sy_clock s'"
  by (induction rule: rtranclp_induct) (auto dest: sys_step_clock)

lemma replayed_before_step: "replayed_before t past sy i q u \<Longrightarrow> sys_step sy sy' \<Longrightarrow> replayed_before t past sy' i q u"
  by (auto simp: replayed_before_def)

lemma entry_from_step:
  assumes "entry_from ttl t sy k raw ends" "sys_step sy sy'"
  shows "entry_from ttl t sy' k raw ends"
proof -
  from assms(1) obtain past stored i q u where e: "k = cacheKey ''user'' i q" "replayed_before t past sy i q u"
    "sy_clock past \<le> stored" "stored \<le> sy_clock sy" "user_MarshalSnapshot u = Some raw"
    "ends = (if 0 < ttl then Some (1000 * stored + ttl) else None)"
    by (auto simp: entry_from_def)
  have "stored \<le> sy_clock sy'" using e(4) sys_step_clock [OF assms(2)] by simp
  with e replayed_before_step [OF e(2) assms(2)] show ?thesis unfolding entry_from_def by blast
qed

lemma cache_store_from:
  assumes "replayed_before t past sy i q u"
    "\<forall>k raw ends. r k = Some (raw, ends) \<longrightarrow> entry_from ttl t sy k raw ends"
  shows "cache_store ttl (1000 * sy_clock sy) i q u r k = Some (raw, ends) \<Longrightarrow> entry_from ttl t sy k raw ends"
proof -
  have "sy_clock past \<le> sy_clock sy" using assms(1) sys_steps_clock by (auto simp: replayed_before_def)
  then have "user_MarshalSnapshot u = Some raw' \<Longrightarrow>
      entry_from ttl t sy (cacheKey ''user'' i q) raw' (if 0 < ttl then Some (1000 * sy_clock sy + ttl) else None)" for raw'
    using assms(1) unfolding entry_from_def by blast
  then show "cache_store ttl (1000 * sy_clock sy) i q u r k = Some (raw, ends) \<Longrightarrow> entry_from ttl t sy k raw ends"
    using assms(2) by (auto simp: cache_store_def redis_Set_def split: option.splits if_splits)
qed

lemma caching_ok_step:
  assumes "caching_ok ttl t s" "cache_step ttl s s'"
  shows "caching_ok ttl t s'"
  using assms(2)
proof (cases rule: cache_step.cases)
  case (service_moves sy)
  then show ?thesis
    using assms(1) more [of t "ca_sys s" sy] entry_from_step replayed_before_step
    by (simp add: caching_ok_def) blast
next
  case (read_misses p get_ok i q fl u)
  have "replayed_before t (ca_sys s) (ca_sys s) i q u"
    using assms(1) read_misses(4) by (auto simp: replayed_before_def caching_ok_def)
  then show ?thesis using assms(1) read_misses(1) by (auto simp: caching_ok_def)
next
  case (read_stores p rd)
  obtain past where "replayed_before t past (ca_sys s) (rd_id rd) (rd_query rd) (rd_user rd)"
    using assms(1) read_stores(2) unfolding caching_ok_def by blast
  from cache_store_from [OF this] read_stores(1) show ?thesis
    using assms(1) by (auto simp: caching_ok_def nanos_def)
next
  case read_ends
  then show ?thesis using assms(1) by (auto simp: caching_ok_def)
next
  case entry_evicted
  then show ?thesis using assms(1) by (auto simp: caching_ok_def)
qed

lemma cache_reachable_ok: "cache_reachable ttl t s \<Longrightarrow> caching_ok ttl t s"
proof (induction rule: cache_reachable.induct)
  case cache_start
  then show ?case by (simp add: caching_initial_def caching_ok_def reachable.start)
next
  case (cache_more s s')
  then show ?case using caching_ok_step by blast
qed

lemma replayed_reads_back:
  assumes "replayed_before t past sy i q u" "all_good_snapshots (sy_db past)"
    "user_MarshalSnapshot u = Some raw" "user_UnmarshalSnapshot raw (user_New []) = Some x"
  shows "x = user_utc u"
proof -
  have "db_ok (sy_db past)" using assms(1) reachable_ok by (auto simp: replayed_before_def sys_ok_def)
  then have "user_local u"
    using assms(1,2) unfolding all_good_snapshots_def replayed_before_def ReplayUser_def
    by (blast intro: user_agg.engine_replay_ok)
  from user_snapshot_roundtrip [OF assms(3) this, of "[]"] assms(4) show ?thesis by simp
qed

section \<open>Properties\<close>

text \<open>C35: how stale the cache can be. Whatever the service, other readers and evictions did before, a hit
  for a user and a query is what a replay for that user, under a query that agrees on the version,
  else on the time, returned in a state the service went through; and if the time to live is
  positive, its result was put into the cache less than that long ago, and nothing that is there now
  is there once it has passed. If it is zero or negative, which any such setting of
  \<open>REPLAY_CACHE_TTL\<close> makes it, nothing ever expires.\<close>

theorem cache_staleness:
  assumes "cache_reachable ttl t s"
  shows "(cache_lookup get_ok i q (live (nanos s) (ca_redis s)) = Some x \<longrightarrow>
      (\<exists>past stored q' u. replayed_before t past (ca_sys s) i q' u \<and> key_part q' = key_part q \<and>
         sy_clock past \<le> stored \<and> stored \<le> sy_clock (ca_sys s) \<and> (0 < ttl \<longrightarrow> nanos s < 1000 * stored + ttl) \<and>
         Option.bind (user_MarshalSnapshot u) (\<lambda>raw. user_UnmarshalSnapshot raw (user_New [])) = Some x \<and>
         (all_good_snapshots (sy_db past) \<longrightarrow> x = user_utc u))) \<and>
    (if 0 < ttl then \<forall>now. nanos s + ttl \<le> now \<longrightarrow> live now (ca_redis s) = Map.empty
     else \<forall>now. live now (ca_redis s) = live (nanos s) (ca_redis s))"
proof (intro conjI impI)
  have ok: "ca_redis s k = Some (raw, ends) \<Longrightarrow> entry_from ttl t (ca_sys s) k raw ends" for k raw ends
    using cache_reachable_ok [OF assms] by (simp add: caching_ok_def)
  {
    assume "cache_lookup get_ok i q (live (nanos s) (ca_redis s)) = Some x"
    then obtain raw ends where l: "ca_redis s (cacheKey ''user'' i q) = Some (raw, ends)"
      "user_UnmarshalSnapshot raw (user_New []) = Some x" "\<And>u. ends = Some u \<Longrightarrow> nanos s < u"
      by (auto simp: cache_lookup_def live_def bind_eq_Some_conv split: if_splits option.splits)
    from ok [OF l(1)] obtain past stored j q' u where e: "cacheKey ''user'' i q = cacheKey ''user'' j q'"
      "replayed_before t past (ca_sys s) j q' u" "sy_clock past \<le> stored" "stored \<le> sy_clock (ca_sys s)"
      "user_MarshalSnapshot u = Some raw" "ends = (if 0 < ttl then Some (1000 * stored + ttl) else None)"
      unfolding entry_from_def by blast
    have "i = j \<and> key_part q = key_part q'"
      using e(1) key_suffix_inj [of i "key_part q" j "key_part q'"] by (simp add: cacheKey_suffix)
    then show "\<exists>past stored q' u. replayed_before t past (ca_sys s) i q' u \<and> key_part q' = key_part q \<and>
         sy_clock past \<le> stored \<and> stored \<le> sy_clock (ca_sys s) \<and> (0 < ttl \<longrightarrow> nanos s < 1000 * stored + ttl) \<and>
         Option.bind (user_MarshalSnapshot u) (\<lambda>raw. user_UnmarshalSnapshot raw (user_New [])) = Some x \<and>
         (all_good_snapshots (sy_db past) \<longrightarrow> x = user_utc u)"
      using e(2-6) l(2,3) replayed_reads_back [OF e(2) _ e(5) l(2)] by (intro exI conjI) auto
  }
  have ends: "ca_redis s k = Some (raw, ends) \<Longrightarrow>
      if 0 < ttl then \<exists>u. ends = Some u \<and> u \<le> nanos s + ttl else ends = None" for k raw ends
    using ok [of k raw ends] by (auto simp: entry_from_def nanos_def)
  show "if 0 < ttl then \<forall>now. nanos s + ttl \<le> now \<longrightarrow> live now (ca_redis s) = Map.empty
     else \<forall>now. live now (ca_redis s) = live (nanos s) (ca_redis s)"
    using ends by (fastforce simp: live_def fun_eq_iff split: option.splits if_splits)
qed

lemma reachable_caching:
  "reachable t sy \<Longrightarrow> cache_reachable ttl t \<lparr>ca_sys = sy, ca_redis = Map.empty, ca_reads = Map.empty\<rparr>"
proof (induction rule: reachable.induct)
  case start
  then show ?case using cache_start [of ttl t] by (simp add: caching_initial_def)
next
  case (more sy sy')
  from cache_more [OF more.IH service_moves, of sy'] more.hyps(2) show ?case by simp
qed

lemma cache_staleness_witness:
  "\<exists>s x. cache_reachable 300000000000 0 s \<and> cache_lookup True ''u1'' empty_query (live (nanos s) (ca_redis s)) = Some x \<and>
     (\<exists>past q' u. replayed_before 0 past (ca_sys s) ''u1'' q' u) \<and> live (nanos s + 300000000000) (ca_redis s) = Map.empty"
proof -
  let ?ttl = "300000000000"
  obtain sy where sy: "reachable 0 sy" "sy_db sy = late_db" using late_reachable by blast
  let ?s0 = "\<lparr>ca_sys = sy, ca_redis = Map.empty, ca_reads = Map.empty\<rparr>"
  have x: "case ReplayUser no_faults late_db ''u1'' empty_query of Inl e \<Rightarrow> False | Inr u \<Rightarrow>
      Option.bind (user_MarshalSnapshot u) (\<lambda>raw. user_UnmarshalSnapshot raw (user_New [])) \<noteq> None" by code_simp
  then obtain u raw x where u: "ReplayUser no_faults late_db ''u1'' empty_query = Inr u" "user_MarshalSnapshot u = Some raw"
    "user_UnmarshalSnapshot raw (user_New []) = Some x"
    by (auto split: sum.splits simp: bind_eq_None_conv)
  let ?rd = "\<lparr>rd_id = ''u1'', rd_query = empty_query, rd_user = u\<rparr>"
  let ?s1 = "?s0\<lparr>ca_reads := Map.empty(0 \<mapsto> ?rd)\<rparr>"
  let ?s2 = "?s1\<lparr>ca_redis := cache_store ?ttl (nanos ?s1) ''u1'' empty_query u Map.empty, ca_reads := (ca_reads ?s1)(0 := None)\<rparr>"
  have "cache_step ?ttl ?s0 ?s1"
    using read_misses [of ?s0 0 False "''u1''" empty_query no_faults u ?ttl] u(1) sy(2) by (simp add: cache_lookup_def)
  moreover have "cache_step ?ttl ?s1 ?s2" using read_stores [of ?s1 0 ?rd ?ttl] by simp
  ultimately have r: "cache_reachable ?ttl 0 ?s2" using reachable_caching [OF sy(1)] cache_more by blast
  have "cache_lookup True ''u1'' empty_query (live (nanos ?s2) (ca_redis ?s2)) = Some x"
    using u(2,3) by (simp add: cache_lookup_def cache_store_def live_def redis_Set_def nanos_def)
  with cache_staleness [OF r, of True "''u1''" empty_query x] r show ?thesis by (intro exI [of _ ?s2] exI [of _ x]) auto
qed

end
