(* ===== verification/Rate_Limiter.thy ===== *)
theory Rate_Limiter
  imports Prelude
begin

text \<open>
  \<open>internal/api/ratelimit.go\<close>: the sliding-window limit on requests by client address. Times and
  the window are nanoseconds; the clock is \<open>time.Now\<close>, which does not go back.
\<close>

section \<open>Operations\<close>

record rate_limiter =
  rl_clients :: "string \<rightharpoonup> int list"
  rl_limit :: int
  rl_window :: int

definition newRateLimiter :: "int \<Rightarrow> int \<Rightarrow> rate_limiter" where
  "newRateLimiter limit window = \<lparr>rl_clients = Map.empty, rl_limit = limit, rl_window = window\<rparr>"

definition client_times :: "rate_limiter \<Rightarrow> string \<Rightarrow> int list" where
  "client_times rl key = (case rl_clients rl key of None \<Rightarrow> [] | Some ts \<Rightarrow> ts)"

definition allow :: "int \<Rightarrow> string \<Rightarrow> rate_limiter \<Rightarrow> bool \<times> rate_limiter" where
  "allow now key rl =
     (let cutoff = now - rl_window rl;
          filtered = filter (\<lambda>t. cutoff < t) (client_times rl key)
      in if rl_limit rl \<le> int (length filtered)
         then (False, rl\<lparr>rl_clients := (rl_clients rl)(key \<mapsto> filtered)\<rparr>)
         else (True, rl\<lparr>rl_clients := (rl_clients rl)(key \<mapsto> filtered @ [now])\<rparr>))"

text \<open>
  \<open>net.SplitHostPort\<close>, for its host: the text before the last colon, or between brackets before
  it; \<open>None\<close> is an error.
\<close>

definition has_char :: "char \<Rightarrow> string \<Rightarrow> bool" where
  "has_char c s = list_ex (\<lambda>d. d = c) s"

definition split_host :: "string \<Rightarrow> string option" where
  "split_host hostport =
     (if \<not> has_char CHR '':'' hostport then None
      else (let after = rev (takeWhile (\<lambda>c. c \<noteq> CHR '':'') (rev hostport));
                before = take (length hostport - length after - 1) hostport
            in case hostport of
                 CHR ''['' # rest \<Rightarrow>
                   (let host = takeWhile (\<lambda>c. c \<noteq> CHR '']'') rest
                    in if \<not> has_char CHR '']'' rest \<or> length host + 2 \<noteq> length before then None
                       else if has_char CHR ''['' rest \<or> has_char CHR '']'' (drop (length host + 1) rest) then None
                       else Some host)
               | _ \<Rightarrow> if has_char CHR '':'' before \<or> has_char CHR ''['' hostport \<or> has_char CHR '']'' hostport then None
                      else Some before))"

text \<open>The key of a request: the host of its address, or the whole text when it has no port.\<close>

definition client_key :: "string \<Rightarrow> string" where
  "client_key remoteAddr = (case split_host remoteAddr of Some ip \<Rightarrow> ip | None \<Rightarrow> remoteAddr)"

text \<open>\<open>rateLimitMiddleware\<close>: \<open>None\<close> is the answer 429, otherwise the next handler runs.\<close>

definition rateLimitMiddleware :: "int \<Rightarrow> string \<Rightarrow> rate_limiter \<Rightarrow> (unit \<Rightarrow> 'a) \<Rightarrow> 'a option \<times> rate_limiter" where
  "rateLimitMiddleware now remoteAddr rl handler =
     (case allow now (client_key remoteAddr) rl of
        (False, rl') \<Rightarrow> (None, rl')
      | (True, rl') \<Rightarrow> (Some (handler ()), rl'))"

section \<open>Lemmas\<close>

text \<open>A run of requests, each with its time and its key; the result is what was let through.\<close>

fun run_limiter :: "(int \<times> string) list \<Rightarrow> rate_limiter \<Rightarrow> (int \<times> string) list \<times> rate_limiter" where
  "run_limiter [] rl = ([], rl)"
| "run_limiter ((now, key) # reqs) rl =
     (let (ok, rl') = allow now key rl; (passed, rl'') = run_limiter reqs rl'
      in (if ok then (now, key) # passed else passed, rl''))"

definition times_of :: "string \<Rightarrow> (int \<times> string) list \<Rightarrow> int list" where
  "times_of key reqs = map fst (filter (\<lambda>r. snd r = key) reqs)"

lemma times_of_simps [simp]:
  "times_of key [] = []"
  "times_of key ((t, k) # reqs) = (if k = key then t # times_of key reqs else times_of key reqs)"
  by (simp_all add: times_of_def)

definition in_window :: "int \<Rightarrow> int \<Rightarrow> int \<Rightarrow> bool" where
  "in_window w t u \<longleftrightarrow> t - w < u \<and> u \<le> t"

text \<open>
  What the limiter keeps for a key, after the requests \<open>past\<close> were let through: those within the
  window of the last time it looked.
\<close>

definition keeps_window :: "int \<Rightarrow> int \<Rightarrow> int list \<Rightarrow> int list \<Rightarrow> bool" where
  "keeps_window w now past kept \<longleftrightarrow>
     (\<forall>t \<ge> now. filter (\<lambda>u. t - w < u) kept = filter (\<lambda>u. t - w < u) past) \<and> (\<forall>u \<in> set past. u \<le> now)"

definition bounded :: "int \<Rightarrow> int \<Rightarrow> int list \<Rightarrow> bool" where
  "bounded limit w past \<longleftrightarrow> (\<forall>t. int (length (filter (in_window w t) past)) \<le> limit)"

lemma keeps_window_later: "keeps_window w now past kept \<Longrightarrow> now \<le> now' \<Longrightarrow> keeps_window w now' past kept"
  by (force simp: keeps_window_def)

lemma filter_later: "t \<le> t' \<Longrightarrow> filter (\<lambda>u. t' - w < u) (filter (\<lambda>u. t - w < u) us) = filter (\<lambda>u. t' - (w::int) < u) us"
  by (induction us) auto

lemma keeps_window_filter:
  "keeps_window w now past kept \<Longrightarrow> keeps_window w now past (filter (\<lambda>u. now - w < u) kept)"
  by (auto simp: keeps_window_def filter_later simp del: filter_filter)

lemma keeps_window_add:
  "keeps_window w now past kept \<Longrightarrow> keeps_window w now (past @ [now]) (filter (\<lambda>u. now - w < u) kept @ [now])"
  by (auto simp: keeps_window_def filter_later simp del: filter_filter)

lemma bounded_add:
  assumes b: "bounded limit w past" and k: "keeps_window w now past kept"
    and l: "int (length (filter (\<lambda>u. now - w < u) kept)) < limit"
  shows "bounded limit w (past @ [now])"
  unfolding bounded_def
proof
  fix t
  show "int (length (filter (in_window w t) (past @ [now]))) \<le> limit"
  proof (cases "now \<le> t")
    case True
    have "length (filter (in_window w t) past) \<le> length (filter (\<lambda>u. now - w < u) past)"
      using True by (induction past) (auto simp: in_window_def)
    also have "\<dots> = length (filter (\<lambda>u. now - w < u) kept)" using k by (simp add: keeps_window_def)
    finally show ?thesis using l by simp
  next
    case False
    then show ?thesis using b by (simp add: bounded_def in_window_def)
  qed
qed

lemma run_limiter_bounded:
  assumes "sorted (map fst reqs)" "\<forall>r \<in> set reqs. now \<le> fst r"
    "\<forall>key. keeps_window (rl_window rl) now (past key) (client_times rl key) \<and> bounded (rl_limit rl) (rl_window rl) (past key)"
  shows "bounded (rl_limit rl) (rl_window rl) (past key @ times_of key (fst (run_limiter reqs rl)))"
  using assms
proof (induction reqs arbitrary: rl now past)
  case Nil
  then show ?case by simp
next
  case (Cons r reqs)
  obtain t k where r: "r = (t, k)" by force
  let ?f = "filter (\<lambda>u. t - rl_window rl < u) (client_times rl k)"
  have w: "keeps_window (rl_window rl) t (past key') (client_times rl key')" "bounded (rl_limit rl) (rl_window rl) (past key')" for key'
    using Cons.prems(2,3) r by (auto intro: keeps_window_later)
  have rest: "sorted (map fst reqs)" "\<forall>r \<in> set reqs. t \<le> fst r" using Cons.prems(1) r by auto
  show ?case
  proof (cases "rl_limit rl \<le> int (length ?f)")
    case True
    let ?rl = "rl\<lparr>rl_clients := (rl_clients rl)(k \<mapsto> ?f)\<rparr>"
    have "\<forall>key'. keeps_window (rl_window ?rl) t (past key') (client_times ?rl key') \<and> bounded (rl_limit ?rl) (rl_window ?rl) (past key')"
      using w keeps_window_filter by (simp add: client_times_def)
    from Cons.IH [OF rest this] True show ?thesis
      by (simp add: r allow_def Let_def split_beta)
  next
    case False
    let ?rl = "rl\<lparr>rl_clients := (rl_clients rl)(k \<mapsto> ?f @ [t])\<rparr>"
    let ?past = "past(k := past k @ [t])"
    have "\<forall>key'. keeps_window (rl_window ?rl) t (?past key') (client_times ?rl key') \<and> bounded (rl_limit ?rl) (rl_window ?rl) (?past key')"
      using w keeps_window_add [OF w(1)] bounded_add [OF w(2) w(1)] False by (simp add: client_times_def)
    from Cons.IH [OF rest this] False show ?thesis
      by (simp add: r allow_def Let_def split_beta split: if_splits)
  qed
qed

section \<open>Properties\<close>

text \<open>C32: whatever requests come at times that do not go back, no window of the configured length lets
  more than the limit of one client's requests through.\<close>

theorem rate_limit_holds:
  assumes "sorted (map fst reqs)" "0 \<le> limit"
  shows "int (length (filter (in_window window t) (times_of key (fst (run_limiter reqs (newRateLimiter limit window)))))) \<le> limit"
proof -
  obtain now where now: "\<forall>r \<in> set reqs. now \<le> fst r"
    by (cases reqs) (use assms(1) in \<open>auto intro: that [of 0]\<close>)
  have "\<forall>key. keeps_window window now [] (client_times (newRateLimiter limit window) key) \<and> bounded limit window []"
    using assms(2) by (simp add: keeps_window_def bounded_def client_times_def newRateLimiter_def)
  then have "bounded limit window (times_of key (fst (run_limiter reqs (newRateLimiter limit window))))"
    using run_limiter_bounded [OF assms(1) now, of "newRateLimiter limit window" "\<lambda>_. []" key]
    by (simp add: newRateLimiter_def)
  then show ?thesis by (simp add: bounded_def)
qed

lemma rate_limit_holds_witness:
  "fst (run_limiter [(1, ''a''), (2, ''a''), (3, ''b''), (4, ''a''), (11, ''a'')] (newRateLimiter 2 10))
     = [(1, ''a''), (2, ''a''), (3, ''b''), (11, ''a'')] \<and>
   int (length (filter (in_window 10 11) (times_of ''a'' (fst (run_limiter
     [(1, ''a''), (2, ''a''), (3, ''b''), (4, ''a''), (11, ''a'')] (newRateLimiter 2 10)))))) \<le> 2"
proof
  show "fst (run_limiter [(1, ''a''), (2, ''a''), (3, ''b''), (4, ''a''), (11, ''a'')] (newRateLimiter 2 10))
     = [(1, ''a''), (2, ''a''), (3, ''b''), (11, ''a'')]" by code_simp
  show "int (length (filter (in_window 10 11) (times_of ''a'' (fst (run_limiter
     [(1, ''a''), (2, ''a''), (3, ''b''), (4, ''a''), (11, ''a'')] (newRateLimiter 2 10)))))) \<le> 2"
    by (rule rate_limit_holds) simp_all
qed

text \<open>One client's requests do not count against another's: a request changes what is kept for its
  own key only, and it is refused exactly when its key has the full number within the window.\<close>

theorem rate_limit_fair:
  "(fst (allow now key rl) \<longleftrightarrow>
     int (length (filter (\<lambda>t. now - rl_window rl < t) (client_times rl key))) < rl_limit rl) \<and>
   (\<forall>key'. client_times (snd (allow now key rl)) key' =
     (if key' = key then filter (\<lambda>t. now - rl_window rl < t) (client_times rl key) @
        (if fst (allow now key rl) then [now] else [])
      else client_times rl key'))"
  by (auto simp: allow_def Let_def client_times_def)

end
