(* ===== verification/Auth.thy ===== *)
theory Auth
  imports Prelude
begin

text \<open>
  \<open>internal/auth/jwt.go\<close>: tokens and roles. The JWT library is a parameter: \<open>sign method secret
  claims\<close> makes a token or fails, and \<open>verify key now token\<close> returns the claims of a token whose signature
  the key that \<open>key\<close> gives for its method confirms, and which has not expired. Times are whole
  seconds, as the library keeps them in a token.
\<close>

section \<open>Data\<close>

type_synonym role = string

abbreviation RoleAdmin :: role where "RoleAdmin \<equiv> ''admin''"
abbreviation RoleWriter :: role where "RoleWriter \<equiv> ''writer''"
abbreviation RoleReader :: role where "RoleReader \<equiv> ''reader''"

record claims =
  cl_Subject :: string
  cl_Role :: role
  cl_Issuer :: string
  cl_ExpiresAt :: int
  cl_IssuedAt :: int

record authenticator =
  au_secret :: string
  au_issuer :: string

type_synonym signer = "string \<Rightarrow> string \<Rightarrow> claims \<Rightarrow> string option"
type_synonym verifier = "(string \<Rightarrow> string option) \<Rightarrow> int \<Rightarrow> string \<Rightarrow> claims option"

section \<open>Operations\<close>

definition auth_New :: "string \<Rightarrow> string \<Rightarrow> authenticator" where
  "auth_New secret issuer = \<lparr>au_secret = secret, au_issuer = issuer\<rparr>"

definition Enabled :: "authenticator \<Rightarrow> bool" where
  "Enabled a \<longleftrightarrow> 0 < length (au_secret a)"

definition Issue :: "signer \<Rightarrow> authenticator \<Rightarrow> int \<Rightarrow> string \<Rightarrow> role \<Rightarrow> int \<Rightarrow> string option" where
  "Issue sign a now subject r ttl = sign ''HS256'' (au_secret a)
     \<lparr>cl_Subject = subject, cl_Role = r, cl_Issuer = au_issuer a, cl_ExpiresAt = now + ttl, cl_IssuedAt = now\<rparr>"

text \<open>The key function accepts HS256 only.\<close>

definition key_func :: "authenticator \<Rightarrow> string \<Rightarrow> string option" where
  "key_func a meth = (if meth \<noteq> ''HS256'' then None else Some (au_secret a))"

definition Parse :: "verifier \<Rightarrow> authenticator \<Rightarrow> int \<Rightarrow> string \<Rightarrow> claims option" where
  "Parse verify a now tokenStr = verify (key_func a) now tokenStr"

text \<open>The next handler runs with the claims put into the context (\<open>None\<close>: with no claims), or the
  request is answered with 401.\<close>

datatype auth_outcome = NextHandler "claims option" | Unauthorized | InvalidToken

definition Middleware :: "verifier \<Rightarrow> authenticator \<Rightarrow> int \<Rightarrow> string \<Rightarrow> string \<Rightarrow> auth_outcome" where
  "Middleware verify a now path authz =
     (if \<not> Enabled a then NextHandler None
      else if path = ''/health'' \<or> path = ''/metrics'' \<or> has_prefix path ''/ui'' then NextHandler None
      else if \<not> has_prefix authz ''Bearer '' then Unauthorized
      else (case Parse verify a now (trim_prefix authz ''Bearer '') of
              None \<Rightarrow> InvalidToken
            | Some c \<Rightarrow> NextHandler (Some c)))"

text \<open>Whether the guarded handler runs; otherwise the answer is 403.\<close>

definition RequireWrite :: "claims option \<Rightarrow> bool" where
  "RequireWrite ctx = (case ctx of
       None \<Rightarrow> True
     | Some c \<Rightarrow> \<not> (cl_Role c \<noteq> RoleAdmin \<and> cl_Role c \<noteq> RoleWriter))"

definition RequireReplay :: "claims option \<Rightarrow> bool" where
  "RequireReplay ctx = (case ctx of
       None \<Rightarrow> True
     | Some c \<Rightarrow> \<not> (cl_Role c \<noteq> RoleAdmin \<and> cl_Role c \<noteq> RoleReader \<and> cl_Role c \<noteq> RoleWriter))"

section \<open>Properties\<close>

text \<open>The documented contract of the library: what was signed with a key verifies with that key, with
  the claims it was signed with, until it expires.\<close>

definition jwt_contract :: "signer \<Rightarrow> verifier \<Rightarrow> bool" where
  "jwt_contract sign verify \<longleftrightarrow> (\<forall>meth secret c key now t.
     key meth = Some secret \<longrightarrow> now < cl_ExpiresAt c \<longrightarrow> sign meth secret c = Some t \<longrightarrow> verify key now t = Some c)"

lemma jwt_contractD:
  "jwt_contract sign verify \<Longrightarrow> sign meth secret c = Some t \<Longrightarrow> key meth = Some secret \<Longrightarrow> now < cl_ExpiresAt c \<Longrightarrow>
     verify key now t = Some c"
  unfolding jwt_contract_def by blast

lemma Parse_Issue:
  assumes "jwt_contract sign verify" "Issue sign a now subject r ttl = Some token" "later < now + ttl"
  shows "Parse verify a later token = Some \<lparr>cl_Subject = subject, cl_Role = r, cl_Issuer = au_issuer a,
    cl_ExpiresAt = now + ttl, cl_IssuedAt = now\<rparr>"
  unfolding Parse_def
  by (rule jwt_contractD [OF assms(1) assms(2) [unfolded Issue_def]]) (use assms(3) in \<open>simp_all add: key_func_def\<close>)

lemma Middleware_Bearer:
  "Enabled a \<Longrightarrow> Parse verify a now token = Some c \<Longrightarrow>
     Middleware verify a now path (''Bearer '' @ token) =
       NextHandler (if path = ''/health'' \<or> path = ''/metrics'' \<or> has_prefix path ''/ui'' then None else Some c)"
  using has_prefix_append [of "''Bearer '' @ token" "''Bearer ''"] trim_prefix_append [of "''Bearer ''" token]
  by (auto simp: Middleware_def)

text \<open>A token the service issued passes its middleware on every path until it expires, and brings the
  role it was issued for: a writer or an admin passes both guards, a reader the replay guard only,
  any other role neither.\<close>

theorem issued_token_accepted:
  assumes "jwt_contract sign verify" "Enabled a" "now \<le> later" "later < now + ttl"
    "Issue sign a now subject r ttl = Some token"
  shows "\<exists>c. Middleware verify a later path (''Bearer '' @ token) \<in> {NextHandler (Some c), NextHandler None} \<and>
    cl_Role c = r \<and> cl_Subject c = subject \<and>
    (RequireWrite (Some c) \<longleftrightarrow> r \<in> {RoleAdmin, RoleWriter}) \<and>
    (RequireReplay (Some c) \<longleftrightarrow> r \<in> {RoleAdmin, RoleWriter, RoleReader})"
proof -
  let ?c = "\<lparr>cl_Subject = subject, cl_Role = r, cl_Issuer = au_issuer a, cl_ExpiresAt = now + ttl, cl_IssuedAt = now\<rparr>"
  have "Middleware verify a later path (''Bearer '' @ token) \<in> {NextHandler (Some ?c), NextHandler None}"
    using Middleware_Bearer [OF assms(2) Parse_Issue [OF assms(1,5,4)]] by simp
  then show ?thesis by (intro exI [of _ ?c]) (auto simp: RequireWrite_def RequireReplay_def)
qed

text \<open>A library that keeps the contract: a token is the list of its parts, each with its length in front.\<close>

definition put :: "string \<Rightarrow> string" where
  "put s = replicate (length s) CHR ''x'' @ CHR '':'' # s"

definition get :: "string \<Rightarrow> string \<times> string" where
  "get t = (let n = length (takeWhile (\<lambda>c. c = CHR ''x'') t); r = drop (Suc n) t in (take n r, drop n r))"

definition put_int :: "int \<Rightarrow> string" where
  "put_int n = put ((if n < 0 then CHR ''-'' else CHR ''+'') # replicate (nat \<bar>n\<bar>) CHR ''1'')"

definition get_int :: "string \<Rightarrow> int \<times> string" where
  "get_int t = (let (s, r) = get t; k = int (length s) - 1
     in (if take 1 s = ''-'' then - k else k, r))"

definition plain_sign :: signer where
  "plain_sign meth secret c = Some (put meth @ put secret @ put (cl_Subject c) @ put (cl_Role c) @ put (cl_Issuer c)
     @ put_int (cl_ExpiresAt c) @ put_int (cl_IssuedAt c))"

definition plain_verify :: verifier where
  "plain_verify key now t = (let (meth, t) = get t; (secret, t) = get t; (sub, t) = get t; (r, t) = get t;
       (iss, t) = get t; (ex, t) = get_int t; (iat, t) = get_int t
     in if key meth = Some secret \<and> now < ex then Some \<lparr>cl_Subject = sub, cl_Role = r, cl_Issuer = iss,
          cl_ExpiresAt = ex, cl_IssuedAt = iat\<rparr> else None)"

lemma get_put [simp]: "get (put s @ r) = (s, r)"
proof -
  have "takeWhile (\<lambda>c. c = CHR ''x'') (replicate n CHR ''x'' @ CHR '':'' # t) = replicate n CHR ''x''" for n t
    by (induction n) auto
  then show ?thesis by (simp add: get_def put_def Let_def)
qed

lemma get_int_put_int [simp]: "get_int (put_int n @ r) = (n, r)"
  by (simp add: get_int_def put_int_def)

lemma plain_contract: "jwt_contract plain_sign plain_verify"
proof -
  have "get_int (put_int n) = (n, [])" for n using get_int_put_int [of n "[]"] by simp
  then show ?thesis by (simp add: jwt_contract_def plain_sign_def plain_verify_def)
qed

lemma issued_token_accepted_witness:
  "\<exists>c. Middleware plain_verify (auth_New ''secret'' ''atm'') 5 ''/users''
       (''Bearer '' @ the (Issue plain_sign (auth_New ''secret'' ''atm'') 0 ''ann'' RoleReader 10)) \<in> {NextHandler (Some c), NextHandler None} \<and>
     \<not> RequireWrite (Some c) \<and> RequireReplay (Some c)"
  using issued_token_accepted [OF plain_contract, of "auth_New ''secret'' ''atm''" 0 5 10 "''ann''" RoleReader]
  by (auto simp: Enabled_def auth_New_def Issue_def plain_sign_def)

text \<open>With authentication on, no request without a bearer token reaches a handler, but for the three
  open paths; the endpoint that issues tokens is not one of them, so the first token cannot be had
  from the service.\<close>

theorem no_token_no_entry:
  assumes "Enabled a" "\<not> has_prefix authz ''Bearer ''"
    "path \<noteq> ''/health''" "path \<noteq> ''/metrics''" "\<not> has_prefix path ''/ui''"
  shows "Middleware verify a now path authz = Unauthorized \<and>
    Middleware verify a now ''/auth/token'' authz = Unauthorized"
  using assms by (simp add: Middleware_def)

lemma no_token_no_entry_witness:
  "Middleware (\<lambda>_ _ _. None) (auth_New ''secret'' ''atm'') 0 ''/auth/token'' [] = Unauthorized"
  using no_token_no_entry [of "auth_New ''secret'' ''atm''" "[]" "''/users''" "\<lambda>_ _ _. None" 0]
  by (simp add: Enabled_def auth_New_def)

text \<open>With authentication off (an empty secret) every request passes, with no claims, and with no
  claims both guards are open.\<close>

theorem auth_disabled_open:
  "Middleware verify (auth_New [] issuer) now path authz = NextHandler None \<and>
   RequireWrite None \<and> RequireReplay None"
  by (simp add: Middleware_def Enabled_def auth_New_def RequireWrite_def RequireReplay_def)

end
