(* ===== verification/Http_Server.thy ===== *)
theory Http_Server
  imports Http_Api Rate_Limiter Auth
begin

text \<open>
  \<open>internal/api/server.go\<close>: the routes of the REST API, the middlewares in front of them and the
  endpoint that issues tokens. The router (chi), the token library and the two handlers that are
  libraries (Prometheus metrics and the file server of the web page) are parameters.
\<close>

section \<open>Routes\<close>

datatype endpoint =
    Health | Metrics | Ui | IssueToken | SearchEvents
  | CreateUser | UpdateUser | DeleteUser
  | GetUser | UserHistory | UserTimeline | UserDiff | UserReplay | UserPreview
  | CreateProduct | UpdateProduct | DeleteProduct
  | GetProduct | ProductHistory | ProductTimeline | ProductDiff | ProductReplay
  | CreateOrder | UpdateOrder | CancelOrder | AddOrderItem
  | GetOrder | OrderHistory | OrderTimeline | OrderDiff | OrderReplay

datatype guard = NoGuard | WriteGuard | ReplayGuard

text \<open>
  A route is its method (empty for any), its pattern with the prefix it is mounted under, its guard
  and its handler. The root of a mounted group is written without the final slash; the router
  matches both.
\<close>

record route =
  ro_method :: string
  ro_pattern :: string
  ro_guard :: guard
  ro_endpoint :: endpoint

definition mk_route :: "string \<Rightarrow> string \<Rightarrow> guard \<Rightarrow> endpoint \<Rightarrow> route" where
  "mk_route m p g e = \<lparr>ro_method = m, ro_pattern = p, ro_guard = g, ro_endpoint = e\<rparr>"

definition mountUsers :: "route list" where
  "mountUsers =
     [mk_route ''POST'' ''/users'' WriteGuard CreateUser,
      mk_route ''PUT'' ''/users/{id}'' WriteGuard UpdateUser,
      mk_route ''DELETE'' ''/users/{id}'' WriteGuard DeleteUser,
      mk_route ''GET'' ''/users/{id}'' ReplayGuard GetUser,
      mk_route ''GET'' ''/users/{id}/history'' ReplayGuard UserHistory,
      mk_route ''GET'' ''/users/{id}/timeline'' ReplayGuard UserTimeline,
      mk_route ''GET'' ''/users/{id}/diff'' ReplayGuard UserDiff,
      mk_route ''POST'' ''/users/{id}/replay'' ReplayGuard UserReplay,
      mk_route ''POST'' ''/users/{id}/preview'' ReplayGuard UserPreview]"

definition mountProducts :: "route list" where
  "mountProducts =
     [mk_route ''POST'' ''/products'' WriteGuard CreateProduct,
      mk_route ''PUT'' ''/products/{id}'' WriteGuard UpdateProduct,
      mk_route ''DELETE'' ''/products/{id}'' WriteGuard DeleteProduct,
      mk_route ''GET'' ''/products/{id}'' ReplayGuard GetProduct,
      mk_route ''GET'' ''/products/{id}/history'' ReplayGuard ProductHistory,
      mk_route ''GET'' ''/products/{id}/timeline'' ReplayGuard ProductTimeline,
      mk_route ''GET'' ''/products/{id}/diff'' ReplayGuard ProductDiff,
      mk_route ''POST'' ''/products/{id}/replay'' ReplayGuard ProductReplay]"

definition mountOrders :: "route list" where
  "mountOrders =
     [mk_route ''POST'' ''/orders'' WriteGuard CreateOrder,
      mk_route ''PUT'' ''/orders/{id}'' WriteGuard UpdateOrder,
      mk_route ''POST'' ''/orders/{id}/cancel'' WriteGuard CancelOrder,
      mk_route ''POST'' ''/orders/{id}/items'' WriteGuard AddOrderItem,
      mk_route ''GET'' ''/orders/{id}'' ReplayGuard GetOrder,
      mk_route ''GET'' ''/orders/{id}/history'' ReplayGuard OrderHistory,
      mk_route ''GET'' ''/orders/{id}/timeline'' ReplayGuard OrderTimeline,
      mk_route ''GET'' ''/orders/{id}/diff'' ReplayGuard OrderDiff,
      mk_route ''POST'' ''/orders/{id}/replay'' ReplayGuard OrderReplay]"

definition router_routes :: "route list" where
  "router_routes =
     [mk_route ''GET'' ''/health'' NoGuard Health,
      mk_route [] ''/metrics'' NoGuard Metrics,
      mk_route [] ''/ui/*'' NoGuard Ui,
      mk_route ''POST'' ''/auth/token'' NoGuard IssueToken]
     @ mountUsers @ mountProducts @ mountOrders @
     [mk_route ''GET'' ''/events'' ReplayGuard SearchEvents]"

section \<open>The server\<close>

text \<open>
  The dependencies: the authenticator (\<open>None\<close> for a nil pointer), the token library, the router,
  which picks a route for a method and a path or none, what it answers then, and the handlers that
  are libraries.
\<close>

record server =
  sr_auth :: "authenticator option"
  sr_sign :: signer
  sr_verify :: verifier
  sr_chi :: "route list \<Rightarrow> string \<Rightarrow> string \<Rightarrow> route option"
  sr_no_route :: "string \<Rightarrow> string \<Rightarrow> response"
  sr_library :: "endpoint \<Rightarrow> http_request \<Rightarrow> response"

text \<open>\<open>wr_addr\<close> is the address as \<open>RealIP\<close> leaves it, \<open>wr_path\<close> the path of the URL.\<close>

record web_request =
  wr_method :: string
  wr_path :: string
  wr_addr :: string
  wr_request :: http_request

record server_state =
  sv_db :: db
  sv_cache :: redis
  sv_limiter :: rate_limiter

text \<open>The limit of \<open>Router\<close>: 300 requests a minute.\<close>

definition new_state :: "db \<Rightarrow> redis \<Rightarrow> server_state" where
  "new_state d c = \<lparr>sv_db = d, sv_cache = c, sv_limiter = newRateLimiter 300 (60 * 1000000000)\<rparr>"

definition health :: response where
  "health = writeJSON 200 (PMap [(''status'', ''ok'')])"

record token_request =
  tr_Subject :: string
  tr_Role :: string

definition token_request_fields :: "(string \<times> token_request fdec) list" where
  "token_request_fields =
     [(''subject'', dec_field tr_Subject tr_Subject_update dec_string),
      (''role'', dec_field tr_Role tr_Role_update dec_string)]"

definition issueToken :: "server \<Rightarrow> int \<Rightarrow> http_request \<Rightarrow> response" where
  "issueToken s now r =
     (case sr_auth s of
        None \<Rightarrow> writeError 501 ''auth disabled''
      | Some a \<Rightarrow>
          if \<not> Enabled a then writeError 501 ''auth disabled''
          else (case decode_body (dec_struct token_request_fields) \<lparr>tr_Subject = [], tr_Role = []\<rparr> r of
            (req, ok) \<Rightarrow>
              if \<not> ok then writeError 400 ''invalid json''
              else (let role = (if tr_Role req = [] then RoleReader else tr_Role req)
                in case Issue (sr_sign s) a now (tr_Subject req) role (24 * 3600) of
                     None \<Rightarrow> writeError 500 ''token issue failed''
                   | Some token \<Rightarrow> writeJSON 200 (PMap [(''token'', token)]))))"

text \<open>
  One handler: its response, the user the service starts a snapshot goroutine with, and the database
  and the cache it leaves behind.
\<close>

definition keep :: "db \<Rightarrow> redis \<Rightarrow> response \<Rightarrow> (response \<times> user option) \<times> db \<times> redis" where
  "keep d c resp = ((resp, None), d, c)"

definition keep_db :: "db \<Rightarrow> response \<times> redis \<Rightarrow> (response \<times> user option) \<times> db \<times> redis" where
  "keep_db d x = (case x of (resp, c) \<Rightarrow> ((resp, None), d, c))"

definition keep_cache :: "redis \<Rightarrow> response \<times> db \<Rightarrow> (response \<times> user option) \<times> db \<times> redis" where
  "keep_cache c x = (case x of (resp, d) \<Rightarrow> ((resp, None), d, c))"

definition keep_job :: "redis \<Rightarrow> (response \<times> user option) \<times> db \<Rightarrow> (response \<times> user option) \<times> db \<times> redis" where
  "keep_job c x = (case x of (answer, d) \<Rightarrow> (answer, d, c))"

fun run_endpoint :: "server \<Rightarrow> env \<Rightarrow> int \<Rightarrow> endpoint \<Rightarrow> http_request \<Rightarrow> db \<Rightarrow> redis
    \<Rightarrow> (response \<times> user option) \<times> db \<times> redis" where
  "run_endpoint s en now Health r d c = keep d c health"
| "run_endpoint s en now Metrics r d c = keep d c (sr_library s Metrics r)"
| "run_endpoint s en now Ui r d c = keep d c (sr_library s Ui r)"
| "run_endpoint s en now IssueToken r d c = keep d c (issueToken s now r)"
| "run_endpoint s en now SearchEvents r d c = keep d c (searchEvents en r d)"
| "run_endpoint s en now CreateUser r d c = keep_job c (createUser en r d)"
| "run_endpoint s en now UpdateUser r d c = keep_job c (updateUser en r d)"
| "run_endpoint s en now DeleteUser r d c = keep_job c (deleteUser en r d)"
| "run_endpoint s en now GetUser r d c = keep_db d (getUser en r d c)"
| "run_endpoint s en now UserHistory r d c = keep d c (userHistory en r d)"
| "run_endpoint s en now UserTimeline r d c = keep d c (userTimeline en r d)"
| "run_endpoint s en now UserDiff r d c = keep_db d (userDiff en r d c)"
| "run_endpoint s en now UserReplay r d c = keep_db d (userReplay en r d c)"
| "run_endpoint s en now UserPreview r d c = keep_db d (userPreview en r d c)"
| "run_endpoint s en now CreateProduct r d c = keep_cache c (createProduct en r d)"
| "run_endpoint s en now UpdateProduct r d c = keep_cache c (updateProduct en r d)"
| "run_endpoint s en now DeleteProduct r d c = keep_cache c (deleteProduct en r d)"
| "run_endpoint s en now GetProduct r d c = keep d c (getProduct en r d)"
| "run_endpoint s en now ProductHistory r d c = keep d c (productHistory en r d)"
| "run_endpoint s en now ProductTimeline r d c = keep d c (productTimeline en r d)"
| "run_endpoint s en now ProductDiff r d c = keep d c (productDiff en r d)"
| "run_endpoint s en now ProductReplay r d c = keep d c (productReplay en r d)"
| "run_endpoint s en now CreateOrder r d c = keep_cache c (createOrder en r d)"
| "run_endpoint s en now UpdateOrder r d c = keep_cache c (updateOrder en r d)"
| "run_endpoint s en now CancelOrder r d c = keep_cache c (cancelOrder en r d)"
| "run_endpoint s en now AddOrderItem r d c = keep_cache c (addOrderItem en r d)"
| "run_endpoint s en now GetOrder r d c = keep d c (getOrder en r d)"
| "run_endpoint s en now OrderHistory r d c = keep d c (orderHistory en r d)"
| "run_endpoint s en now OrderTimeline r d c = keep d c (orderTimeline en r d)"
| "run_endpoint s en now OrderDiff r d c = keep d c (orderDiff en r d)"
| "run_endpoint s en now OrderReplay r d c = keep d c (orderReplay en r d)"

definition guard_passes :: "guard \<Rightarrow> claims option \<Rightarrow> bool" where
  "guard_passes g ctx = (case g of NoGuard \<Rightarrow> True | WriteGuard \<Rightarrow> RequireWrite ctx | ReplayGuard \<Rightarrow> RequireReplay ctx)"

text \<open>\<open>http.Error\<close> writes the same body as \<open>writeError\<close>, under another content type.\<close>

definition dispatch :: "server \<Rightarrow> env \<Rightarrow> int \<Rightarrow> web_request \<Rightarrow> claims option \<Rightarrow> db \<Rightarrow> redis
    \<Rightarrow> (response \<times> user option) \<times> db \<times> redis" where
  "dispatch s en now q ctx d c =
     (case sr_chi s router_routes (wr_method q) (wr_path q) of
        None \<Rightarrow> keep d c (sr_no_route s (wr_method q) (wr_path q))
      | Some ro \<Rightarrow>
          if guard_passes (ro_guard ro) ctx then run_endpoint s en now (ro_endpoint ro) (wr_request q) d c
          else keep d c (writeError 403 ''forbidden''))"

definition authenticate :: "server \<Rightarrow> int \<Rightarrow> web_request \<Rightarrow> auth_outcome" where
  "authenticate s now q = (case sr_auth s of
       None \<Rightarrow> NextHandler None
     | Some a \<Rightarrow> Middleware (sr_verify s) a now (wr_path q) (hr_header (wr_request q) ''Authorization''))"

text \<open>
  A request that arrives at \<open>now\<close> (nanoseconds): the limiter, the authenticator, the router, the
  guard, the handler. What only measures or logs is left out.
\<close>

definition serve :: "server \<Rightarrow> env \<Rightarrow> int \<Rightarrow> web_request \<Rightarrow> server_state \<Rightarrow> (response \<times> user option) \<times> server_state" where
  "serve s en now q st =
     (case rateLimitMiddleware now (wr_addr q) (sv_limiter st) (\<lambda>_. ()) of
        (None, rl) \<Rightarrow> ((writeError 429 ''rate limit exceeded'', None), st\<lparr>sv_limiter := rl\<rparr>)
      | (Some _, rl) \<Rightarrow>
          (case (case authenticate s (now div 1000000000) q of
                   Unauthorized \<Rightarrow> keep (sv_db st) (sv_cache st) (writeError 401 ''unauthorized'')
                 | InvalidToken \<Rightarrow> keep (sv_db st) (sv_cache st) (writeError 401 ''invalid token'')
                 | NextHandler ctx \<Rightarrow> dispatch s en (now div 1000000000) q ctx (sv_db st) (sv_cache st)) of
             (answer, d, c) \<Rightarrow> (answer, \<lparr>sv_db = d, sv_cache = c, sv_limiter = rl\<rparr>)))"

section \<open>Lemmas\<close>

text \<open>
  What the router promises: it picks one of the routes, for the method of the request, and its
  pattern up to the first parameter or wildcard is a prefix of the path.
\<close>

definition literal_prefix :: "string \<Rightarrow> string" where
  "literal_prefix pat = takeWhile (\<lambda>c. c \<noteq> CHR ''{'' \<and> c \<noteq> CHR ''*'') pat"

definition router_contract :: "(route list \<Rightarrow> string \<Rightarrow> string \<Rightarrow> route option) \<Rightarrow> bool" where
  "router_contract chi \<longleftrightarrow> (\<forall>rs m p ro. chi rs m p = Some ro \<longrightarrow>
     ro \<in> set rs \<and> (ro_method ro = [] \<or> ro_method ro = m) \<and> has_prefix p (literal_prefix (ro_pattern ro)))"

lemma router_contractD:
  assumes "router_contract chi" "chi rs m p = Some ro"
  shows "ro \<in> set rs" "ro_method ro = [] \<or> ro_method ro = m" "has_prefix p (literal_prefix (ro_pattern ro))"
  using assms unfolding router_contract_def by blast+

lemmas route_defs = router_routes_def mountUsers_def mountProducts_def mountOrders_def mk_route_def

text \<open>Only the handlers behind the write guard can leave another database behind.\<close>

lemma read_routes:
  "ro \<in> set router_routes \<Longrightarrow> ro_guard ro \<noteq> WriteGuard \<Longrightarrow>
     fst (snd (run_endpoint s en now (ro_endpoint ro) r d c)) = d"
  by (auto simp: route_defs keep_def keep_db_def split: prod.split)

lemma write_routes:
  "ro \<in> set router_routes \<Longrightarrow> ro_guard ro = WriteGuard \<Longrightarrow>
     ro_method ro \<in> {''POST'', ''PUT'', ''DELETE''} \<and>
     literal_prefix (ro_pattern ro) \<in> {''/users'', ''/users/'', ''/products'', ''/products/'', ''/orders'', ''/orders/''}"
  by (auto simp: route_defs literal_prefix_def)

lemma dispatch_write:
  assumes "router_contract (sr_chi s)" "dispatch s en now q ctx d c = (answer, d', c')" "d' \<noteq> d"
  obtains ro where "ro \<in> set router_routes" "ro_guard ro = WriteGuard" "RequireWrite ctx"
    "ro_method ro = wr_method q" "has_prefix (wr_path q) (literal_prefix (ro_pattern ro))"
proof (cases "sr_chi s router_routes (wr_method q) (wr_path q)")
  case None
  then show ?thesis using assms by (simp add: dispatch_def keep_def)
next
  case (Some ro)
  note ro = router_contractD [OF assms(1) Some]
  have g: "guard_passes (ro_guard ro) ctx" "run_endpoint s en now (ro_endpoint ro) (wr_request q) d c = (answer, d', c')"
    using assms(2,3) Some by (simp_all add: dispatch_def keep_def split: if_splits)
  then have "ro_guard ro = WriteGuard"
    using read_routes [OF ro(1), of s en now "wr_request q" d c] assms(3) by auto
  moreover from this have "ro_method ro = wr_method q" using ro(1,2) write_routes by force
  ultimately show ?thesis using that [OF ro(1)] ro(3) g(1) by (simp add: guard_passes_def)
qed

lemma serve_write:
  assumes "serve s en now q st = (answer, st')" "sv_db st' \<noteq> sv_db st"
  obtains ctx c' where "authenticate s (now div 1000000000) q = NextHandler ctx"
    "dispatch s en (now div 1000000000) q ctx (sv_db st) (sv_cache st) = (answer, sv_db st', c')"
  using assms by (auto simp: serve_def keep_def split: prod.splits option.splits auth_outcome.splits)

lemma write_path_closed:
  "has_prefix path p \<Longrightarrow> p \<in> {''/users'', ''/users/'', ''/products'', ''/products/'', ''/orders'', ''/orders/''} \<Longrightarrow>
     path \<noteq> ''/health'' \<and> path \<noteq> ''/metrics'' \<and> \<not> has_prefix path ''/ui''"
  by (auto simp: has_prefix_append)

section \<open>Properties\<close>

text \<open>C7: with authentication on, a request changes the database only if it carries a token that verifies
  and whose role is admin or writer, and it is a POST, PUT or DELETE to users, products or orders;
  everything else, refused requests included, leaves the database as it is.\<close>

theorem only_writers_write:
  assumes "router_contract (sr_chi s)" "sr_auth s = Some a" "Enabled a"
    and "serve s en now q st = (answer, st')" "sv_db st' \<noteq> sv_db st"
  shows "\<exists>token c. hr_header (wr_request q) ''Authorization'' = ''Bearer '' @ token \<and>
    Parse (sr_verify s) a (now div 1000000000) token = Some c \<and> cl_Role c \<in> {RoleAdmin, RoleWriter} \<and>
    wr_method q \<in> {''POST'', ''PUT'', ''DELETE''} \<and>
    (\<exists>p \<in> {''/users'', ''/products'', ''/orders''}. has_prefix (wr_path q) p)"
proof -
  obtain ctx c' where a: "authenticate s (now div 1000000000) q = NextHandler ctx"
      and "dispatch s en (now div 1000000000) q ctx (sv_db st) (sv_cache st) = (answer, sv_db st', c')"
    by (rule serve_write [OF assms(4,5)])
  then obtain ro where ro: "ro \<in> set router_routes" "ro_guard ro = WriteGuard" "RequireWrite ctx"
      "ro_method ro = wr_method q" "has_prefix (wr_path q) (literal_prefix (ro_pattern ro))"
    using dispatch_write [OF assms(1)] assms(5) by metis
  note w = write_routes [OF ro(1,2)]
  have closed: "wr_path q \<noteq> ''/health'' \<and> wr_path q \<noteq> ''/metrics'' \<and> \<not> has_prefix (wr_path q) ''/ui''"
    using write_path_closed [OF ro(5)] w by blast
  let ?h = "hr_header (wr_request q) ''Authorization''"
  have m: "Middleware (sr_verify s) a (now div 1000000000) (wr_path q) ?h = NextHandler ctx"
    using a assms(2) by (simp add: authenticate_def)
  then have "has_prefix ?h ''Bearer ''" using closed assms(3) by (auto simp: Middleware_def split: if_splits)
  then obtain token where token: "?h = ''Bearer '' @ token" by (auto simp: has_prefix_append)
  then obtain c where c: "Parse (sr_verify s) a (now div 1000000000) token = Some c" "ctx = Some c"
    using m closed assms(3) trim_prefix_append [of "''Bearer ''" token]
    by (auto simp: Middleware_def split: if_splits option.splits)
  have "\<exists>p \<in> {''/users'', ''/products'', ''/orders''}. has_prefix (wr_path q) p"
    using ro(5) w by (auto simp: has_prefix_append)
  then show ?thesis using token c ro(3,4) w by (auto simp: RequireWrite_def)
qed

text \<open>A router that keeps the contract: the first route whose pattern matches, segment by segment.\<close>

function pat_match :: "string \<Rightarrow> string \<Rightarrow> bool" where
  "pat_match [] p = (p = [] \<or> p = ''/'')"
| "pat_match (c # cs) p =
     (if c = CHR ''*'' then True
      else if c = CHR ''{'' then takeWhile (\<lambda>x. x \<noteq> CHR ''/'') p \<noteq> [] \<and>
        pat_match (drop 1 (dropWhile (\<lambda>x. x \<noteq> CHR ''}'') cs)) (dropWhile (\<lambda>x. x \<noteq> CHR ''/'') p)
      else (case p of [] \<Rightarrow> False | x # xs \<Rightarrow> x = c \<and> pat_match cs xs))"
  by pat_completeness auto
termination
  by (relation "measure (\<lambda>(pat, _). length pat)") (auto simp: less_Suc_eq_le intro: le_trans [OF diff_le_self length_dropWhile_le])

definition first_match :: "route list \<Rightarrow> string \<Rightarrow> string \<Rightarrow> route option" where
  "first_match rs m p = find (\<lambda>ro. (ro_method ro = [] \<or> ro_method ro = m) \<and> pat_match (ro_pattern ro) p) rs"

lemma pat_match_prefix: "pat_match pat p \<Longrightarrow> has_prefix p (literal_prefix pat)"
  by (induction pat p rule: pat_match.induct) (auto simp: literal_prefix_def split: if_splits list.splits)

lemma first_match_contract: "router_contract first_match"
  by (auto simp: router_contract_def first_match_def find_Some_iff pat_match_prefix)

definition sample_server :: server where
  "sample_server = \<lparr>sr_auth = Some (auth_New ''secret'' ''atm''), sr_sign = plain_sign, sr_verify = plain_verify,
     sr_chi = first_match, sr_no_route = (\<lambda>m p. writeError 404 ''not found''),
     sr_library = (\<lambda>e r. writeError 200 [])\<rparr>"

definition bearer :: "role \<Rightarrow> string" where
  "bearer r = ''Bearer '' @ the (Issue plain_sign (auth_New ''secret'' ''atm'') 0 ''ann'' r 10)"

definition sample_web :: "string \<Rightarrow> string \<Rightarrow> role \<Rightarrow> json option \<Rightarrow> web_request" where
  "sample_web m p r body = \<lparr>wr_method = m, wr_path = p, wr_addr = ''10.0.0.1:5000'',
     wr_request = sample_request [] body [(''Authorization'', bearer r)]\<rparr>"

definition sample_product :: json where
  "sample_product = JObj [(''id'', JStr ''p1''), (''name'', JStr ''Pen''), (''price_cents'', JInt 150)]"

lemma only_writers_write_witness:
  "\<exists>token c. hr_header (wr_request (sample_web ''POST'' ''/products'' RoleWriter (Some sample_product))) ''Authorization'' = ''Bearer '' @ token \<and>
    Parse plain_verify (auth_New ''secret'' ''atm'') 5 token = Some c \<and> cl_Role c \<in> {RoleAdmin, RoleWriter}"
proof -
  let ?q = "sample_web ''POST'' ''/products'' RoleWriter (Some sample_product)" and ?st = "new_state empty_db Map.empty"
  let ?x = "serve sample_server sample_env 5000000000 ?q ?st"
  have "length (d_events (sv_db (snd ?x))) = 1" by code_simp
  then have "sv_db (snd ?x) \<noteq> sv_db ?st" by (auto simp: new_state_def)
  from only_writers_write [of sample_server "auth_New ''secret'' ''atm''" sample_env 5000000000 ?q ?st "fst ?x" "snd ?x",
      OF _ _ _ _ this]
  show ?thesis by (auto simp: sample_server_def first_match_contract Enabled_def auth_New_def)
qed

text \<open>C17: whoever holds any valid token, a reader's or one of an unknown role, can exchange it for an
  administrator's: the endpoint that issues tokens checks neither the role of the caller nor the
  role it is asked for, and the new token opens every write endpoint for a day.\<close>

theorem any_token_buys_admin:
  assumes "jwt_contract (sr_sign s) (sr_verify s)" "sr_auth s = Some a" "Enabled a"
    and route: "sr_chi s router_routes (wr_method q) (wr_path q) = Some (mk_route ''POST'' ''/auth/token'' NoGuard IssueToken)"
      "wr_path q = ''/auth/token''"
    and request: "hr_header (wr_request q) ''Authorization'' = ''Bearer '' @ token"
      "Parse (sr_verify s) a (now div 1000000000) token = Some c"
      "hr_body (wr_request q) = Some (JObj [(''role'', JStr RoleAdmin)])"
    and "fst (allow now (client_key (wr_addr q)) (sv_limiter st))"
      "Issue (sr_sign s) a (now div 1000000000) [] RoleAdmin (24 * 3600) = Some t"
  shows "fst (fst (serve s en now q st)) = writeJSON 200 (PMap [(''token'', t)]) \<and>
    (\<forall>later < now div 1000000000 + 24 * 3600. \<exists>c'. Parse (sr_verify s) a later t = Some c' \<and>
       cl_Role c' = RoleAdmin \<and> RequireWrite (Some c'))"
proof
  have "authenticate s (now div 1000000000) q = NextHandler (Some c)"
    using Middleware_Bearer [OF assms(3) request(2)] assms(2) request(1) route(2) by (simp add: authenticate_def)
  moreover have "issueToken s (now div 1000000000) (wr_request q) = writeJSON 200 (PMap [(''token'', t)])"
    using assms(2,3) request(3) assms(10)
    by (simp add: issueToken_def decode_body_def token_request_fields_def decode_simps dec_string_def)
  ultimately have "dispatch s en (now div 1000000000) q (Some c) d k = ((writeJSON 200 (PMap [(''token'', t)]), None), d, k)" for d k
    using route(1) by (simp add: dispatch_def guard_passes_def mk_route_def keep_def)
  with \<open>authenticate s _ q = _\<close> show "fst (fst (serve s en now q st)) = writeJSON 200 (PMap [(''token'', t)])"
    using assms(9) by (auto simp: serve_def rateLimitMiddleware_def split: prod.split bool.split)
  show "\<forall>later < now div 1000000000 + 24 * 3600. \<exists>c'. Parse (sr_verify s) a later t = Some c' \<and>
       cl_Role c' = RoleAdmin \<and> RequireWrite (Some c')"
    using Parse_Issue [OF assms(1,10)] by (auto simp: RequireWrite_def)
qed

lemma any_token_buys_admin_witness:
  "\<exists>t c. fst (fst (serve sample_server sample_env 5000000000 (sample_web ''POST'' ''/auth/token'' RoleReader
       (Some (JObj [(''role'', JStr RoleAdmin)]))) (new_state empty_db Map.empty))) = writeJSON 200 (PMap [(''token'', t)]) \<and>
     Parse plain_verify (auth_New ''secret'' ''atm'') 6 t = Some c \<and> RequireWrite (Some c)"
proof -
  let ?a = "auth_New ''secret'' ''atm''" and ?token = "the (Issue plain_sign (auth_New ''secret'' ''atm'') 0 ''ann'' RoleReader 10)"
  let ?q = "sample_web ''POST'' ''/auth/token'' RoleReader (Some (JObj [(''role'', JStr RoleAdmin)]))"
  let ?st = "new_state empty_db Map.empty"
  have route: "sr_chi sample_server router_routes (wr_method ?q) (wr_path ?q) = Some (mk_route ''POST'' ''/auth/token'' NoGuard IssueToken)"
    by code_simp
  have s: "sr_auth sample_server = Some ?a" "Enabled ?a" "jwt_contract (sr_sign sample_server) (sr_verify sample_server)"
    by (simp_all add: sample_server_def Enabled_def auth_New_def plain_contract)
  have "Issue (sr_sign sample_server) ?a (5000000000 div 1000000000) [] RoleAdmin (24 * 3600) \<noteq> None"
    by (simp add: sample_server_def Issue_def plain_sign_def)
  moreover have "Parse (sr_verify sample_server) ?a (5000000000 div 1000000000) ?token \<noteq> None"
    "fst (allow 5000000000 (client_key (wr_addr ?q)) (sv_limiter ?st))"
    by code_simp+
  ultimately obtain c t where c: "Parse (sr_verify sample_server) ?a (5000000000 div 1000000000) ?token = Some c"
    and t: "Issue (sr_sign sample_server) ?a (5000000000 div 1000000000) [] RoleAdmin (24 * 3600) = Some t"
    and l: "fst (allow 5000000000 (client_key (wr_addr ?q)) (sv_limiter ?st))" by blast
  have h: "hr_header (wr_request ?q) ''Authorization'' = ''Bearer '' @ ?token"
    "hr_body (wr_request ?q) = Some (JObj [(''role'', JStr RoleAdmin)])" "wr_path ?q = ''/auth/token''"
    by (simp_all add: sample_web_def sample_request_def bearer_def)
  note x = any_token_buys_admin [OF s(3,1,2) route h(3) h(1) c h(2) l t, of sample_env]
  obtain c' where "Parse (sr_verify sample_server) ?a 6 t = Some c'" "RequireWrite (Some c')"
    using conjunct2 [OF x, rule_format, of 6] by auto
  moreover have "sr_verify sample_server = plain_verify" by (simp add: sample_server_def)
  ultimately show ?thesis using x by (intro exI [of _ t] exI [of _ c']) simp
qed

end
