(* ===== verification/Observability.thy ===== *)
theory Observability
  imports Http_Server
begin

text \<open>
  What \<open>internal/observability/metrics.go\<close> records of the requests: the counter of requests by
  method, path and status, the lines of the log, and how many replays were timed. Durations and
  identifiers of requests are left out. The two middlewares stand where \<open>Router\<close> puts them, behind
  the limiter and before everything else.
\<close>

section \<open>Middlewares\<close>

type_synonym 's handler = "web_request \<Rightarrow> 's \<Rightarrow> (response \<times> user option) \<times> 's"
type_synonym request_line = "string \<times> string \<times> int"

definition line_of :: "web_request \<Rightarrow> response \<Rightarrow> request_line" where
  "line_of q resp = (wr_method q, wr_path q, rs_status resp)"

text \<open>
  \<open>WithLabelValues\<close> of the Prometheus client panics on a label value it does not accept (\<open>accepts\<close> is
  a parameter). By then the handler has written its answer: the middleware \<open>Recoverer\<close>, further out,
  stops the panic, its status 500 comes after the header and is dropped, and nothing is counted.
\<close>

definition HTTPMetricsMiddleware :: "(string \<Rightarrow> bool) \<Rightarrow> 's handler \<Rightarrow> ('s \<times> (request_line \<Rightarrow> nat)) handler" where
  "HTTPMetricsMiddleware accepts next q = (\<lambda>(s, counters). case next q s of
     (answer, s') \<Rightarrow> (answer, s',
       if list_all accepts [wr_method q, wr_path q, show_int (rs_status (fst answer))]
       then counters(line_of q (fst answer) := Suc (counters (line_of q (fst answer))))
       else counters))"

definition LoggerMiddleware :: "'s handler \<Rightarrow> ('s \<times> request_line list) handler" where
  "LoggerMiddleware next q = (\<lambda>(s, log). case next q s of
     (answer, s') \<Rightarrow> (answer, s', log @ [line_of q (fst answer)]))"

text \<open>The histogram \<open>ReplayDuration\<close>: a GET that replays is timed under the type of its aggregate.\<close>

definition replay_label :: "endpoint \<Rightarrow> http_request \<Rightarrow> string option" where
  "replay_label e r =
     (case api_parseReplayQuery r of
        (query, ok) \<Rightarrow>
          if ok \<and> isTemporal query then
            (case e of GetUser \<Rightarrow> Some ''user'' | GetProduct \<Rightarrow> Some ''product'' | GetOrder \<Rightarrow> Some ''order'' | _ \<Rightarrow> None)
          else None)"

definition time_replay :: "string option \<Rightarrow> (string \<Rightarrow> nat) \<Rightarrow> string \<Rightarrow> nat" where
  "time_replay label h = (case label of None \<Rightarrow> h | Some ty \<Rightarrow> h(ty := Suc (h ty)))"

text \<open>What lies behind the two middlewares: the authenticator, the router, the guard, the handler.\<close>

definition routed :: "server \<Rightarrow> web_request \<Rightarrow> claims option \<Rightarrow> endpoint option" where
  "routed s q ctx = (case sr_chi s router_routes (wr_method q) (wr_path q) of
       None \<Rightarrow> None | Some ro \<Rightarrow> if guard_passes (ro_guard ro) ctx then Some (ro_endpoint ro) else None)"

definition inner :: "server \<Rightarrow> env \<Rightarrow> int \<Rightarrow> ((db \<times> redis) \<times> (string \<Rightarrow> nat)) handler" where
  "inner s en now q = (\<lambda>((d, c), h).
     (case authenticate s now q of
        Unauthorized \<Rightarrow> ((writeError 401 ''unauthorized'', None), (d, c), h)
      | InvalidToken \<Rightarrow> ((writeError 401 ''invalid token'', None), (d, c), h)
      | NextHandler ctx \<Rightarrow> (case dispatch s en now q ctx d c of
          (answer, d', c') \<Rightarrow> (answer, (d', c'),
            time_replay (case routed s q ctx of None \<Rightarrow> None | Some e \<Rightarrow> replay_label e (wr_request q)) h))))"

record observed =
  ob_state :: server_state
  ob_requests :: "request_line \<Rightarrow> nat"
  ob_log :: "request_line list"
  ob_replays :: "string \<Rightarrow> nat"

definition observed_serve :: "(string \<Rightarrow> bool) \<Rightarrow> server \<Rightarrow> env \<Rightarrow> int \<Rightarrow> web_request \<Rightarrow> observed \<Rightarrow> (response \<times> user option) \<times> observed" where
  "observed_serve accepts s en now q ob =
     (let st = ob_state ob in
      case rateLimitMiddleware now (wr_addr q) (sv_limiter st)
          (\<lambda>_. HTTPMetricsMiddleware accepts (LoggerMiddleware (inner s en (now div 1000000000))) q
            ((((sv_db st, sv_cache st), ob_replays ob), ob_log ob), ob_requests ob)) of
        (None, rl) \<Rightarrow> ((writeError 429 ''rate limit exceeded'', None), ob\<lparr>ob_state := st\<lparr>sv_limiter := rl\<rparr>\<rparr>)
      | (Some (answer, (((d, c), h), log), counters), rl) \<Rightarrow>
          (answer, \<lparr>ob_state = \<lparr>sv_db = d, sv_cache = c, sv_limiter = rl\<rparr>, ob_requests = counters, ob_log = log, ob_replays = h\<rparr>))"

text \<open>A run of requests, each with its surroundings and its time.\<close>

fun observed_run :: "(string \<Rightarrow> bool) \<Rightarrow> server \<Rightarrow> (env \<times> int \<times> web_request) list \<Rightarrow> observed \<Rightarrow> (response \<times> user option) list \<times> observed" where
  "observed_run accepts s [] ob = ([], ob)"
| "observed_run accepts s ((en, now, q) # rs) ob =
     (let (answer, ob1) = observed_serve accepts s en now q ob; (answers, ob2) = observed_run accepts s rs ob1
      in (answer # answers, ob2))"

section \<open>The specification\<close>

text \<open>
  \<open>utf8.ValidString\<close> of the Go library, on the bytes of a string: no continuation byte too many or
  missing, no overlong encoding, no surrogate, nothing above \<open>10FFFF\<close>. The Prometheus client accepts
  exactly such label values.
\<close>

definition continues :: "nat \<Rightarrow> bool" where
  "continues b \<longleftrightarrow> 128 \<le> b \<and> b < 192"

fun valid_utf8 :: "nat list \<Rightarrow> bool" where
  "valid_utf8 [] = True"
| "valid_utf8 (b # bs) =
     (if b < 128 then valid_utf8 bs
      else (case bs of
          [] \<Rightarrow> False
        | c # cs \<Rightarrow>
            if 194 \<le> b \<and> b < 224 then continues c \<and> valid_utf8 cs
            else (case cs of
                [] \<Rightarrow> False
              | e # es \<Rightarrow>
                  if 224 \<le> b \<and> b < 240
                  then continues c \<and> (b = 224 \<longrightarrow> 160 \<le> c) \<and> (b = 237 \<longrightarrow> c < 160) \<and> continues e \<and> valid_utf8 es
                  else (case es of
                      [] \<Rightarrow> False
                    | g # gs \<Rightarrow> 240 \<le> b \<and> b < 245 \<and> continues c \<and> (b = 240 \<longrightarrow> 144 \<le> c) \<and> (b = 244 \<longrightarrow> c < 144) \<and>
                        continues e \<and> continues g \<and> valid_utf8 gs))))"

definition ValidString :: "string \<Rightarrow> bool" where
  "ValidString s \<longleftrightarrow> valid_utf8 (map of_char s)"

definition takes_utf8 :: "(string \<Rightarrow> bool) \<Rightarrow> bool" where
  "takes_utf8 accepts \<longleftrightarrow> (\<forall>v. accepts v = ValidString v)"

text \<open>The lines that can be counted.\<close>

definition countable :: "request_line \<Rightarrow> bool" where
  "countable = (\<lambda>(method, path, status). ValidString method \<and> ValidString path)"

text \<open>The same run without the middlewares, and the lines of the requests the limiter lets through in it.\<close>

fun serve_run :: "server \<Rightarrow> (env \<times> int \<times> web_request) list \<Rightarrow> server_state \<Rightarrow> (response \<times> user option) list \<times> server_state" where
  "serve_run s [] st = ([], st)"
| "serve_run s ((en, now, q) # rs) st =
     (let (answer, st1) = serve s en now q st; (answers, st2) = serve_run s rs st1 in (answer # answers, st2))"

definition let_through :: "int \<Rightarrow> web_request \<Rightarrow> server_state \<Rightarrow> bool" where
  "let_through now q st \<longleftrightarrow> fst (allow now (client_key (wr_addr q)) (sv_limiter st))"

fun passed_lines :: "server \<Rightarrow> (env \<times> int \<times> web_request) list \<Rightarrow> server_state \<Rightarrow> request_line list" where
  "passed_lines s [] st = []"
| "passed_lines s ((en, now, q) # rs) st =
     (let (answer, st1) = serve s en now q st
      in (if let_through now q st then [line_of q (fst answer)] else []) @ passed_lines s rs st1)"

text \<open>The replays a run times: those of the requests that get to a handler and ask for a past state.\<close>

definition handler_label :: "server \<Rightarrow> int \<Rightarrow> web_request \<Rightarrow> string option" where
  "handler_label s now q =
     (case authenticate s now q of
        NextHandler ctx \<Rightarrow> (case routed s q ctx of None \<Rightarrow> None | Some e \<Rightarrow> replay_label e (wr_request q))
      | _ \<Rightarrow> None)"

definition timed :: "server \<Rightarrow> int \<Rightarrow> web_request \<Rightarrow> server_state \<Rightarrow> string list" where
  "timed s now q st =
     (if let_through now q st
      then (case handler_label s (now div 1000000000) q of None \<Rightarrow> [] | Some ty \<Rightarrow> [ty]) else [])"

fun timed_run :: "server \<Rightarrow> (env \<times> int \<times> web_request) list \<Rightarrow> server_state \<Rightarrow> string list" where
  "timed_run s [] st = []"
| "timed_run s ((en, now, q) # rs) st = timed s now q st @ timed_run s rs (snd (serve s en now q st))"

section \<open>Lemmas\<close>

lemma valid_utf8_ascii: "list_all (\<lambda>b. b < 128) bs \<Longrightarrow> valid_utf8 bs"
  by (induction bs) simp_all

lemma ValidString_show_int: "ValidString (show_int n)"
proof -
  have "is_digit c \<Longrightarrow> (of_char c :: nat) < 128" for c
    using of_nat_of_char [of c, where ?'a = int] by (simp add: is_digit_def byte_val_def)
  then have "list_all (\<lambda>c. (of_char c :: nat) < 128) (show_nat \<bar>n\<bar>)"
    using show_nat_digits [of "\<bar>n\<bar>"] by (auto simp: list_all_iff)
  then have "list_all (\<lambda>b. b < 128) (map of_char (show_int n) :: nat list)"
    by (cases "n < 0") (simp_all add: show_int_def list_all_iff)
  then show ?thesis unfolding ValidString_def by (rule valid_utf8_ascii)
qed

lemma count_filter: "count_list (filter P xs) k = (if P k then count_list xs k else 0)"
  by (induction xs) auto

lemma count_pos: "0 < count_list xs k \<longleftrightarrow> k \<in> set xs"
  by (simp only: neq0_conv [symmetric] count_list_0_iff not_not)

lemma accepts_line:
  "takes_utf8 accepts \<Longrightarrow> list_all accepts [wr_method q, wr_path q, show_int (rs_status resp)] = countable (line_of q resp)"
  by (simp add: takes_utf8_def countable_def line_of_def ValidString_show_int)

lemma inner_times: "snd (snd (inner s en now q ((d, c), h))) = time_replay (handler_label s now q) h"
  by (simp add: inner_def handler_label_def time_replay_def split: auth_outcome.split prod.split)

lemma time_replay_count: "time_replay l h ty = h ty + count_list (case l of None \<Rightarrow> [] | Some x \<Rightarrow> [x]) ty"
  by (simp add: time_replay_def split: option.split)

lemma observed_serve_times:
  assumes "observed_serve accepts s en now q ob = (answer, ob')"
  shows "ob_replays ob' ty = ob_replays ob ty + count_list (timed s now q (ob_state ob)) ty"
proof -
  let ?st = "ob_state ob"
  obtain a d c h where i: "inner s en (now div 1000000000) q ((sv_db ?st, sv_cache ?st), ob_replays ob) = (a, (d, c), h)"
    by (metis surj_pair)
  then have h: "h = time_replay (handler_label s (now div 1000000000) q) (ob_replays ob)"
    using inner_times [of s en "now div 1000000000" q "sv_db ?st" "sv_cache ?st" "ob_replays ob"] by simp
  obtain ok rl where rl: "allow now (client_key (wr_addr q)) (sv_limiter ?st) = (ok, rl)" by (rule prod.exhaust)
  have "ob_replays ob' = (if let_through now q ?st then h else ob_replays ob)"
    unfolding arg_cong [where f = snd, OF assms, unfolded snd_conv, symmetric]
    by (cases ok) (simp_all add: observed_serve_def HTTPMetricsMiddleware_def LoggerMiddleware_def
        rateLimitMiddleware_def let_through_def Let_def rl i)
  then show ?thesis by (cases "let_through now q ?st") (simp_all only: h timed_def time_replay_count if_True if_False count_list.simps add_0_right)
qed

lemma observed_serve_step:
  assumes "observed_serve accepts s en now q ob = (answer, ob')"
    and "takes_utf8 accepts"
  shows "serve s en now q (ob_state ob) = (answer, ob_state ob')"
    "ob_log ob' = ob_log ob @ (if let_through now q (ob_state ob) then [line_of q (fst answer)] else [])"
    "ob_requests ob' k = ob_requests ob k + (if let_through now q (ob_state ob) \<and> countable k \<and> k = line_of q (fst answer) then 1 else 0)"
  using assms(1)
  by (auto simp: accepts_line [OF assms(2)] simp del: list.pred_inject simp: observed_serve_def serve_def inner_def HTTPMetricsMiddleware_def LoggerMiddleware_def rateLimitMiddleware_def
      keep_def let_through_def Let_def split: prod.splits auth_outcome.splits bool.splits option.splits)

lemma observed_run_exact:
  assumes "observed_run accepts s rs ob = (answers, ob')" "takes_utf8 accepts"
  shows "serve_run s rs (ob_state ob) = (answers, ob_state ob') \<and>
    ob_log ob' = ob_log ob @ passed_lines s rs (ob_state ob) \<and>
    (\<forall>k. ob_requests ob' k = ob_requests ob k + count_list (filter countable (passed_lines s rs (ob_state ob))) k) \<and>
    (\<forall>ty. ob_replays ob' ty = ob_replays ob ty + count_list (timed_run s rs (ob_state ob)) ty)"
  using assms(1)
proof (induction rs arbitrary: ob answers ob')
  case (Cons r rs)
  obtain en now q where r: "r = (en, now, q)" by (cases r)
  obtain answer ob1 where 1: "observed_serve accepts s en now q ob = (answer, ob1)" by (rule prod.exhaust)
  obtain more ob2 where 2: "observed_run accepts s rs ob1 = (more, ob2)" by (rule prod.exhaust)
  have "answers = answer # more" "ob' = ob2" using Cons.prems r 1 2 by simp_all
  then show ?case
    using Cons.IH [OF 2] observed_serve_step [OF 1 assms(2)] observed_serve_times [OF 1] by (auto simp: r count_filter)
qed simp

section \<open>Properties\<close>

text \<open>C33: the middlewares that measure and log change no answer and no state. Over any run of requests the
  log has one line for each request the limiter lets through, in order, with its method, its path and the
  status it was answered with; the counter counts the same lines, once each, but for those whose path
  or method is not valid UTF-8, where (given that the Prometheus client accepts just the valid label
  values) the middleware panics after the answer and counts nothing. The series that come into being
  are those of the other lines, found or not and with or without a token. A replay is timed exactly for
  the GETs of one user, product or order at a past state that get to their handler, whether it succeeds
  or not, under the type of the aggregate; replays by POST and diffs are never timed.\<close>

theorem requests_recorded_exactly:
  assumes "observed_run accepts s rs ob = (answers, ob')" "takes_utf8 accepts"
  shows "serve_run s rs (ob_state ob) = (answers, ob_state ob') \<and>
    ob_log ob' = ob_log ob @ passed_lines s rs (ob_state ob) \<and>
    (\<forall>k. ob_requests ob' k = ob_requests ob k + count_list (filter countable (passed_lines s rs (ob_state ob))) k) \<and>
    {k. 0 < ob_requests ob' k} = {k. 0 < ob_requests ob k} \<union> {k \<in> set (passed_lines s rs (ob_state ob)). countable k} \<and>
    (\<forall>ty. ob_replays ob' ty = ob_replays ob ty + count_list (timed_run s rs (ob_state ob)) ty)"
  using observed_run_exact [OF assms] by (auto simp del: split_paired_All simp: count_pos)

definition unknown_path :: "string \<Rightarrow> web_request" where
  "unknown_path x = \<lparr>wr_method = ''GET'', wr_path = ''/'' @ x, wr_addr = ''10.0.0.1:5000'', wr_request = sample_request [] None []\<rparr>"

lemma requests_recorded_exactly_witness:
  "let run = map (\<lambda>x. (sample_env, 5000000000, unknown_path x)) [''a'', [char_of (255::nat)], ''b'', ''a'']; st = new_state empty_db Map.empty;
       ob = \<lparr>ob_state = st, ob_requests = (\<lambda>_. 0), ob_log = [], ob_replays = (\<lambda>_. 0)\<rparr>;
       ob' = snd (observed_run ValidString sample_server run ob)
   in ob_requests ob' (''GET'', ''/a'', 401) = 2 \<and> card {k. 0 < ob_requests ob' k} = 2 \<and> length (ob_log ob') = 4 \<and>
      ob_log ob' ! 1 = (''GET'', [CHR ''/'', char_of (255::nat)], 401) \<and> ob_requests ob' (''GET'', [CHR ''/'', char_of (255::nat)], 401) = 0"
proof -
  let ?run = "map (\<lambda>x. (sample_env, 5000000000, unknown_path x)) [''a'', [char_of (255::nat)], ''b'', ''a'']" and ?st = "new_state empty_db Map.empty"
  let ?bad = "(''GET'', [CHR ''/'', char_of (255::nat)], 401)"
  let ?ob = "\<lparr>ob_state = ?st, ob_requests = (\<lambda>_. 0), ob_log = [], ob_replays = (\<lambda>_. 0)\<rparr>"
  let ?ob' = "snd (observed_run ValidString sample_server ?run ?ob)"
  have p: "passed_lines sample_server ?run ?st = [(''GET'', ''/a'', 401), ?bad, (''GET'', ''/b'', 401), (''GET'', ''/a'', 401)]"
    by code_simp
  have v: "countable (''GET'', ''/a'', 401)" "countable (''GET'', ''/b'', 401)" "\<not> countable ?bad"
    by (code_simp, code_simp, code_simp)
  have "ob_state ?ob = ?st" "takes_utf8 ValidString" by (simp_all add: takes_utf8_def)
  note r = requests_recorded_exactly [OF prod.collapse [symmetric] this(2), of sample_server ?run ?ob, unfolded this(1) p]
  have "ob_requests ?ob' (''GET'', ''/a'', 401) = 2" "ob_requests ?ob' ?bad = 0" "length (ob_log ?ob') = 4" "ob_log ?ob' ! 1 = ?bad"
    "{k. 0 < ob_requests ?ob' k} = {(''GET'', ''/a'', 401), (''GET'', ''/b'', 401)}"
    using r v by (simp_all add: Collect_disj_eq) auto
  then show ?thesis by (simp add: Let_def)
qed

end
