(* ===== verification/Grpc_Api.thy ===== *)
theory Grpc_Api
  imports Http_Api
begin

text \<open>
  \<open>internal/grpc/server.go\<close>: the handlers of the gRPC service \<open>temporal.v1.TemporalService\<close>, which
  only reads. The messages are those of \<open>api/proto/temporal/v1\<close>; a time stamp is the instant its
  \<open>AsTime\<close> gives, in UTC.
\<close>

section \<open>Messages\<close>

record get_entity_request =
  ge_Id :: string
  ge_At :: "gotime option"
  ge_Version :: i64

record proto_user =
  gu_Id :: string
  gu_Name :: string
  gu_Email :: string
  gu_Version :: i64
  gu_Deleted :: bool

record proto_product =
  gp_Id :: string
  gp_Name :: string
  gp_Description :: string
  gp_PriceCents :: i64
  gp_Currency :: string
  gp_Version :: i64
  gp_Deleted :: bool

record proto_item =
  gi_ProductId :: string
  gi_Quantity :: int
  gi_PriceCents :: i64

record proto_order =
  go_Id :: string
  go_UserId :: string
  go_Status :: string
  go_TotalCents :: i64
  go_Currency :: string
  go_Items :: "proto_item list"
  go_Version :: i64
  go_Cancelled :: bool

record proto_timeline_entry =
  gt_Version :: i64
  gt_EventType :: string
  gt_EventId :: i64
  gt_Timestamp :: gotime
  gt_Actor :: string

record search_events_request =
  gs_AggregateType :: string
  gs_AggregateId :: string
  gs_EventType :: string
  gs_Actor :: string

record proto_event =
  gv_Id :: i64
  gv_AggregateType :: string
  gv_AggregateId :: string
  gv_EventType :: string
  gv_Version :: i64
  gv_Payload :: json

section \<open>Operations\<close>

definition entityQuery :: "gotime option \<Rightarrow> i64 \<Rightarrow> replay_query" where
  "entityQuery at version =
     \<lparr>rq_At = at, rq_Version = (if 0 < version then Some version else None), rq_UntilID = None\<rparr>"

definition grpc_replayQuery :: "gotime option \<Rightarrow> i64 \<Rightarrow> replay_query" where
  "grpc_replayQuery at version = entityQuery at version"

definition toProtoUser :: "user \<Rightarrow> proto_user" where
  "toProtoUser u = \<lparr>gu_Id = u_ID u, gu_Name = u_Name u, gu_Email = u_Email u, gu_Version = u_Version u,
     gu_Deleted = u_Deleted u\<rparr>"

definition toProtoProduct :: "product \<Rightarrow> proto_product" where
  "toProtoProduct p = \<lparr>gp_Id = p_ID p, gp_Name = p_Name p, gp_Description = p_Description p,
     gp_PriceCents = p_PriceCents p, gp_Currency = p_Currency p, gp_Version = p_Version p,
     gp_Deleted = p_Deleted p\<rparr>"

text \<open>The conversion of a quantity to \<open>int32\<close> keeps its low 32 bits.\<close>

definition toProtoItem :: "item \<Rightarrow> proto_item" where
  "toProtoItem it = \<lparr>gi_ProductId = i_ProductID it, gi_Quantity = wrap32 (i_Quantity it), gi_PriceCents = i_PriceCents it\<rparr>"

definition toProtoOrder :: "order \<Rightarrow> proto_order" where
  "toProtoOrder x = \<lparr>go_Id = o_ID x, go_UserId = o_UserID x, go_Status = o_Status x, go_TotalCents = o_TotalCents x,
     go_Currency = o_Currency x, go_Items = map toProtoItem (item_list (o_Items x)),
     go_Version = o_Version x, go_Cancelled = o_Cancelled x\<rparr>"

text \<open>The queries on users go through the cache.\<close>

definition grpc_GetUser :: "env \<Rightarrow> db \<Rightarrow> get_entity_request \<Rightarrow> redis \<Rightarrow> proto_user result \<times> redis" where
  "grpc_GetUser en d req c =
     (let q = entityQuery (ge_At req) (ge_Version req)
      in if IsTemporal q
         then (case api_ReplayUser en d (ge_Id req) q c of
                 (Inl e, c') \<Rightarrow> (Inl e, c')
               | (Inr u, c') \<Rightarrow> (Inr (toProtoUser u), c'))
         else (case UserProjector_GetCurrent (en_fl en) d (ge_Id req) of
                 Inl e \<Rightarrow> (Inl e, c)
               | Inr u \<Rightarrow> (Inr (toProtoUser u), c)))"

definition grpc_ReplayUser :: "env \<Rightarrow> db \<Rightarrow> get_entity_request \<Rightarrow> redis \<Rightarrow> proto_user result \<times> redis" where
  "grpc_ReplayUser en d req c =
     (case api_ReplayUser en d (ge_Id req) (grpc_replayQuery (ge_At req) (ge_Version req)) c of
        (Inl e, c') \<Rightarrow> (Inl e, c')
      | (Inr u, c') \<Rightarrow> (Inr (toProtoUser u), c'))"

definition grpc_GetProduct :: "env \<Rightarrow> db \<Rightarrow> get_entity_request \<Rightarrow> proto_product result" where
  "grpc_GetProduct en d req =
     (let q = entityQuery (ge_At req) (ge_Version req)
      in if IsTemporal q
         then (case ReplayProduct (en_fl en) d (ge_Id req) q of Inl e \<Rightarrow> Inl e | Inr p \<Rightarrow> Inr (toProtoProduct p))
         else (case ProductProjector_GetCurrent (en_fl en) d (ge_Id req) of
                 Inl e \<Rightarrow> Inl e | Inr p \<Rightarrow> Inr (toProtoProduct p)))"

definition grpc_ReplayProduct :: "env \<Rightarrow> db \<Rightarrow> get_entity_request \<Rightarrow> proto_product result" where
  "grpc_ReplayProduct en d req =
     (case ReplayProduct (en_fl en) d (ge_Id req) (grpc_replayQuery (ge_At req) (ge_Version req)) of
        Inl e \<Rightarrow> Inl e | Inr p \<Rightarrow> Inr (toProtoProduct p))"

definition grpc_GetOrder :: "env \<Rightarrow> db \<Rightarrow> get_entity_request \<Rightarrow> proto_order result" where
  "grpc_GetOrder en d req =
     (let q = entityQuery (ge_At req) (ge_Version req)
      in if IsTemporal q
         then (case ReplayOrder (en_fl en) d (ge_Id req) q of Inl e \<Rightarrow> Inl e | Inr x \<Rightarrow> Inr (toProtoOrder x))
         else (case OrderProjector_GetCurrent (en_fl en) d (ge_Id req) of
                 Inl e \<Rightarrow> Inl e | Inr x \<Rightarrow> Inr (toProtoOrder x)))"

definition grpc_ReplayOrder :: "env \<Rightarrow> db \<Rightarrow> get_entity_request \<Rightarrow> proto_order result" where
  "grpc_ReplayOrder en d req =
     (case ReplayOrder (en_fl en) d (ge_Id req) (grpc_replayQuery (ge_At req) (ge_Version req)) of
        Inl e \<Rightarrow> Inl e | Inr x \<Rightarrow> Inr (toProtoOrder x))"

definition grpc_GetTimeline :: "env \<Rightarrow> db \<Rightarrow> string \<Rightarrow> string \<Rightarrow> proto_timeline_entry list result" where
  "grpc_GetTimeline en d aggregateType aggregateID =
     (case Timeline (en_fl en) d aggregateType aggregateID of
        Inl e \<Rightarrow> Inl e
      | Inr entries \<Rightarrow> Inr (map (\<lambda>e. \<lparr>gt_Version = te_Version e, gt_EventType = te_EventType e,
          gt_EventId = te_EventID e, gt_Timestamp = te_Timestamp e, gt_Actor = te_Actor e\<rparr>) entries))"

definition grpc_SearchEvents :: "env \<Rightarrow> db \<Rightarrow> search_events_request \<Rightarrow> proto_event list result" where
  "grpc_SearchEvents en d req =
     (case Search (en_plan en) (en_fl en) d
        \<lparr>sf_AggregateType = gs_AggregateType req, sf_AggregateID = gs_AggregateId req, sf_EventType = gs_EventType req,
         sf_Actor = gs_Actor req, sf_CorrelationID = [], sf_From = None, sf_To = None\<rparr> of
        Inl e \<Rightarrow> Inl e
      | Inr events \<Rightarrow> Inr (map (\<lambda>e. \<lparr>gv_Id = se_ID e, gv_AggregateType = se_AggregateType e,
          gv_AggregateId = se_AggregateID e, gv_EventType = se_EventType e, gv_Version = se_Version e,
          gv_Payload = se_Payload e\<rparr>) events))"

section \<open>Lemmas\<close>

definition in_i32 :: "int \<Rightarrow> bool" where
  "in_i32 n \<longleftrightarrow> - 2147483648 \<le> n \<and> n \<le> 2147483647"

lemma wrap32_eq_iff: "wrap32 n = n \<longleftrightarrow> in_i32 n"
proof
  assume "wrap32 n = n"
  moreover have "- 2147483648 \<le> wrap32 n" "wrap32 n \<le> 2147483647" by (simp_all add: wrap32_def)
  ultimately show "in_i32 n" by (simp add: in_i32_def)
qed (simp add: in_i32_def wrap32_def)

text \<open>The parsers of the request parameters are those of the package \<open>temporal\<close>, written again.\<close>

lemma api_parsers_agree:
  "api_parseReplayQuery r = ParseReplayQuery (hr_param r ''at'') (hr_param r ''version'')"
  "parseTimeOrVersionParam r key = ParseBound (hr_param r key)"
  by (auto simp: api_parseReplayQuery_def ParseReplayQuery_def parseTimeOrVersionParam_def ParseBound_def Let_def
      split: option.split)

lemma show_int_nonempty: "show_int n \<noteq> []"
  using show_int_Cons [of n] by fastforce

lemma parse_entityQuery:
  assumes "hr_param r ''at'' = [] \<and> ge_At req = None \<or>
      hr_param r ''at'' \<noteq> [] \<and> parse_rfc3339 (hr_param r ''at'') = ge_At req \<and> ge_At req \<noteq> None"
    and "hr_param r ''version'' = [] \<and> ge_Version req = 0 \<or>
      hr_param r ''version'' = show_int (ge_Version req) \<and> 0 < ge_Version req \<and> in_i64 (ge_Version req)"
  shows "api_parseReplayQuery r = (entityQuery (ge_At req) (ge_Version req), True)"
proof -
  from assms show ?thesis
    unfolding api_parsers_agree
    by (elim disjE conjE) (auto simp: ParseReplayQuery_def entityQuery_def empty_query_def parse_int64_show_int show_int_nonempty)
qed

lemma temporal_entityQuery: "IsTemporal (entityQuery at v) \<longleftrightarrow> isTemporal (entityQuery at v)"
  by (simp add: IsTemporal_def isTemporal_def entityQuery_def)

text \<open>What a query of a version below one is answered with by a replay.\<close>

lemma replay_no_version:
  assumes "db_ok d" "\<not> fl CallLoadEvents" "\<not> fl CallLatestSnapshot" "v \<le> 0"
  shows "users_good d \<Longrightarrow> ReplayUser fl d i (at_version v) = Inl ErrNotFound"
    "products_good d \<Longrightarrow> ReplayProduct fl d i (at_version v) = Inl ErrNotFound"
    "orders_good d \<Longrightarrow> ReplayOrder fl d i (at_version v) = Inl ErrNotFound"
proof -
  have z: "fold_state userAgg i [] = Inl ErrNotFound" "fold_state productAgg i [] = Inl ErrNotFound"
    "fold_state orderAgg i [] = Inl ErrNotFound"
    by (simp_all add: fold_state_def agg_defs user_New_def product_New_def order_New_def)
  note fold = replay_version_fold [OF assms(1-3), of i v]
  show "users_good d \<Longrightarrow> ReplayUser fl d i (at_version v) = Inl ErrNotFound"
    "products_good d \<Longrightarrow> ReplayProduct fl d i (at_version v) = Inl ErrNotFound"
    "orders_good d \<Longrightarrow> ReplayOrder fl d i (at_version v) = Inl ErrNotFound"
    using fold assms(4) by (simp_all add: z map_sum_Inl)
qed

lemma grpc_version_ignored:
  assumes "ge_Version req \<le> 0"
  shows "grpc_GetUser en d req c = grpc_GetUser en d (req\<lparr>ge_Version := 0\<rparr>) c"
    "grpc_GetProduct en d req = grpc_GetProduct en d (req\<lparr>ge_Version := 0\<rparr>)"
    "grpc_GetOrder en d req = grpc_GetOrder en d (req\<lparr>ge_Version := 0\<rparr>)"
  using assms by (simp_all add: grpc_GetUser_def grpc_GetProduct_def grpc_GetOrder_def entityQuery_def Let_def)

section \<open>Properties\<close>

text \<open>C38: the two interfaces answer alike where the version asked for is positive or left out (with a time or
  without): a gRPC request for an entity fails where the REST request with the same parameters fails,
  and otherwise returns the message made of the entity REST returns; on users it leaves the same cache
  behind. On a version of zero or below they disagree: gRPC takes it for none and answers as without
  it; REST answers 404 for products and orders (while the database answers and their snapshots hold
  the states their versions say, as in every reachable state) and, without a cache and with such
  snapshots, for users.\<close>

theorem grpc_rest_agree:
  assumes "hr_id r = ge_Id req"
    and "hr_param r ''at'' = [] \<and> ge_At req = None \<or>
      hr_param r ''at'' \<noteq> [] \<and> parse_rfc3339 (hr_param r ''at'') = ge_At req \<and> ge_At req \<noteq> None"
    and "hr_param r ''version'' = [] \<and> ge_Version req = 0 \<or>
      hr_param r ''version'' = show_int (ge_Version req) \<and> in_i64 (ge_Version req)"
  shows "(hr_param r ''version'' = [] \<or> 0 < ge_Version req \<longrightarrow>
      (case grpc_GetUser en d req c of (res, c') \<Rightarrow>
        (case res of Inl e \<Rightarrow> getUser en r d c = (handleQueryError e, c')
         | Inr m \<Rightarrow> \<exists>u. getUser en r d c = (writeJSON 200 (PUser u), c') \<and> toProtoUser u = m)) \<and>
      (case grpc_GetProduct en d req of Inl e \<Rightarrow> getProduct en r d = handleQueryError e
       | Inr m \<Rightarrow> \<exists>p. getProduct en r d = writeJSON 200 (PProduct p) \<and> toProtoProduct p = m) \<and>
      (case grpc_GetOrder en d req of Inl e \<Rightarrow> getOrder en r d = handleQueryError e
       | Inr m \<Rightarrow> \<exists>x. getOrder en r d = writeJSON 200 (POrder x) \<and> toProtoOrder x = m)) \<and>
    (ge_Version req \<le> 0 \<longrightarrow>
      grpc_GetUser en d req c = grpc_GetUser en d (req\<lparr>ge_Version := 0\<rparr>) c \<and>
      grpc_GetProduct en d req = grpc_GetProduct en d (req\<lparr>ge_Version := 0\<rparr>) \<and>
      grpc_GetOrder en d req = grpc_GetOrder en d (req\<lparr>ge_Version := 0\<rparr>) \<and>
      (hr_param r ''version'' \<noteq> [] \<and> ge_At req = None \<and> db_ok d \<and> \<not> en_fl en CallLoadEvents \<and> \<not> en_fl en CallLatestSnapshot \<longrightarrow>
        (products_good d \<longrightarrow> getProduct en r d = writeError 404 ''aggregate not found'') \<and>
        (orders_good d \<longrightarrow> getOrder en r d = writeError 404 ''aggregate not found'') \<and>
        (users_good d \<and> \<not> en_redis en \<longrightarrow> getUser en r d c = (writeError 404 ''aggregate not found'', c))))"
    (is "(?alike \<longrightarrow> ?same) \<and> (?none \<longrightarrow> ?ignored)")
proof (intro conjI impI)
  assume ?alike
  then have "api_parseReplayQuery r = (entityQuery (ge_At req) (ge_Version req), True)"
    using assms(2,3) show_int_nonempty [of "ge_Version req"] by (intro parse_entityQuery) metis+
  then have "?same \<and> True"
    using assms(1)
    by (auto simp: grpc_GetUser_def grpc_GetProduct_def grpc_GetOrder_def getUser_def getProduct_def getOrder_def
        product_response_def order_response_def temporal_entityQuery Let_def split: prod.splits sum.splits)
  then show "case grpc_GetUser en d req c of (res, c') \<Rightarrow>
        (case res of Inl e \<Rightarrow> getUser en r d c = (handleQueryError e, c')
         | Inr m \<Rightarrow> \<exists>u. getUser en r d c = (writeJSON 200 (PUser u), c') \<and> toProtoUser u = m)"
    "case grpc_GetProduct en d req of Inl e \<Rightarrow> getProduct en r d = handleQueryError e
       | Inr m \<Rightarrow> \<exists>p. getProduct en r d = writeJSON 200 (PProduct p) \<and> toProtoProduct p = m"
    "case grpc_GetOrder en d req of Inl e \<Rightarrow> getOrder en r d = handleQueryError e
       | Inr m \<Rightarrow> \<exists>x. getOrder en r d = writeJSON 200 (POrder x) \<and> toProtoOrder x = m" by simp_all
next
  assume none: ?none
  then show "grpc_GetUser en d req c = grpc_GetUser en d (req\<lparr>ge_Version := 0\<rparr>) c"
    "grpc_GetProduct en d req = grpc_GetProduct en d (req\<lparr>ge_Version := 0\<rparr>)"
    "grpc_GetOrder en d req = grpc_GetOrder en d (req\<lparr>ge_Version := 0\<rparr>)"
    by (rule grpc_version_ignored)+
  assume g: "hr_param r ''version'' \<noteq> [] \<and> ge_At req = None \<and> db_ok d \<and> \<not> en_fl en CallLoadEvents \<and> \<not> en_fl en CallLatestSnapshot"
  then have "hr_param r ''at'' = []" "hr_param r ''version'' = show_int (ge_Version req)" "in_i64 (ge_Version req)"
    using assms(2,3) by auto
  then have q: "api_parseReplayQuery r = (at_version (ge_Version req), True)"
    using g unfolding api_parsers_agree by (simp add: ParseReplayQuery_def at_version_def empty_query_def parse_int64_show_int)
  note no = replay_no_version [of d "en_fl en" "ge_Version req" "hr_id r", OF _ _ _ none]
  show "products_good d \<Longrightarrow> getProduct en r d = writeError 404 ''aggregate not found''"
    "orders_good d \<Longrightarrow> getOrder en r d = writeError 404 ''aggregate not found''"
    "users_good d \<and> \<not> en_redis en \<Longrightarrow> getUser en r d c = (writeError 404 ''aggregate not found'', c)"
    using g q no by (simp_all add: getUser_def getProduct_def getOrder_def product_response_def order_response_def
        api_ReplayUser_def cache_ReplayUser_def handleQueryError_def isTemporal_def at_version_def Let_def)
qed

lemma grpc_rest_agree_witness:
  "let d = sample_db []; ask = (\<lambda>v. \<lparr>ge_Id = ''u1'', ge_At = None, ge_Version = v\<rparr>);
      get = (\<lambda>v. (sample_request ''u1'' None [])\<lparr>hr_param := (\<lambda>k. if k = ''version'' then show_int v else [])\<rparr>)
   in (\<exists>u m. fst (grpc_GetUser sample_env d (ask 1) Map.empty) = Inr m \<and>
        fst (getUser sample_env (get 1) d Map.empty) = writeJSON 200 (PUser u) \<and> toProtoUser u = m) \<and>
      fst (getUser sample_env (get (- 1)) d Map.empty) = writeError 404 ''aggregate not found'' \<and>
      grpc_GetUser sample_env d (ask (- 1)) Map.empty = grpc_GetUser sample_env d (ask 0) Map.empty \<and>
      \<not> isl (fst (grpc_GetUser sample_env (snd (user_Create 50 no_faults 7 scenario_create empty_db)) (ask (- 1)) Map.empty))"
proof -
  let ?ask = "\<lambda>v. \<lparr>ge_Id = ''u1'', ge_At = None, ge_Version = v\<rparr>"
  let ?get = "\<lambda>v. (sample_request ''u1'' None [])\<lparr>hr_param := (\<lambda>k. if k = ''version'' then show_int v else [])\<rparr>"
  have "\<not> isl (fst (grpc_GetUser sample_env (sample_db []) (?ask 1) Map.empty))" by code_simp
  then obtain m where m: "fst (grpc_GetUser sample_env (sample_db []) (?ask 1) Map.empty) = Inr m"
    by (cases "fst (grpc_GetUser sample_env (sample_db []) (?ask 1) Map.empty)") auto
  have 1: "\<exists>u m. fst (grpc_GetUser sample_env (sample_db []) (?ask 1) Map.empty) = Inr m \<and>
        fst (getUser sample_env (?get 1) (sample_db []) Map.empty) = writeJSON 200 (PUser u) \<and> toProtoUser u = m"
    using grpc_rest_agree [of "?get 1" "?ask 1" sample_env "sample_db []" Map.empty] m
    by (auto simp: sample_request_def in_i64_def split: prod.splits)
  have "users_good (sample_db [])" using sample_all_good [of "[]"] by (simp add: all_good_iff)
  then have 2: "fst (getUser sample_env (?get (- 1)) (sample_db []) Map.empty) = writeError 404 ''aggregate not found''"
    "grpc_GetUser sample_env (sample_db []) (?ask (- 1)) Map.empty = grpc_GetUser sample_env (sample_db []) (?ask 0) Map.empty"
    using grpc_rest_agree [of "?get (- 1)" "?ask (- 1)" sample_env "sample_db []" Map.empty] show_int_nonempty sample_db_ok
    by (simp_all add: sample_request_def in_i64_def sample_env_def)
  have 3: "\<not> isl (fst (grpc_GetUser sample_env (snd (user_Create 50 no_faults 7 scenario_create empty_db)) (?ask (- 1)) Map.empty))"
    by code_simp
  show ?thesis unfolding Let_def by (intro conjI 1 2 3)
qed

text \<open>C30: an order's message lists its items in order with their products and prices, and the quantities
  are right exactly when all fit into 32 bits; a larger one is shown modulo \<open>2 ^ 32\<close>, beside a total
  that counts it in full.\<close>

theorem grpc_order_quantities:
  "map (\<lambda>m. (gi_ProductId m, gi_PriceCents m)) (go_Items (toProtoOrder x)) =
     map (\<lambda>it. (i_ProductID it, i_PriceCents it)) (item_list (o_Items x)) \<and>
   (map gi_Quantity (go_Items (toProtoOrder x)) = map i_Quantity (item_list (o_Items x)) \<longleftrightarrow>
     (\<forall>it \<in> set (item_list (o_Items x)). - 2147483648 \<le> i_Quantity it \<and> i_Quantity it \<le> 2147483647)) \<and>
   (\<forall>m it. (m, it) \<in> set (zip (go_Items (toProtoOrder x)) (item_list (o_Items x))) \<longrightarrow>
     gi_Quantity m mod 4294967296 = i_Quantity it mod 4294967296)"
proof -
  have "wrap32 n mod 4294967296 = n mod 4294967296" for n
    by (simp add: wrap32_def mod_diff_left_eq)
  then have "gi_Quantity m mod 4294967296 = i_Quantity it mod 4294967296"
    if "(m, it) \<in> set (zip (map toProtoItem its) its)" for m it its
    using that by (auto simp: zip_map1 zip_same_conv_map toProtoItem_def)
  then show ?thesis
    by (auto simp: toProtoOrder_def o_def wrap32_eq_iff in_i32_def) (auto simp: toProtoItem_def wrap32_eq_iff in_i32_def)
qed

definition huge_order :: json where
  "huge_order = JObj [(''id'', JStr ''o1''), (''user_id'', JStr ''u1''),
     (''items'', JArr [JObj [(''product_id'', JStr ''p1''), (''quantity'', JInt 4294967297), (''price_cents'', JInt 2)]])]"

lemma grpc_order_quantities_witness:
  "\<exists>m. grpc_GetOrder sample_env (snd (createOrder sample_env (sample_request [] (Some huge_order) []) empty_db))
       \<lparr>ge_Id = ''o1'', ge_At = None, ge_Version = 0\<rparr> = Inr m \<and>
     go_TotalCents m = 8589934594 \<and> map gi_Quantity (go_Items m) \<noteq> [4294967297]"
proof -
  let ?d = "snd (createOrder sample_env (sample_request [] (Some huge_order) []) empty_db)"
  have "(case OrderProjector_GetCurrent (en_fl sample_env) ?d ''o1'' of Inl e \<Rightarrow> False
      | Inr x \<Rightarrow> o_TotalCents x = 8589934594 \<and> map i_Quantity (item_list (o_Items x)) = [4294967297])" by code_simp
  then obtain x where x: "OrderProjector_GetCurrent (en_fl sample_env) ?d ''o1'' = Inr x"
      "o_TotalCents x = 8589934594" "map i_Quantity (item_list (o_Items x)) = [4294967297]"
    by (auto split: sum.splits)
  moreover have "\<exists>it \<in> set (item_list (o_Items x)). i_Quantity it = 4294967297" using x(3) by auto
  ultimately show ?thesis
    using grpc_order_quantities [of x]
    by (auto simp: grpc_GetOrder_def entityQuery_def IsTemporal_def) (auto simp: toProtoOrder_def)
qed

end
