(* ===== verification/Migrate.thy ===== *)
theory Migrate
  imports Prelude "HOL-Library.List_Lexorder" "HOL-Library.Char_ord"
begin

text \<open>
  \<open>pkg/migrate/migrate.go\<close>: applying the migration files of a directory in the order of their names,
  each once. What a file's SQL does to the schema is a parameter: it either fails or changes it.
\<close>

section \<open>State\<close>

text \<open>\<open>mg_versions\<close> is the table \<open>schema_migrations\<close>, \<open>None\<close> before it is created.\<close>

record 's migrate_db =
  mg_versions :: "string list option"
  mg_schema :: 's

datatype migrate_error =
    CreateTableFailed | ReadDirFailed
  | CheckFailed string | ReadFailed string | BeginFailed string
  | ApplyFailed string | RecordFailed string | CommitFailed string

text \<open>
  The directory: its entries with whether each is a directory (\<open>None\<close> when it cannot be read), and
  the content of a file.
\<close>

record migrate_dir =
  dir_entries :: "(string \<times> bool) list option"
  dir_file :: "string \<Rightarrow> string option"

section \<open>Operations\<close>

definition migration_files :: "(string \<times> bool) list \<Rightarrow> string list" where
  "migration_files entries = sort (map fst (filter (\<lambda>(name, is_dir). \<not> is_dir \<and> has_suffix name ''.sql'') entries))"

text \<open>
  One transaction: the file's statements and the row that records it, or neither. A commit that fails
  is one the server did not carry out.
\<close>

definition apply_migration :: "(string \<Rightarrow> 's \<Rightarrow> 's option) \<Rightarrow> (migrate_error \<Rightarrow> bool) \<Rightarrow> string \<Rightarrow> string \<Rightarrow> 's migrate_db
    \<Rightarrow> (migrate_error + unit) \<times> 's migrate_db" where
  "apply_migration exec fails name sql st =
     (if fails (BeginFailed name) then (Inl (BeginFailed name), st)
      else (case exec sql (mg_schema st) of
              None \<Rightarrow> (Inl (ApplyFailed name), st)
            | Some sc \<Rightarrow>
                if fails (RecordFailed name) then (Inl (RecordFailed name), st)
                else if fails (CommitFailed name) then (Inl (CommitFailed name), st)
                else (Inr (), st\<lparr>mg_schema := sc, mg_versions := map_option (\<lambda>vs. vs @ [name]) (mg_versions st)\<rparr>)))"

definition is_applied :: "string \<Rightarrow> 's migrate_db \<Rightarrow> bool" where
  "is_applied name st = (case mg_versions st of None \<Rightarrow> False | Some vs \<Rightarrow> list_ex (\<lambda>v. v = name) vs)"

fun apply_files :: "(string \<Rightarrow> 's \<Rightarrow> 's option) \<Rightarrow> (migrate_error \<Rightarrow> bool) \<Rightarrow> (string \<Rightarrow> string option) \<Rightarrow> string list
    \<Rightarrow> 's migrate_db \<Rightarrow> (migrate_error + unit) \<times> 's migrate_db" where
  "apply_files exec fails file [] st = (Inr (), st)"
| "apply_files exec fails file (name # names) st =
     (if fails (CheckFailed name) then (Inl (CheckFailed name), st)
      else if is_applied name st then apply_files exec fails file names st
      else (case file name of
              None \<Rightarrow> (Inl (ReadFailed name), st)
            | Some sql \<Rightarrow> (case apply_migration exec fails name sql st of
                  (Inl e, st') \<Rightarrow> (Inl e, st')
                | (Inr _, st') \<Rightarrow> apply_files exec fails file names st')))"

text \<open>\<open>CREATE TABLE IF NOT EXISTS schema_migrations\<close>.\<close>

definition create_table :: "'s migrate_db \<Rightarrow> 's migrate_db" where
  "create_table st = (case mg_versions st of None \<Rightarrow> st\<lparr>mg_versions := Some []\<rparr> | Some vs \<Rightarrow> st)"

definition Up :: "(string \<Rightarrow> 's \<Rightarrow> 's option) \<Rightarrow> (migrate_error \<Rightarrow> bool) \<Rightarrow> migrate_dir \<Rightarrow> 's migrate_db
    \<Rightarrow> (migrate_error + unit) \<times> 's migrate_db" where
  "Up exec fails dir st =
     (if fails CreateTableFailed then (Inl CreateTableFailed, st)
      else (case dir_entries dir of
              None \<Rightarrow> (Inl ReadDirFailed, create_table st)
            | Some entries \<Rightarrow> apply_files exec fails (dir_file dir) (migration_files entries) (create_table st)))"

section \<open>Lemmas\<close>

definition applied :: "'s migrate_db \<Rightarrow> string list" where
  "applied st = (case mg_versions st of None \<Rightarrow> [] | Some vs \<Rightarrow> vs)"

text \<open>The migrations a run has to apply, in order.\<close>

definition pending :: "string list \<Rightarrow> 's migrate_db \<Rightarrow> string list" where
  "pending names st = filter (\<lambda>n. n \<notin> set (applied st)) names"

text \<open>The reference: the files with these names executed one after the other.\<close>

fun exec_files :: "(string \<Rightarrow> 's \<Rightarrow> 's option) \<Rightarrow> (string \<Rightarrow> string option) \<Rightarrow> string list \<Rightarrow> 's \<Rightarrow> 's option" where
  "exec_files exec file [] sc = Some sc"
| "exec_files exec file (n # ns) sc =
     (case file n of None \<Rightarrow> None | Some sql \<Rightarrow> Option.bind (exec sql sc) (exec_files exec file ns))"

lemma is_applied_iff: "is_applied n st \<longleftrightarrow> n \<in> set (applied st)"
  by (auto simp: is_applied_def applied_def list_ex_iff split: option.split)

lemma applied_create_table [simp]: "applied (create_table st) = applied st" "mg_schema (create_table st) = mg_schema st"
  "mg_versions (create_table st) \<noteq> None"
  by (auto simp: create_table_def applied_def split: option.split)

lemma pending_create_table [simp]: "pending names (create_table st) = pending names st"
  by (simp add: pending_def)

lemma apply_migration_Inr:
  assumes "apply_migration exec fails n sql st = (Inr x, st')" "mg_versions st \<noteq> None"
  shows "exec sql (mg_schema st) = Some (mg_schema st')" "applied st' = applied st @ [n]" "mg_versions st' \<noteq> None"
  using assms by (auto simp: apply_migration_def applied_def split: if_splits option.splits)

lemma apply_migration_Inl: "apply_migration exec fails n sql st = (Inl e, st') \<Longrightarrow> st' = st"
  by (auto simp: apply_migration_def split: if_splits option.splits)

lemma apply_files_run:
  assumes "apply_files exec fails file names st = (res, st')" "distinct names" "mg_versions st \<noteq> None"
  shows "\<exists>k \<le> length (pending names st). applied st' = applied st @ take k (pending names st) \<and>
    exec_files exec file (take k (pending names st)) (mg_schema st) = Some (mg_schema st') \<and>
    (res = Inr () \<longrightarrow> k = length (pending names st)) \<and> mg_versions st' \<noteq> None"
  using assms
proof (induction names arbitrary: st)
  case Nil
  then show ?case by (simp add: pending_def)
next
  case (Cons n names)
  show ?case
  proof (cases "n \<in> set (applied st)")
    case True
    then have "pending (n # names) st = pending names st" by (simp add: pending_def)
    with True Cons show ?thesis
      by (cases "fails (CheckFailed n)") (auto simp: is_applied_iff)
  next
    case False
    then have p: "pending (n # names) st = n # pending names st" by (simp add: pending_def)
    show ?thesis
    proof (cases "\<exists>sql st1. file n = Some sql \<and> apply_migration exec fails n sql st = (Inr (), st1) \<and> \<not> fails (CheckFailed n)")
      case True
      then obtain sql st1 where s: "file n = Some sql" "apply_migration exec fails n sql st = (Inr (), st1)"
        "\<not> fails (CheckFailed n)" by blast
      note a = apply_migration_Inr [OF s(2) Cons.prems(3)]
      have q: "pending names st1 = pending names st" using Cons.prems(2) a(2) by (auto simp: pending_def intro: filter_cong)
      have "apply_files exec fails file names st1 = (res, st')"
        using Cons.prems(1) False s by (simp add: is_applied_iff)
      from Cons.IH [OF this _ a(3)] Cons.prems(2) obtain k where "k \<le> length (pending names st)"
        "applied st' = applied st1 @ take k (pending names st)"
        "exec_files exec file (take k (pending names st)) (mg_schema st1) = Some (mg_schema st')"
        "res = Inr () \<longrightarrow> k = length (pending names st)" "mg_versions st' \<noteq> None" by (auto simp: q)
      then show ?thesis by (intro exI [of _ "Suc k"]) (simp add: p a s)
    next
      case False
      then have "st' = st" "res \<noteq> Inr ()"
        using Cons.prems(1) \<open>n \<notin> set (applied st)\<close>
        by (auto simp: is_applied_iff split: if_splits option.splits prod.splits sum.splits dest: apply_migration_Inl)
      then show ?thesis using Cons.prems(3) by (intro exI [of _ 0]) simp
    qed
  qed
qed

lemma apply_files_done:
  "set names \<subseteq> set (applied st) \<Longrightarrow> apply_files exec (\<lambda>_. False) file names st = (Inr (), st)"
  by (induction names) (auto simp: is_applied_iff)

lemma create_table_there: "mg_versions st \<noteq> None \<Longrightarrow> create_table st = st"
  by (auto simp: create_table_def)

lemma set_pending: "set names \<subseteq> set (applied st) \<union> set (pending names st)"
  by (auto simp: pending_def)

lemma distinct_migration_files: "distinct (map fst entries) \<Longrightarrow> distinct (migration_files entries)"
  unfolding migration_files_def distinct_sort
  by (induction entries) auto

section \<open>Properties\<close>

text \<open>C40: a run of the migrations, wherever it fails, has executed the first so many of the files not yet
  recorded, in the order of their names, and recorded exactly those; a run that succeeds has executed
  all of them, and running it again then changes nothing.\<close>

theorem migrate_up:
  assumes "Up exec fails dir st = (res, st')" "dir_entries dir = Some entries" "distinct (map fst entries)"
    "\<not> fails CreateTableFailed"
  shows "\<exists>k \<le> length (pending (migration_files entries) st).
      applied st' = applied st @ take k (pending (migration_files entries) st) \<and>
      exec_files exec (dir_file dir) (take k (pending (migration_files entries) st)) (mg_schema st) = Some (mg_schema st') \<and>
      (res = Inr () \<longrightarrow> k = length (pending (migration_files entries) st) \<and> Up exec (\<lambda>_. False) dir st' = (Inr (), st'))"
proof -
  let ?p = "pending (migration_files entries) st"
  have "apply_files exec fails (dir_file dir) (migration_files entries) (create_table st) = (res, st')"
    using assms(1,2,4) by (simp add: Up_def)
  from apply_files_run [OF this distinct_migration_files [OF assms(3)]] obtain k where k: "k \<le> length ?p"
    "applied st' = applied st @ take k ?p" "exec_files exec (dir_file dir) (take k ?p) (mg_schema st) = Some (mg_schema st')"
    "res = Inr () \<longrightarrow> k = length ?p" "mg_versions st' \<noteq> None" by auto
  moreover have "Up exec (\<lambda>_. False) dir st' = (Inr (), st')" if "res = Inr ()"
    using that k assms(2) set_pending [of "migration_files entries" st]
    by (simp add: Up_def create_table_there apply_files_done)
  ultimately show ?thesis by blast
qed

lemma migrate_up_witness:
  "\<exists>st'. Up (\<lambda>sql sc. Some (sc @ [sql])) (\<lambda>_. False)
      \<lparr>dir_entries = Some [(''002.sql'', False), (''old.sql'', True), (''001.sql'', False), (''README'', False)],
       dir_file = Some\<rparr> \<lparr>mg_versions = None, mg_schema = []\<rparr> = (Inr (), st') \<and>
     applied st' = [''001.sql'', ''002.sql'']"
proof -
  let ?ex = "\<lambda>sql sc. Some (sc @ [sql :: string])" and ?entries = "[(''002.sql'', False), (''old.sql'', True), (''001.sql'', False), (''README'', False)]"
  let ?dir = "\<lparr>dir_entries = Some ?entries, dir_file = Some\<rparr>" and ?st = "\<lparr>mg_versions = None, mg_schema = []\<rparr>"
  have "fst (Up ?ex (\<lambda>_. False) ?dir ?st) = Inr ()" "pending (migration_files ?entries) ?st = [''001.sql'', ''002.sql'']"
    by code_simp+
  then show ?thesis
    using migrate_up [of ?ex "\<lambda>_. False" ?dir ?st "Inr ()" "snd (Up ?ex (\<lambda>_. False) ?dir ?st)" ?entries]
    by (intro exI [of _ "snd (Up ?ex (\<lambda>_. False) ?dir ?st)"]) (auto simp: prod_eq_iff applied_def)
qed

end
