(* ===== verification/Startup.thy ===== *)
theory Startup
  imports Config Migrate Http_Server
begin

text \<open>
  \<open>cmd/api/main.go\<close>: what the process builds from its configuration, up to the point where it serves
  requests, and \<open>InitTracing\<close> of \<open>internal/observability/metrics.go\<close>. What the outside world answers
  during the start is a parameter. Then what the process closes after the signal to stop, and when.
\<close>

section \<open>Starting\<close>

text \<open>
  The exporter of traces is created, the pool for the database address, the directory of migrations
  with what may fail on it, the URL of Redis parses and Redis answers a ping, the gRPC address can be
  listened on, NATS accepts the connection.
\<close>

record 's world =
  wo_exporter_ok :: bool
  wo_pool_ok :: bool
  wo_exec :: "string \<Rightarrow> 's \<Rightarrow> 's option"
  wo_migrate_fails :: "migrate_error \<Rightarrow> bool"
  wo_migrations :: migrate_dir
  wo_redis_url_ok :: bool
  wo_redis_ping_ok :: bool
  wo_grpc_ok :: bool
  wo_nats_ok :: bool

datatype start_failure = TracingInit | ConnectDatabase | MigrateFailed migrate_error | GrpcListen

text \<open>What serves and works afterwards: the server, and what its surroundings have.\<close>

record started =
  sd_server :: server
  sd_redis :: bool
  sd_snapshotN :: i64
  sd_idempotency :: bool
  sd_nats :: bool
  sd_workers :: bool

definition InitTracing :: "string \<Rightarrow> bool \<Rightarrow> bool" where
  "InitTracing endpoint exporter_ok \<longleftrightarrow> endpoint = [] \<or> exporter_ok"

text \<open>
  The parts, once the database is there. The libraries the server is built with are those of \<open>lib\<close>;
  its authenticator is made here. A client of Redis that cannot be made or does not answer is nil.
\<close>

definition wire :: "config \<Rightarrow> server \<Rightarrow> 's world \<Rightarrow> started" where
  "wire cfg lib w =
     \<lparr>sd_server = lib\<lparr>sr_auth := Some (auth_New (cf_JWTSecret cfg) (cf_JWTIssuer cfg))\<rparr>,
      sd_redis = (wo_redis_url_ok w \<and> wo_redis_ping_ok w),
      sd_snapshotN = cf_SnapshotEvery cfg,
      sd_idempotency = True,
      sd_nats = (cf_NATSURL cfg \<noteq> [] \<and> wo_nats_ok w),
      sd_workers = cf_WorkersEnabled cfg\<rparr>"

definition start :: "config \<Rightarrow> server \<Rightarrow> 's world \<Rightarrow> 's migrate_db \<Rightarrow> (start_failure + started) \<times> 's migrate_db" where
  "start cfg lib w m =
     (if \<not> InitTracing (cf_OTLPEndpoint cfg) (wo_exporter_ok w) then (Inl TracingInit, m)
      else if \<not> wo_pool_ok w then (Inl ConnectDatabase, m)
      else (case (if cf_MigrateOnStart cfg then Up (wo_exec w) (wo_migrate_fails w) (wo_migrations w) m else (Inr (), m)) of
          (Inl e, m') \<Rightarrow> (Inl (MigrateFailed e), m')
        | (Inr _, m') \<Rightarrow> if \<not> wo_grpc_ok w then (Inl GrpcListen, m') else (Inr (wire cfg lib w), m')))"

text \<open>The surroundings of a request to the started process.\<close>

definition started_env :: "started \<Rightarrow> Http_Api.env \<Rightarrow> Http_Api.env" where
  "started_env sd en = en\<lparr>en_redis := sd_redis sd, en_snapshotN := sd_snapshotN sd, en_idempotency := sd_idempotency sd\<rparr>"

section \<open>Stopping\<close>

text \<open>
  When the signal arrives, when the last gRPC call has ended, when no HTTP request is open any more
  and when the last connection is back in the pool: never, where it is \<open>None\<close>. Times are in
  nanoseconds.
\<close>

record ending =
  ed_signal :: int
  ed_grpc_idle :: "int option"
  ed_http_idle :: "int option"
  ed_pool_idle :: "int option"

datatype closing = GrpcStopped | HttpStopped bool | NatsClosed | RedisClosed | PoolClosed | TracesShutDown

text \<open>
  \<open>Shutdown\<close> of the HTTP server looks for open requests first and at its context second; it tells
  whether it ended before the deadline did.
\<close>

definition http_Shutdown :: "int \<Rightarrow> int \<Rightarrow> int option \<Rightarrow> int \<times> bool" where
  "http_Shutdown deadline called idle =
     (case idle of
        None \<Rightarrow> (max called deadline, False)
      | Some h \<Rightarrow> if h \<le> called then (called, True)
          else if deadline \<le> called then (called, False)
          else if h \<le> deadline then (h, True) else (deadline, False))"

text \<open>
  What is closed, and when: the gRPC server waits for its calls without a bound, the deadline of the
  HTTP server runs from the signal. The pool and the traces are closed as \<open>main\<close> returns, and the pool
  waits for its connections. A step that never ends is the last.
\<close>

definition shutdown :: "started \<Rightarrow> ending \<Rightarrow> (int \<times> closing) list" where
  "shutdown sd ed =
     (case ed_grpc_idle ed of
        None \<Rightarrow> []
      | Some g \<Rightarrow> let grpc = max (ed_signal ed) g; (http, clean) = http_Shutdown (ed_signal ed + 10000000000) grpc (ed_http_idle ed)
          in [(grpc, GrpcStopped), (http, HttpStopped clean)] @
             (if sd_nats sd then [(http, NatsClosed)] else []) @
             (if sd_redis sd then [(http, RedisClosed)] else []) @
             (case ed_pool_idle ed of
                None \<Rightarrow> []
              | Some p \<Rightarrow> [(max http p, PoolClosed), (max http p, TracesShutDown)]))"

text \<open>
  The process ends exactly if the gRPC calls end and the connections come back. Requests over HTTP
  are waited for until ten seconds after the signal, or until the gRPC server has stopped if that is later.
\<close>

lemma shutdown_ends:
  "(TracesShutDown \<in> snd ` set (shutdown sd ed)) = (ed_grpc_idle ed \<noteq> None \<and> ed_pool_idle ed \<noteq> None)"
  by (cases "ed_grpc_idle ed"; cases "ed_pool_idle ed"; cases "sd_nats sd"; cases "sd_redis sd")
    (simp_all add: shutdown_def Let_def split_beta)

lemma http_Shutdown_called: "a \<le> called \<Longrightarrow> a \<le> fst (http_Shutdown deadline called idle)"
  by (auto simp: http_Shutdown_def split: option.split)

lemma http_Shutdown_clean: "snd (http_Shutdown deadline called idle) = (\<exists>h. idle = Some h \<and> h \<le> max deadline called)"
  by (auto simp: http_Shutdown_def split: option.split)

lemma shutdown_ordered: "sorted (map fst (shutdown sd ed))"
  by (cases "ed_grpc_idle ed"; cases "ed_pool_idle ed") (auto simp: shutdown_def Let_def split_beta http_Shutdown_called le_max_iff_disj)

lemma shutdown_waits_for_http:
  assumes "ed_grpc_idle ed = Some g"
  shows "(HttpStopped True \<in> snd ` set (shutdown sd ed)) =
    (\<exists>h. ed_http_idle ed = Some h \<and> h \<le> max (ed_signal ed + 10000000000) (max (ed_signal ed) g))"
proof -
  have "(HttpStopped True \<in> snd ` set (shutdown sd ed)) =
      snd (http_Shutdown (ed_signal ed + 10000000000) (max (ed_signal ed) g) (ed_http_idle ed))"
    using assms by (cases "ed_pool_idle ed") (auto simp: shutdown_def Let_def split_beta)
  then show ?thesis by (simp only: http_Shutdown_clean)
qed

section \<open>Lemmas\<close>

lemma start_Inr:
  assumes "start cfg lib w m = (Inr sd, m')"
  shows "sd_server sd = lib\<lparr>sr_auth := Some (auth_New (cf_JWTSecret cfg) (cf_JWTIssuer cfg))\<rparr>"
    "cf_MigrateOnStart cfg \<Longrightarrow> Up (wo_exec w) (wo_migrate_fails w) (wo_migrations w) m = (Inr (), m')"
    "\<not> cf_MigrateOnStart cfg \<Longrightarrow> m' = m"
  using assms by (auto simp: start_def wire_def split: if_splits prod.splits sum.splits)

lemma serve_open:
  assumes "fst (allow now (client_key (wr_addr q)) (sv_limiter st))"
    "authenticate s (now div 1000000000) q = NextHandler None"
    "sr_chi s router_routes (wr_method q) (wr_path q) = Some ro"
  shows "fst (serve s en now q st) =
      fst (run_endpoint s en (now div 1000000000) (ro_endpoint ro) (wr_request q) (sv_db st) (sv_cache st))"
    "sv_db (snd (serve s en now q st)) =
      fst (snd (run_endpoint s en (now div 1000000000) (ro_endpoint ro) (wr_request q) (sv_db st) (sv_cache st)))"
proof -
  have "guard_passes g None" for g by (simp add: guard_passes_def RequireWrite_def RequireReplay_def split: guard.split)
  then show "fst (serve s en now q st) =
      fst (run_endpoint s en (now div 1000000000) (ro_endpoint ro) (wr_request q) (sv_db st) (sv_cache st))"
    "sv_db (snd (serve s en now q st)) =
      fst (snd (run_endpoint s en (now div 1000000000) (ro_endpoint ro) (wr_request q) (sv_db st) (sv_cache st)))"
    using assms by (auto simp: serve_def dispatch_def rateLimitMiddleware_def split: prod.splits bool.splits)
qed

lemma serve_unauthorized:
  assumes "authenticate s (now div 1000000000) q = Unauthorized"
  shows "rs_status (fst (fst (serve s en now q st))) \<in> {401, 429}" "sv_db (snd (serve s en now q st)) = sv_db st"
    "sv_cache (snd (serve s en now q st)) = sv_cache st"
  using assms by (auto simp: serve_def rateLimitMiddleware_def keep_def writeError_def writeJSON_def
      split: prod.splits option.splits bool.splits)

section \<open>Properties\<close>

text \<open>C18: one variable decides over access: a process started without \<open>JWT_SECRET\<close> runs the handler of every
  route for any request the limiter lets through, with whatever credentials or none; one started with it
  answers a request without a bearer token with 401 or 429 and changes nothing, unless the path is
  \<open>/health\<close> or \<open>/metrics\<close> or begins with \<open>/ui\<close>, which are open. The endpoint that issues
  tokens, \<open>/auth/token\<close>, is not open. Whenever it serves and migrates on start, the migrations succeeded.\<close>

theorem secret_decides_access:
  assumes "start (Load frac getenv) lib w m = (Inr sd, m')"
  shows "(getenv ''JWT_SECRET'' = [] \<and> fst (allow now (client_key (wr_addr q)) (sv_limiter st)) \<and>
        sr_chi lib router_routes (wr_method q) (wr_path q) = Some ro \<longrightarrow>
      fst (serve (sd_server sd) en now q st) =
        fst (run_endpoint (sd_server sd) en (now div 1000000000) (ro_endpoint ro) (wr_request q) (sv_db st) (sv_cache st))) \<and>
    (getenv ''JWT_SECRET'' \<noteq> [] \<and> \<not> has_prefix (hr_header (wr_request q) ''Authorization'') ''Bearer '' \<and>
        (wr_path q = ''/auth/token'' \<or>
         wr_path q \<noteq> ''/health'' \<and> wr_path q \<noteq> ''/metrics'' \<and> \<not> has_prefix (wr_path q) ''/ui'') \<longrightarrow>
      rs_status (fst (fst (serve (sd_server sd) en now q st))) \<in> {401, 429} \<and>
      sv_db (snd (serve (sd_server sd) en now q st)) = sv_db st) \<and>
    (cf_MigrateOnStart (Load frac getenv) \<longrightarrow>
      Up (wo_exec w) (wo_migrate_fails w) (wo_migrations w) m = (Inr (), m'))"
proof (intro conjI impI)
  note s = start_Inr [OF assms]
  have a: "sr_auth (sd_server sd) = Some (auth_New (getenv ''JWT_SECRET'') (cf_JWTIssuer (Load frac getenv)))"
    and chi: "sr_chi (sd_server sd) = sr_chi lib"
    using s(1) by (simp_all add: Load_def Config.env_def)
  {
    assume "getenv ''JWT_SECRET'' = [] \<and> fst (allow now (client_key (wr_addr q)) (sv_limiter st)) \<and>
      sr_chi lib router_routes (wr_method q) (wr_path q) = Some ro"
    then show "fst (serve (sd_server sd) en now q st) =
        fst (run_endpoint (sd_server sd) en (now div 1000000000) (ro_endpoint ro) (wr_request q) (sv_db st) (sv_cache st))"
      using a chi by (intro serve_open(1)) (auto simp: authenticate_def Middleware_def Enabled_def auth_New_def)
  next
    assume "getenv ''JWT_SECRET'' \<noteq> [] \<and> \<not> has_prefix (hr_header (wr_request q) ''Authorization'') ''Bearer '' \<and>
        (wr_path q = ''/auth/token'' \<or>
         wr_path q \<noteq> ''/health'' \<and> wr_path q \<noteq> ''/metrics'' \<and> \<not> has_prefix (wr_path q) ''/ui'')"
    then have "authenticate (sd_server sd) (now div 1000000000) q = Unauthorized"
      using a by (auto simp: authenticate_def Middleware_def Enabled_def auth_New_def)
    note u = serve_unauthorized [OF this, of en st]
    show "rs_status (fst (fst (serve (sd_server sd) en now q st))) \<in> {401, 429}" by (rule u(1))
    show "sv_db (snd (serve (sd_server sd) en now q st)) = sv_db st" by (rule u(2))
  next
    assume "cf_MigrateOnStart (Load frac getenv)"
    then show "Up (wo_exec w) (wo_migrate_fails w) (wo_migrations w) m = (Inr (), m')" by (rule s(2))
  }
qed

definition sample_world :: "string list world" where
  "sample_world = \<lparr>wo_exporter_ok = True, wo_pool_ok = True, wo_exec = (\<lambda>sql sc. Some (sc @ [sql])),
     wo_migrate_fails = (\<lambda>_. False),
     wo_migrations = \<lparr>dir_entries = Some [(''001.sql'', False)], dir_file = Some\<rparr>,
     wo_redis_url_ok = True, wo_redis_ping_ok = False, wo_grpc_ok = True, wo_nats_ok = False\<rparr>"

definition anonymous :: web_request where
  "anonymous = \<lparr>wr_method = ''POST'', wr_path = ''/products'', wr_addr = ''10.0.0.1:5000'',
     wr_request = sample_request [] (Some sample_product) []\<rparr>"

lemma secret_decides_access_witness:
  "\<exists>sd m sd' m'.
     start (Load (\<lambda>f sc u. 0) (\<lambda>_. [])) sample_server sample_world \<lparr>mg_versions = None, mg_schema = []\<rparr> = (Inr sd, m) \<and>
     fst (serve (sd_server sd) sample_env 5000000000 anonymous (new_state empty_db Map.empty)) =
       fst (run_endpoint (sd_server sd) sample_env 5 CreateProduct (wr_request anonymous) empty_db Map.empty) \<and>
     start (Load (\<lambda>f sc u. 0) (\<lambda>k. if k = ''JWT_SECRET'' then ''s'' else [])) sample_server sample_world
       \<lparr>mg_versions = None, mg_schema = []\<rparr> = (Inr sd', m') \<and>
     rs_status (fst (fst (serve (sd_server sd') sample_env 5000000000 anonymous (new_state empty_db Map.empty)))) \<in> {401, 429}"
proof -
  let ?m = "\<lparr>mg_versions = None, mg_schema = []\<rparr> :: string list migrate_db" and ?frac = "\<lambda>f sc u. 0 :: int"
  let ?get = "\<lambda>k. if k = ''JWT_SECRET'' then ''s'' else []" and ?st = "new_state empty_db Map.empty"
  let ?x = "start (Load ?frac (\<lambda>_. [])) sample_server sample_world ?m" and ?y = "start (Load ?frac ?get) sample_server sample_world ?m"
  have "\<not> isl (fst ?x)" "\<not> isl (fst ?y)" "fst (allow 5000000000 (client_key (wr_addr anonymous)) (sv_limiter ?st))"
    "sr_chi sample_server router_routes (wr_method anonymous) (wr_path anonymous) = Some (mk_route ''POST'' ''/products'' WriteGuard CreateProduct)"
    by code_simp+
  moreover from this(1,2) obtain sd m sd' m' where "?x = (Inr sd, m)" "?y = (Inr sd', m')"
    by (metis isl_def old.sum.exhaust prod.collapse)
  moreover have "sv_db ?st = empty_db" "sv_cache ?st = Map.empty" by (simp_all add: new_state_def)
  moreover have "hr_header (wr_request anonymous) ''Authorization'' = []" "wr_path anonymous = ''/products''"
    by (simp_all add: anonymous_def sample_request_def)
  ultimately show ?thesis
    using secret_decides_access [of ?frac "\<lambda>_. []" sample_server sample_world ?m sd m 5000000000 anonymous ?st
        "mk_route ''POST'' ''/products'' WriteGuard CreateProduct" sample_env]
      secret_decides_access [of ?frac ?get sample_server sample_world ?m sd' m' 5000000000 anonymous ?st
        "mk_route ''POST'' ''/products'' WriteGuard CreateProduct" sample_env]
    by (intro exI [of _ sd] exI [of _ m] exI [of _ sd'] exI [of _ m']) (simp add: mk_route_def)
qed

end
