(* ===== verification/Spec2Isabelle.thy ===== *)
theory Spec2Isabelle
  imports Command_Effects Delivery Sound_Replays Connections Linearizable Replayable Catch_Up Searching Diffs Cache_Expiry Observability Grpc_Api Startup
begin

text \<open>
  API Time Machine (\<open>src/\<close>) is a service that keeps users, products and orders as logs of events in
  PostgreSQL and answers for their state at any version or time. A command appends one event under
  optimistic concurrency control, with an outbox row and the update of a read model in the same
  transaction; a query folds the events of an aggregate, from a snapshot where there is one; workers
  publish the outbox and build snapshots; a REST and a gRPC interface stand in front.

  \<^bold>\<open>What is modelled where.\<close> Each theory names its Go file in its first text block.

  \<^item> \<open>Prelude\<close>, \<open>GoTime\<close>, \<open>GoJson\<close>: what the source uses of the Go language and its standard library:
    64 and 32 bit integers as integers that wrap, \<open>strconv\<close>, \<open>strings\<close>, \<open>time\<close> (instants in
    nanoseconds with a location, RFC 3339), \<open>encoding/json\<close> decoding into structs, with the errors
    that abort and those that are saved.
  \<^item> \<open>Domain\<close> (\<open>internal/domain\<close>): events, snapshots, queries, errors. \<open>Database\<close>: the tables of
    \<open>migrations\<close> as a record of lists and maps, sequences that a rollback does not rewind, and which
    database calls fail (\<open>faults\<close>).
  \<^item> \<open>Event_Store\<close> (\<open>internal/eventstore\<close>), \<open>Snapshot_Store\<close> (\<open>internal/snapshot\<close>),
    \<open>User_Aggregate\<close>, \<open>Product_Aggregate\<close>, \<open>Order_Aggregate\<close> (the \<open>aggregate.go\<close> files),
    \<open>Replay\<close> (\<open>internal/replay\<close>), \<open>Projection\<close> (\<open>internal/projection\<close>).
  \<^item> \<open>Command_Service\<close> (\<open>internal/platform/commands.go\<close>), \<open>User_Service\<close>, \<open>Product_Service\<close>,
    \<open>Order_Service\<close> (the \<open>service.go\<close> files); \<open>Commands\<close> holds what is proved of all of them, and
    \<open>Command_Effects\<close> what each command does to the aggregate a replay shows.
  \<^item> \<open>Workers\<close> (\<open>internal/worker\<close>): the rounds of the publisher, the snapshot builder and the
    warmer, and their loops as functions of the list of ticks.
  \<^item> \<open>System\<close>: commands in flight, workers and the clock as a step relation on the database; a command
    begins, reads the version and writes in separate steps, so they interleave as transactions do.
  \<^item> On top of \<open>System\<close>: \<open>Linearizable\<close> (its steps against atomic commands on an abstract log), \<open>Read_Model\<close>
    (what the tables of the read side hold, and the snapshot made of them), \<open>Replayable\<close> (accepted
    events apply), \<open>Sound_Replays\<close> (replays in every reachable state), \<open>Catch_Up\<close> (the snapshot
    builder comes to rest), \<open>Connections\<close> (the pool of connections the steps share), \<open>Delivery\<close>
    (what the publisher has sent, over the steps of \<open>Connections\<close>),
    \<open>Cache_Expiry\<close> (the cache over time, with times to live), \<open>Searching\<close> (answers of the search).
  \<^item> \<open>Temporal_Query\<close>, \<open>Replay_Cache\<close>, \<open>Diff_Engine\<close> (\<open>internal/temporal\<close>, \<open>cache\<close>, \<open>diff\<close>).
  \<^item> \<open>Rate_Limiter\<close>, \<open>Auth\<close>, \<open>Http_Api\<close>, \<open>Http_Server\<close> (\<open>internal/api\<close>, \<open>internal/auth\<close>): the helpers
    and handlers, then the routes, the middlewares in their order and the whole of a request; \<open>Diffs\<close> (the
    diff endpoints end to end) and \<open>Observability\<close> (\<open>internal/observability\<close>: what is counted and logged).
  \<^item> \<open>Grpc_Api\<close> (\<open>internal/grpc\<close>), \<open>Migrate\<close> (\<open>pkg/migrate\<close>), \<open>Config\<close> (\<open>configs\<close>), and \<open>Startup\<close>
    (\<open>cmd/api/main.go\<close>), which builds the server from the configuration and takes it down.

  \<^bold>\<open>Interfaces.\<close> The locale \<open>aggregate\<close> (in \<open>Replay\<close>) says what the replay engine needs of an aggregate
  (new, apply, restore from a snapshot), and the lemmas on replays are proved in it once; it is
  interpreted on users, products and orders. The locale \<open>projector\<close> (in \<open>Projection\<close>) says what the
  command service needs of a projector; it is interpreted on the three projectors. \<open>total_aggregate\<close>
  (in \<open>Replayable\<close>) extends \<open>aggregate\<close> by events that apply to every state or to none, \<open>read_table\<close>
  (in \<open>Read_Model\<close>) says what a table of the read side promises, \<open>field_map\<close> (in \<open>Diffs\<close>) what the
  comparison needs of the fields of a state; each is interpreted on users, products and orders.

  \<^bold>\<open>What is shown.\<close> The log: versions are 1, 2, 3 and so on for every aggregate in
  every reachable state, however commands interleave; history only grows; a command that was overtaken
  is refused; a command that fails leaves no trace, unless what fails is reading its answer back
  after the commit; every step is an atomic command on an abstract log or none (\<open>Commands\<close>, \<open>System\<close>, \<open>Linearizable\<close>); each command does to the replayed aggregate what
  its specification says and nothing to others, while the snapshots of its type hold the states their
  versions say (\<open>Command_Effects\<close>). The outbox: the messages about an
  aggregate are its history in order, repeats aside, and reach its end (\<open>Delivery\<close>). The read
  side: a row is the last event alone, the snapshots the user service makes of it replace the log
  in replays, and no accepted event makes an aggregate unreadable
  (\<open>Read_Model\<close>, \<open>Replayable\<close>). The pool: commands end unless every
  connection waits for another one, which as many commands as connections bring about
  (\<open>Connections\<close>). Replays: a replay at a version, or of the present, is the fold of the
  log, whatever snapshots there are that hold the states their versions say (\<open>Replay\<close>). Those of
  products and orders all do in every reachable state, so there nothing is assumed of them; those of
  users do unless the user service has saved its own (\<open>users_good\<close> is that condition, where a theorem
  needs it). Rounds of the snapshot builder change no such replay, and the builder comes to rest; a
  replay at a time is the fold of what was stored by then only where the snapshot is not younger, and
  the theorem says what it is (\<open>Sound_Replays\<close>, \<open>Catch_Up\<close>). The cache and how stale it gets, the diff, the
  search, the limiter, the counters and the parsers against their specifications. The interfaces:
  refused requests change nothing, \<open>If-Match\<close> and idempotency keys do what they promise
  and no more, only writers write, one variable decides whether anybody is asked for a token, both
  interfaces answer alike but for versions below one, and a versioned GET is followed from the limiter to the fold of the log
  (\<open>Http_Api\<close>, \<open>Http_Server\<close>, \<open>Grpc_Api\<close>, and below). Where the
  code does not keep what its documents promise, a theorem states what it does instead.

  \<^bold>\<open>Parameters.\<close> Libraries outside the repository are arguments: the JWT library
  (\<open>signer\<close>, \<open>verifier\<close>, with \<open>jwt_contract\<close>), the router (with
  \<open>router_contract\<close>), the orders in which Go visits maps and PostgreSQL returns unordered
  rows, the effect of a migration's SQL, the floating-point part of a duration, which calls fail,
  the label values the Prometheus client accepts (\<open>takes_utf8\<close>: the valid UTF-8 ones). Each
  contract is shown to hold of a concrete instance.

  \<^bold>\<open>Not modelled.\<close> The SQL engine below the statements, NUL bytes and invalid UTF-8 in stored text, the
  wire encodings of HTTP and protobuf, clients that go away while they wait, durations and request
  identifiers in metrics and logs, the exporter of traces, the embedded web page, generated code,
  an HTTP address that cannot be listened on. Of panics there is one in the model, that of the Prometheus
  client on a label that is not valid UTF-8, which \<open>Recoverer\<close> stops after the request was answered
  (\<open>Observability\<close>). The local zone of the server has offset zero. A
  request is served by one database state after the other; the interleaving of commands is that of
  \<open>System\<close>, where a write and its commit are one step: identities are drawn in the order of commits
  there, while transactions on different aggregates can draw them in one order and commit in the other,
  so no property says anything of the order of identities across aggregates. No definition needs fuel: every loop of the source runs over a finite list.
\<close>

section \<open>A versioned read, end to end\<close>

text \<open>A request gets as far as a handler behind the replay guard.\<close>

definition admitted :: "server \<Rightarrow> int \<Rightarrow> web_request \<Rightarrow> server_state \<Rightarrow> endpoint \<Rightarrow> bool" where
  "admitted s now q st e \<longleftrightarrow> fst (allow now (client_key (wr_addr q)) (sv_limiter st)) \<and>
     (case authenticate s (now div 1000000000) q of NextHandler ctx \<Rightarrow> RequireReplay ctx | _ \<Rightarrow> False) \<and>
     (case sr_chi s router_routes (wr_method q) (wr_path q) of
        None \<Rightarrow> False | Some ro \<Rightarrow> ro_guard ro = ReplayGuard \<and> ro_endpoint ro = e)"

lemma serve_admitted:
  assumes "admitted s now q st e"
    and "run_endpoint s en (now div 1000000000) e (wr_request q) (sv_db st) (sv_cache st) = (answer, d, c)"
  shows "fst (serve s en now q st) = answer" "sv_db (snd (serve s en now q st)) = d"
  using assms
  by (auto simp: admitted_def serve_def dispatch_def guard_passes_def rateLimitMiddleware_def
      split: prod.splits option.splits auth_outcome.splits bool.splits)

text \<open>What the handlers answer for a replay, with timestamps as instants.\<close>

definition shows_state :: "('a \<Rightarrow> payload) \<Rightarrow> ('a \<Rightarrow> 'a) \<Rightarrow> response \<Rightarrow> 'a result \<Rightarrow> bool" where
  "shows_state pl utc resp res = (case res of
       Inl e \<Rightarrow> resp = handleQueryError e
     | Inr x \<Rightarrow> \<exists>y. resp = writeJSON 200 (pl y) \<and> utc y = utc x)"

lemma shows_state_replay:
  assumes "map_sum id utc replayed = map_sum id utc res"
  shows "shows_state pl utc (case replayed of Inl e \<Rightarrow> handleQueryError e | Inr y \<Rightarrow> writeJSON 200 (pl y)) res"
  using assms by (cases replayed; cases res) (auto simp: shows_state_def)

lemma parse_version_param:
  assumes "hr_param r ''at'' = []" "hr_param r ''version'' = show_int v" "in_i64 v"
  shows "api_parseReplayQuery r = (at_version v, True)"
proof -
  have "show_int v \<noteq> []" using show_int_Cons [of v] by fastforce
  then show ?thesis
    using assms by (simp add: api_parseReplayQuery_def at_version_def empty_query_def parse_int64_show_int Let_def)
qed

lemma isTemporal_version [simp]: "isTemporal (at_version v)"
  by (simp add: isTemporal_def at_version_def)

text \<open>The three handlers of a GET, at a version.\<close>

lemma versioned_endpoints:
  assumes "api_parseReplayQuery r = (at_version v, True)"
  shows "\<not> en_redis en \<Longrightarrow> run_endpoint s en now GetUser r d c =
      (((case ReplayUser (en_fl en) d (hr_id r) (at_version v) of Inl e \<Rightarrow> handleQueryError e
          | Inr y \<Rightarrow> writeJSON 200 (PUser y)), None), d, c)"
    "run_endpoint s en now GetProduct r d c =
      (((case ReplayProduct (en_fl en) d (hr_id r) (at_version v) of Inl e \<Rightarrow> handleQueryError e
          | Inr y \<Rightarrow> writeJSON 200 (PProduct y)), None), d, c)"
    "run_endpoint s en now GetOrder r d c =
      (((case ReplayOrder (en_fl en) d (hr_id r) (at_version v) of Inl e \<Rightarrow> handleQueryError e
          | Inr y \<Rightarrow> writeJSON 200 (POrder y)), None), d, c)"
  using assms
  by (simp_all add: getUser_def api_ReplayUser_def cache_ReplayUser_def keep_db_def getProduct_def product_response_def
      getOrder_def order_response_def keep_def split: sum.split)

lemma admitted_shows:
  assumes "admitted s now q st e"
    and "run_endpoint s en (now div 1000000000) e (wr_request q) (sv_db st) (sv_cache st) =
      (((case replayed of Inl e \<Rightarrow> handleQueryError e | Inr y \<Rightarrow> writeJSON 200 (pl y)), None), sv_db st, sv_cache st)"
    and "map_sum id utc replayed = map_sum id utc res"
  shows "shows_state pl utc (fst (fst (serve s en now q st))) res" "sv_db (snd (serve s en now q st)) = sv_db st"
  using serve_admitted [OF assms(1,2)] shows_state_replay [OF assms(3)] by simp_all

section \<open>Properties\<close>

text \<open>C6: in every state the service can reach, a GET of a product or of an order at a version, once the
  limiter, the authenticator and the guard let it through and while the database answers, is answered by
  the fold of that many first events of the aggregate, or with the error of that fold, and changes
  nothing. The same holds for a user when there is no cache and the snapshots of users hold the states
  their versions say, as they do until the user service saves one of its read model.\<close>

theorem versioned_get_end_to_end:
  assumes "reachable t sys" "sv_db st = sy_db sys" "\<not> en_fl en CallLoadEvents" "\<not> en_fl en CallLatestSnapshot"
    and "hr_param (wr_request q) ''at'' = []" "hr_param (wr_request q) ''version'' = show_int v" "in_i64 v"
  shows "(admitted s now q st GetProduct \<longrightarrow> shows_state PProduct product_utc (fst (fst (serve s en now q st)))
      (fold_state productAgg (hr_id (wr_request q))
        (take (nat v) (aggregate_events AggregateProduct (hr_id (wr_request q)) (d_events (sv_db st))))) \<and>
      sv_db (snd (serve s en now q st)) = sv_db st) \<and>
    (admitted s now q st GetOrder \<longrightarrow> shows_state POrder order_utc (fst (fst (serve s en now q st)))
      (fold_state orderAgg (hr_id (wr_request q))
        (take (nat v) (aggregate_events AggregateOrder (hr_id (wr_request q)) (d_events (sv_db st))))) \<and>
      sv_db (snd (serve s en now q st)) = sv_db st) \<and>
    (admitted s now q st GetUser \<and> users_good (sv_db st) \<and> \<not> en_redis en \<longrightarrow>
      shows_state PUser user_utc (fst (fst (serve s en now q st)))
      (fold_state userAgg (hr_id (wr_request q))
        (take (nat v) (aggregate_events AggregateUser (hr_id (wr_request q)) (d_events (sv_db st))))) \<and>
      sv_db (snd (serve s en now q st)) = sv_db st)"
proof -
  have good: "db_ok (sv_db st)" "products_good (sv_db st)" "orders_good (sv_db st)"
    using reachable_sound [OF assms(1)] assms(2) by simp_all
  note e = versioned_endpoints [OF parse_version_param [OF assms(5-7)]]
  note f = replay_version_fold [OF good(1) assms(3,4), of "hr_id (wr_request q)" v]
  note p = admitted_shows [OF _ e(2) f(2) [OF good(2)]] and o = admitted_shows [OF _ e(3) f(3) [OF good(3)]]
    and u = admitted_shows [OF _ e(1) f(1)]
  show ?thesis
    by (intro conjI impI; (elim conjE)?; (rule p o u; assumption))
qed

definition sample_get :: "string \<Rightarrow> i64 \<Rightarrow> web_request" where
  "sample_get i v = \<lparr>wr_method = ''GET'', wr_path = ''/users/'' @ i, wr_addr = ''10.0.0.1:5000'',
     wr_request = (sample_request i None [(''Authorization'', bearer RoleReader)])
       \<lparr>hr_param := (\<lambda>k. if k = ''version'' then show_int v else [])\<rparr>\<rparr>"

lemma versioned_get_end_to_end_witness:
  "\<exists>sys st. reachable 0 sys \<and> sv_db st = sy_db sys \<and> length (d_snapshots (sv_db st)) = 1 \<and>
     shows_state PUser user_utc (fst (fst (serve sample_server sample_env 5000000000 (sample_get ''u1'' 1) st)))
       (fold_state userAgg ''u1'' (take 1 (aggregate_events AggregateUser ''u1'' (d_events (sv_db st)))))"
proof -
  obtain sys where sys: "reachable 0 sys" "sy_db sys = late_db" using late_reachable by blast
  let ?d = "buildSnapshots id no_faults (sy_clock sys) late_db"
  let ?st = "new_state ?d Map.empty"
  have r: "reachable 0 (sys\<lparr>sy_db := ?d\<rparr>)" using more [OF sys(1) sys_step.snapshots [of sys id no_faults]] sys(2) by simp
  have "users_good ?d"
    using buildSnapshots_keeps [of users_good no_faults "sy_clock sys" late_db id] snapshotOne_keeps_good(1) late_users_good
      reachable_sound(1) [OF sys(1)] sys(2) by simp
  moreover have "admitted sample_server 5000000000 (sample_get ''u1'' 1) (new_state d Map.empty) GetUser" for d by code_simp
  moreover have "length (d_snapshots (buildSnapshots id no_faults now late_db)) = 1" for now by code_simp
  moreover have "sv_db ?st = ?d" by (simp add: new_state_def)
  moreover have "hr_param (wr_request (sample_get ''u1'' 1)) ''at'' = []"
    "hr_param (wr_request (sample_get ''u1'' 1)) ''version'' = show_int 1" "hr_id (wr_request (sample_get ''u1'' 1)) = ''u1''"
    by (simp_all add: sample_get_def sample_request_def)
  moreover have "\<not> en_fl sample_env c" "\<not> en_redis sample_env" for c by (simp_all add: sample_env_def)
  ultimately show ?thesis
    using r versioned_get_end_to_end [OF r, of ?st sample_env "sample_get ''u1'' 1" 1 sample_server 5000000000]
    by (intro exI [of _ "sys\<lparr>sy_db := ?d\<rparr>"] exI [of _ ?st]) (simp add: in_i64_def)
qed

end
